(* ===== verification/Go_Prelude.thy ===== *)
theory Go_Prelude
  imports Main "HOL-Library.Multiset" "HOL-Library.Product_Lexorder"
begin

text \<open>
  What the components of the webhook notifier share: Go's fixed-width integers, instants and
  durations, results with an error, and the generic lemmas on lists, maps and multisets the
  component theories use. The collections \<open>go_arith\<close>, \<open>record_steps\<close> and \<open>queue_laws\<close> gather
  the rewrite rules that the proofs about integers, about single operations on a state record and
  about the delivery queues pass to the simplifier.
\<close>

named_theorems go_arith \<open>wrap-around and saturation of Go's 64-bit integers\<close>
named_theorems record_steps \<open>what one operation does to the fields of its state\<close>
named_theorems queue_laws \<open>what the operations of a delivery queue do to a row\<close>

section \<open>Integers, instants and durations\<close>

text \<open>
  Go's \<open>int\<close> and \<open>int64\<close> (64 bits on the platforms the program is built for) are integers in
  the range of \<open>int64\<close>; an arithmetic result that can leave the range is wrapped by
  \<open>wrap64\<close>. An instant (\<open>time.Time\<close>) is a number of nanoseconds since the zero instant
  of Go (1 January of year 1, UTC), so \<open>Time.IsZero\<close> is a comparison with 0.
  A \<open>time.Duration\<close> is an \<open>int64\<close> number of nanoseconds.
\<close>

type_synonym go_int = int
type_synonym time = int
type_synonym duration = int

definition int64 :: "int \<Rightarrow> bool" where
  "int64 k \<longleftrightarrow> - (2 ^ 63) \<le> k \<and> k < 2 ^ 63"

definition wrap64 :: "int \<Rightarrow> int" where
  "wrap64 k = signed_take_bit 63 k"

abbreviation (input) MaxInt64 :: int where
  "MaxInt64 \<equiv> 2 ^ 63 - 1"

abbreviation (input) Nanosecond :: duration where "Nanosecond \<equiv> 1"
abbreviation (input) Millisecond :: duration where "Millisecond \<equiv> 1000000"
abbreviation (input) Second :: duration where "Second \<equiv> 1000000000"

definition time_IsZero :: "time \<Rightarrow> bool" where
  "time_IsZero t \<longleftrightarrow> t = 0"

definition time_Add :: "time \<Rightarrow> duration \<Rightarrow> time" where
  "time_Add t d = t + d"

text \<open>The division of integers truncates towards zero. (No divisor of the program is \<open>-1\<close>, the one case that wraps.)\<close>

definition go_div :: "int \<Rightarrow> int \<Rightarrow> int" where
  "go_div a b = sgn a * sgn b * (\<bar>a\<bar> div \<bar>b\<bar>)"

text \<open>\<open>Time.Sub\<close> saturates at the ends of the duration range.\<close>

definition time_Sub :: "time \<Rightarrow> time \<Rightarrow> duration" where
  "time_Sub t u = max (- (2 ^ 63)) (min MaxInt64 (t - u))"

lemma wrap64_int64 [go_arith]: "int64 k \<Longrightarrow> wrap64 k = k"
  by (simp add: int64_def wrap64_def signed_take_bit_int_eq_self)

lemma int64_wrap64 [simp, intro]: "int64 (wrap64 k)"
  using signed_take_bit_int_greater_eq_minus_exp [of 63 k] signed_take_bit_int_less_exp [of 63 k]
  by (simp add: int64_def wrap64_def)

lemma wrap64_wrap64 [simp]: "wrap64 (wrap64 k) = wrap64 k"
  by (simp add: go_arith)

lemma wrap64_mult_left [simp]: "wrap64 (wrap64 k * l) = wrap64 (k * l)"
  by (simp add: wrap64_def) (metis signed_take_bit_mult signed_take_bit_signed_take_bit min.idem)

lemma wrap64_eq_0: "2 ^ 64 dvd k \<Longrightarrow> wrap64 k = 0"
  by (auto simp: wrap64_def signed_take_bit_eq_take_bit_shift take_bit_eq_mod elim!: dvdE)

lemma int64_time_Sub [simp, intro]: "int64 (time_Sub t u)"
  by (simp add: int64_def time_Sub_def)

section \<open>Errors and results\<close>

text \<open>
  An \<open>error\<close> value: a sentinel of the program or of the standard library, an error with a text, or
  an error wrapped by \<open>fmt.Errorf\<close> with the verb \<open>%w\<close>, whose text is the prefix, a colon and the
  text of the wrapped error. \<open>errors.Is\<close> looks through wrappers. A function that returns a value
  and an \<open>error\<close> gives \<open>Inr\<close> of the value or \<open>Inl\<close> of the error; one that only returns an
  \<open>error\<close> gives an option, \<open>None\<close> for \<open>nil\<close>.
\<close>

datatype go_error =
    ErrCustomerNotRegistered
  | ErrConnDone
  | ErrServerClosed
  | Canceled
  | Err string
  | Wrap string go_error

fun error_text :: "go_error \<Rightarrow> string" where
  "error_text ErrCustomerNotRegistered = ''customer not registered''"
| "error_text ErrConnDone = ''sql: connection is already closed''"
| "error_text ErrServerClosed = ''http: Server closed''"
| "error_text Canceled = ''context canceled''"
| "error_text (Err msg) = msg"
| "error_text (Wrap prefix e) = prefix @ '': '' @ error_text e"

fun errors_Is :: "go_error \<Rightarrow> go_error \<Rightarrow> bool" where
  "errors_Is (Wrap prefix e) target \<longleftrightarrow> Wrap prefix e = target \<or> errors_Is e target"
| "errors_Is e target \<longleftrightarrow> e = target"

text \<open>The early return \<open>if err != nil { return ..., err }\<close>.\<close>

definition bind_result :: "('e + 'a) \<Rightarrow> ('a \<Rightarrow> 'e + 'b) \<Rightarrow> 'e + 'b" where
  "bind_result r f = (case r of Inl e \<Rightarrow> Inl e | Inr x \<Rightarrow> f x)"

lemma bind_result_simps [simp]: "bind_result (Inl e) f = Inl e" "bind_result (Inr x) f = f x"
  by (simp_all add: bind_result_def)

lemma bind_result_Inr_iff: "bind_result r f = Inr y \<longleftrightarrow> (\<exists>x. r = Inr x \<and> f x = Inr y)"
  by (cases r) simp_all

lemmas result_splits = sum.splits option.splits prod.splits if_splits

section \<open>Lists\<close>

lemma take_mset_subset: "mset (take n xs) \<subseteq># mset xs"
  by (metis append_take_drop_id mset_append mset_subset_eq_add_left)

lemma rotate_split: "n < length xs \<Longrightarrow> rotate n xs = drop n xs @ take n xs"
  by (simp add: rotate_drop_take)

lemma find_append: "find P (xs @ ys) = (case find P xs of None \<Rightarrow> find P ys | Some x \<Rightarrow> Some x)"
  by (induction xs) auto

lemma find_split:
  assumes "find P xs = Some x"
  obtains ys zs where "xs = ys @ x # zs" and "\<forall>y \<in> set ys. \<not> P y" and "P x"
  using assms
proof (induction xs arbitrary: thesis)
  case Nil
  then show ?case by simp
next
  case (Cons a xs)
  show ?case
  proof (cases "P a")
    case True
    with Cons.prems have "a = x" by simp
    with True Cons.prems(1) [of "[]" xs] show ?thesis by simp
  next
    case False
    with Cons.prems(2) have "find P xs = Some x" by simp
    then obtain ys zs where "xs = ys @ x # zs" "\<forall>y \<in> set ys. \<not> P y" "P x"
      by (rule Cons.IH [rotated]) 
    with False Cons.prems(1) [of "a # ys" zs] show ?thesis by simp
  qed
qed

lemma length_filter_key:
  "distinct (map f xs) \<Longrightarrow> length (filter (\<lambda>x. f x = k) xs) = (if k \<in> f ` set xs then 1 else 0)"
  by (induction xs) (auto simp: filter_empty_conv)

end
