(* ===== verification/Events.thy ===== *)
theory Events
  imports Go_Prelude
begin

text \<open>
  The data the components exchange (\<open>internal/events/models.go\<close> and
  \<open>internal/events/subscriber_event_types.go\<close>): a subscriber event, a delivery job, the result
  of one delivery attempt and a dead-letter message. A field that two structs share in the source
  keeps its name in the first one and is prefixed in the other.
\<close>

record SubscriberEvent =
  EventID :: string
  CustomerID :: string
  SubscriberID :: string
  EventType :: string
  OccurredAt :: time

record DeliveryJob =
  QueueItemID :: go_int
  Event :: SubscriberEvent
  WebhookURL :: string
  Attempt :: go_int
  EnqueuedAt :: time
  LastError :: string
  TraceID :: string

record DeliveryResult =
  ResultJob :: DeliveryJob
  StatusCode :: go_int
  Duration :: duration
  ShouldRetry :: bool
  FailureReason :: string
  ResponseBody :: string
  CompletedAt :: time

record DeadLetterMessage =
  DeadJob :: DeliveryJob
  DeadFailureReason :: string
  ExhaustedAt :: time

definition SubscriberCreatedEventType :: string where
  "SubscriberCreatedEventType = ''subscriber.created''"

definition SubscriberAddedToSegmentEventType :: string where
  "SubscriberAddedToSegmentEventType = ''subscriber.added_to_segment''"

definition SubscriberUnsubscribedEventType :: string where
  "SubscriberUnsubscribedEventType = ''subscriber.unsubscribed''"

definition SupportedSubscriberEventTypes :: "string list" where
  "SupportedSubscriberEventTypes =
    [SubscriberCreatedEventType, SubscriberAddedToSegmentEventType, SubscriberUnsubscribedEventType]"

abbreviation job_customer :: "DeliveryJob \<Rightarrow> string" where
  "job_customer job \<equiv> CustomerID (Event job)"

text \<open>The range of status codes the notifier takes as a delivered webhook.\<close>

abbreviation is_2xx :: "go_int \<Rightarrow> bool" where
  "is_2xx code \<equiv> 200 \<le> code \<and> code < 300"

text \<open>Small concrete values on which the component theories evaluate their definitions.\<close>

definition sample_event :: "string \<Rightarrow> string \<Rightarrow> SubscriberEvent" where
  "sample_event eventID customerID =
    \<lparr>EventID = eventID, CustomerID = customerID, SubscriberID = ''subscriber-1'',
     EventType = SubscriberCreatedEventType, OccurredAt = 1000\<rparr>"

definition sample_job :: "go_int \<Rightarrow> string \<Rightarrow> DeliveryJob" where
  "sample_job queueItemID customerID =
    \<lparr>QueueItemID = queueItemID, Event = sample_event ''event-1'' customerID,
     WebhookURL = ''http://localhost/webhook'', Attempt = 0, EnqueuedAt = 2000,
     LastError = [], TraceID = ''event-1''\<rparr>"

lemma sample_event_fields [simp]:
  "EventID (sample_event e c) = e" "CustomerID (sample_event e c) = c"
  by (simp_all add: sample_event_def)

lemma sample_job_fields [simp]:
  "QueueItemID (sample_job i c) = i" "job_customer (sample_job i c) = c" "Attempt (sample_job i c) = 0"
  by (simp_all add: sample_job_def)

lemma sample_job_inject [simp]: "sample_job i c = sample_job j d \<longleftrightarrow> i = j \<and> c = d"
  by (auto simp: sample_job_def sample_event_def)

end
