(* ===== verification/Scheduler.thy ===== *)
theory Scheduler
  imports Events
begin

text \<open>
  The round-robin scheduler (\<open>internal/scheduler/round_robin.go\<close>): its state, one definition per
  method, the invariant all methods keep, and the equivalence of the index-based dequeue loop with
  a reference that searches the rotated customer order. A Go map entry whose slice was set to
  \<open>nil\<close> stays in the map and is the entry \<open>Some []\<close>. The mutex makes each method one step; the
  blocking \<open>condition.Wait\<close> of \<open>waitForNextJob\<close> is the outcome \<open>WaitBlocked\<close> of one
  round of its loop, to be tried again after a signal. \<open>queuedJobCount\<close> counts slices held in
  memory and the indices are bounded by the number of customers, so neither can reach the end of
  Go's \<open>int\<close> range.
\<close>

section \<open>State and operations\<close>

record RoundRobinScheduler =
  customerQueues :: "string \<rightharpoonup> DeliveryJob list"
  customerOrder :: "string list"
  nextCustomerIndex :: nat
  output_buffer :: "DeliveryJob list"
  output_capacity :: go_int
  output_closed :: bool
  closed :: bool
  queuedJobCount :: go_int

text \<open>
  \<open>make(chan T, n)\<close> panics when \<open>n\<close> is negative or more than the runtime can allocate
  (\<open>max_buffer\<close>); the panic is \<open>None\<close>.
\<close>

definition NewRoundRobinScheduler :: "go_int \<Rightarrow> go_int \<Rightarrow> RoundRobinScheduler option" where
  "NewRoundRobinScheduler max_buffer bufferSize =
    (if bufferSize < 0 \<or> max_buffer < bufferSize then None
     else Some \<lparr>customerQueues = Map.empty, customerOrder = [], nextCustomerIndex = 0,
       output_buffer = [], output_capacity = bufferSize, output_closed = False,
       closed = False, queuedJobCount = 0\<rparr>)"

text \<open>Reading a missing key of a Go map gives the zero value, here the nil slice.\<close>

definition queue_of :: "RoundRobinScheduler \<Rightarrow> string \<Rightarrow> DeliveryJob list" where
  "queue_of s customerID = (case customerQueues s customerID of None \<Rightarrow> [] | Some queue \<Rightarrow> queue)"

definition Enqueue :: "DeliveryJob \<Rightarrow> RoundRobinScheduler \<Rightarrow> RoundRobinScheduler" where
  "Enqueue job s =
    (let customerID = CustomerID (Event job);
         s1 = (if customerQueues s customerID = None
               then s\<lparr>customerOrder := customerOrder s @ [customerID]\<rparr> else s);
         s2 = s1\<lparr>customerQueues := (customerQueues s1)(customerID \<mapsto> queue_of s1 customerID @ [job])\<rparr>
     in s2\<lparr>queuedJobCount := queuedJobCount s2 + 1\<rparr>)"

definition Close :: "RoundRobinScheduler \<Rightarrow> RoundRobinScheduler" where
  "Close s = s\<lparr>closed := True\<rparr>"

definition QueueDepth :: "RoundRobinScheduler \<Rightarrow> go_int" where
  "QueueDepth s = queuedJobCount s"

function dequeue_from ::
  "RoundRobinScheduler \<Rightarrow> nat \<Rightarrow> (DeliveryJob \<times> RoundRobinScheduler) option" where
  "dequeue_from s customerOffset =
    (let customerCount = length (customerOrder s) in
     if customerOffset < customerCount
     then let customerIndex = (nextCustomerIndex s + customerOffset) mod customerCount;
              customerID = customerOrder s ! customerIndex
          in case queue_of s customerID of
               [] \<Rightarrow> dequeue_from s (Suc customerOffset)
             | nextJob # remainingQueue \<Rightarrow>
                 Some (nextJob,
                   s\<lparr>customerQueues := (customerQueues s)(customerID \<mapsto> remainingQueue),
                     nextCustomerIndex := (customerIndex + 1) mod customerCount\<rparr>)
     else None)"
  by pat_completeness auto
termination
  by (relation "measure (\<lambda>(s, customerOffset). length (customerOrder s) - customerOffset)") auto

declare dequeue_from.simps [simp del]

definition dequeueNextJobLocked ::
  "RoundRobinScheduler \<Rightarrow> (DeliveryJob \<times> RoundRobinScheduler) option" where
  "dequeueNextJobLocked s = (if customerOrder s = [] then None else dequeue_from s 0)"

datatype wait_outcome = WaitStopped | WaitBlocked | WaitGot DeliveryJob RoundRobinScheduler

definition waitForNextJob :: "bool \<Rightarrow> RoundRobinScheduler \<Rightarrow> wait_outcome" where
  "waitForNextJob contextDone s =
    (if closed s \<or> contextDone then WaitStopped
     else case dequeueNextJobLocked s of
            None \<Rightarrow> WaitBlocked
          | Some (nextJob, s') \<Rightarrow> WaitGot nextJob (s'\<lparr>queuedJobCount := queuedJobCount s' - 1\<rparr>))"

section \<open>The invariant\<close>

definition queued_jobs :: "RoundRobinScheduler \<Rightarrow> DeliveryJob list" where
  "queued_jobs s = concat (map (queue_of s) (customerOrder s))"

definition sched_inv :: "RoundRobinScheduler \<Rightarrow> bool" where
  "sched_inv s \<longleftrightarrow>
     distinct (customerOrder s) \<and>
     dom (customerQueues s) = set (customerOrder s) \<and>
     (nextCustomerIndex s < length (customerOrder s) \<or> customerOrder s = [] \<and> nextCustomerIndex s = 0) \<and>
     (\<forall>c. \<forall>job \<in> set (queue_of s c). job_customer job = c) \<and>
     queuedJobCount s = int (length (queued_jobs s))"

lemma queue_of_upd [simp]:
  "queue_of (s\<lparr>customerQueues := (customerQueues s)(c \<mapsto> q)\<rparr>) = (queue_of s)(c := q)"
  by (auto simp: queue_of_def fun_eq_iff)

lemma queue_of_frame [simp]:
  "queue_of (s\<lparr>customerOrder := xs\<rparr>) = queue_of s"
  "queue_of (s\<lparr>nextCustomerIndex := i\<rparr>) = queue_of s"
  "queue_of (s\<lparr>queuedJobCount := n\<rparr>) = queue_of s"
  "queue_of (s\<lparr>closed := b\<rparr>) = queue_of s"
  "queue_of (s\<lparr>output_buffer := out\<rparr>) = queue_of s"
  "queue_of (s\<lparr>output_closed := b\<rparr>) = queue_of s"
  by (auto simp: queue_of_def fun_eq_iff)

text \<open>What \<open>Enqueue\<close> does to each field.\<close>

lemma Enqueue_fields [record_steps]:
  "queue_of (Enqueue job s) = (queue_of s)(job_customer job := queue_of s (job_customer job) @ [job])"
  "customerOrder (Enqueue job s) =
    (if customerQueues s (job_customer job) = None then customerOrder s @ [job_customer job]
     else customerOrder s)"
  "dom (customerQueues (Enqueue job s)) = insert (job_customer job) (dom (customerQueues s))"
  "nextCustomerIndex (Enqueue job s) = nextCustomerIndex s"
  "queuedJobCount (Enqueue job s) = queuedJobCount s + 1"
  "output_buffer (Enqueue job s) = output_buffer s"
  "output_capacity (Enqueue job s) = output_capacity s"
  "output_closed (Enqueue job s) = output_closed s"
  "closed (Enqueue job s) = closed s"
  by (auto simp: Enqueue_def Let_def queue_of_def fun_eq_iff split: option.splits if_splits)

lemma queue_of_outside: "sched_inv s \<Longrightarrow> c \<notin> set (customerOrder s) \<Longrightarrow> queue_of s c = []"
  by (auto simp: sched_inv_def queue_of_def split: option.splits)

lemma in_order_iff: "sched_inv s \<Longrightarrow> customerQueues s c = None \<longleftrightarrow> c \<notin> set (customerOrder s)"
  by (auto simp: sched_inv_def)

lemma mset_queued_jobs:
  "sched_inv s \<Longrightarrow> mset (queued_jobs s) = (\<Sum>c \<in> set (customerOrder s). mset (queue_of s c))"
  by (simp add: sched_inv_def queued_jobs_def mset_concat sum_list_distinct_conv_sum_set o_def)


lemma length_queued_jobs:
  "sched_inv s \<Longrightarrow> length (queued_jobs s) = (\<Sum>c \<in> set (customerOrder s). length (queue_of s c))"
  by (simp add: sched_inv_def queued_jobs_def length_concat sum_list_distinct_conv_sum_set o_def)

lemma sched_inv_parts:
  assumes "sched_inv s"
  shows "distinct (customerOrder s)"
    and "dom (customerQueues s) = set (customerOrder s)"
    and "customerOrder s \<noteq> [] \<Longrightarrow> nextCustomerIndex s < length (customerOrder s)"
    and "job \<in> set (queue_of s c) \<Longrightarrow> job_customer job = c"
    and "queuedJobCount s = int (length (queued_jobs s))"
  using assms by (auto simp: sched_inv_def)

lemma sched_inv_New:
  "NewRoundRobinScheduler max_buffer n = Some s \<Longrightarrow> sched_inv s \<and> queued_jobs s = []"
  by (auto simp: NewRoundRobinScheduler_def sched_inv_def queued_jobs_def queue_of_def split: if_splits)

lemma queued_jobs_Enqueue:
  assumes "sched_inv s"
  shows "mset (queued_jobs (Enqueue job s)) = add_mset job (mset (queued_jobs s))"
proof -
  let ?c = "job_customer job" and ?Q = "\<lambda>c. mset (queue_of s c)"
  let ?Q' = "\<lambda>c. mset (queue_of (Enqueue job s) c)"
  have dist: "distinct (customerOrder (Enqueue job s))"
    using sched_inv_parts(1) [OF assms] in_order_iff [OF assms, of ?c] by (simp add: record_steps)
  have set': "set (customerOrder (Enqueue job s)) = insert ?c (set (customerOrder s))"
    using in_order_iff [OF assms, of ?c] by (auto simp: record_steps)
  have "mset (queued_jobs (Enqueue job s)) = (\<Sum>c \<in> insert ?c (set (customerOrder s)). ?Q' c)"
    unfolding set' [symmetric] queued_jobs_def
    by (simp add: mset_concat sum_list_distinct_conv_sum_set dist o_def)
  also have "\<dots> = ?Q' ?c + (\<Sum>c \<in> set (customerOrder s) - {?c}. ?Q' c)"
    by (simp add: sum.insert_remove)
  also have "(\<Sum>c \<in> set (customerOrder s) - {?c}. ?Q' c) = (\<Sum>c \<in> set (customerOrder s) - {?c}. ?Q c)"
    by (rule sum.cong) (auto simp: record_steps)
  also have "?Q' ?c = add_mset job (?Q ?c)" by (simp add: record_steps)
  also have "add_mset job (?Q ?c) + (\<Sum>c \<in> set (customerOrder s) - {?c}. ?Q c)
      = add_mset job (\<Sum>c \<in> set (customerOrder s). ?Q c)"
    using queue_of_outside [OF assms, of ?c]
    by (cases "?c \<in> set (customerOrder s)") (auto simp: sum.remove)
  finally show ?thesis by (simp add: mset_queued_jobs [OF assms])
qed

lemma sched_inv_Enqueue [intro]:
  assumes "sched_inv s"
  shows "sched_inv (Enqueue job s)"
proof -
  have "int (length (queued_jobs (Enqueue job s))) = queuedJobCount s + 1"
    using queued_jobs_Enqueue [OF assms, of job] sched_inv_parts(5) [OF assms]
    by (metis (no_types, lifting) add.commute of_nat_Suc size_add_mset size_mset)
  moreover have "distinct (customerOrder (Enqueue job s))"
    using sched_inv_parts(1) [OF assms] in_order_iff [OF assms] by (simp add: record_steps)
  moreover have "dom (customerQueues (Enqueue job s)) = set (customerOrder (Enqueue job s))"
    using sched_inv_parts(2) [OF assms] in_order_iff [OF assms] by (auto simp: record_steps)
  moreover have "nextCustomerIndex s < length (customerOrder (Enqueue job s))"
    using assms by (auto simp: record_steps sched_inv_def dom_def)
  moreover have "job_customer j = c" if "j \<in> set (queue_of (Enqueue job s) c)" for c j
    using that sched_inv_parts(4) [OF assms] by (auto simp: record_steps split: if_splits)
  ultimately show ?thesis by (simp add: sched_inv_def record_steps(4,5))
qed

lemma sched_inv_Close [intro]: "sched_inv s \<Longrightarrow> sched_inv (Close s)"
  by (simp add: sched_inv_def Close_def queued_jobs_def)

section \<open>The dequeue loop and its reference\<close>

text \<open>
  The reference walks the customer order once, starting at \<open>nextCustomerIndex\<close>, and takes the
  first customer with a job.
\<close>

definition service_order :: "RoundRobinScheduler \<Rightarrow> string list" where
  "service_order s = rotate (nextCustomerIndex s) (customerOrder s)"

definition dequeue_customer :: "RoundRobinScheduler \<Rightarrow> string option" where
  "dequeue_customer s = find (\<lambda>c. queue_of s c \<noteq> []) (service_order s)"

lemma set_service_order [simp]: "set (service_order s) = set (customerOrder s)"
  by (simp add: service_order_def)

lemma length_service_order [simp]: "length (service_order s) = length (customerOrder s)"
  by (simp add: service_order_def)

lemma distinct_service_order: "sched_inv s \<Longrightarrow> distinct (service_order s)"
  by (simp add: service_order_def sched_inv_def)

lemma service_order_nth:
  "k < length (customerOrder s) \<Longrightarrow>
    service_order s ! k = customerOrder s ! ((nextCustomerIndex s + k) mod length (customerOrder s))"
  by (simp add: service_order_def nth_rotate)

text \<open>The state the loop leaves when it takes a job of the customer at offset \<open>k\<close>.\<close>

definition served_at :: "nat \<Rightarrow> RoundRobinScheduler \<Rightarrow> RoundRobinScheduler" where
  "served_at k s =
    (let n = length (customerOrder s); i = (nextCustomerIndex s + k) mod n; c = customerOrder s ! i
     in s\<lparr>customerQueues := (customerQueues s)(c \<mapsto> tl (queue_of s c)),
          nextCustomerIndex := (i + 1) mod n\<rparr>)"

lemma dequeue_from_find:
  "dequeue_from s k =
    (case find (\<lambda>i. queue_of s (service_order s ! i) \<noteq> []) [k..<length (customerOrder s)] of
       None \<Rightarrow> None
     | Some i \<Rightarrow> Some (hd (queue_of s (service_order s ! i)), served_at i s))"
proof (induction s k rule: dequeue_from.induct)
  case (1 s k)
  let ?n = "length (customerOrder s)"
  show ?case
  proof (cases "k < ?n")
    case False
    then show ?thesis by (simp add: dequeue_from.simps [of s k])
  next
    case True
    let ?q = "queue_of s (service_order s ! k)"
    note at_k = service_order_nth [OF True]
    show ?thesis
    proof (cases ?q)
      case Nil
      have "dequeue_from s k = dequeue_from s (Suc k)"
        using True Nil by (simp add: dequeue_from.simps [of s k] at_k)
      also note "1.IH" [OF refl True refl refl Nil [unfolded at_k]]
      finally show ?thesis using True Nil by (simp add: upt_conv_Cons)
    next
      case (Cons job rest)
      then show ?thesis
        using True
        by (simp add: dequeue_from.simps [of s k] upt_conv_Cons at_k served_at_def Let_def)
    qed
  qed
qed


lemma service_order_split:
  assumes "k < length (customerOrder s)"
  shows "service_order s = take k (service_order s) @ service_order s ! k # drop (Suc k) (service_order s)"
  using assms by (simp add: id_take_nth_drop service_order_def)

lemma service_order_served:
  assumes "k < length (customerOrder s)"
  shows "service_order (served_at k s) =
    drop (Suc k) (service_order s) @ take k (service_order s) @ [service_order s ! k]"
proof -
  let ?n = "length (customerOrder s)"
  have "service_order (served_at k s) = rotate ((nextCustomerIndex s + k + 1) mod ?n) (customerOrder s)"
    by (simp add: service_order_def served_at_def Let_def mod_Suc_eq)
  also have "\<dots> = rotate (Suc k) (service_order s)"
    by (simp add: service_order_def rotate_rotate add_ac flip: rotate_conv_mod)
  also have "\<dots> = drop (Suc k) (service_order s) @ take (Suc k) (service_order s)"
  proof (cases "Suc k < ?n")
    case True
    then show ?thesis by (intro rotate_split) (simp add: service_order_def)
  next
    case False
    with assms have "Suc k = ?n" by simp
    then show ?thesis by (simp add: service_order_def)
  qed
  also have "take (Suc k) (service_order s) = take k (service_order s) @ [service_order s ! k]"
    using assms by (simp add: take_Suc_conv_app_nth service_order_def)
  finally show ?thesis .
qed

lemma served_at_fields [record_steps]:
  assumes "k < length (customerOrder s)"
  shows "queue_of (served_at k s) =
      (queue_of s)(service_order s ! k := tl (queue_of s (service_order s ! k)))"
    and "customerOrder (served_at k s) = customerOrder s"
    and "dom (customerQueues (served_at k s)) = insert (service_order s ! k) (dom (customerQueues s))"
    and "nextCustomerIndex (served_at k s) < length (customerOrder s)"
    and "queuedJobCount (served_at k s) = queuedJobCount s"
    and "output_buffer (served_at k s) = output_buffer s"
    and "output_capacity (served_at k s) = output_capacity s"
    and "output_closed (served_at k s) = output_closed s"
    and "closed (served_at k s) = closed s"
  using assms by (auto simp: served_at_def Let_def service_order_nth intro!: mod_less_divisor)

text \<open>
  A successful dequeue: the customers before the chosen one in service order have nothing queued,
  the job is the oldest one of the chosen customer, and that customer goes to the back.
\<close>

lemma dequeue_SomeE:
  assumes inv: "sched_inv s" and deq: "dequeueNextJobLocked s = Some (job, s')"
  obtains ys zs where "service_order s = ys @ job_customer job # zs"
    and "\<forall>y \<in> set ys. queue_of s y = []"
    and "queue_of s (job_customer job) = job # queue_of s' (job_customer job)"
    and "\<forall>c. c \<noteq> job_customer job \<longrightarrow> queue_of s' c = queue_of s c"
    and "service_order s' = zs @ ys @ [job_customer job]"
    and "customerOrder s' = customerOrder s"
    and "queuedJobCount s' = queuedJobCount s" and "closed s' = closed s"
    and "dom (customerQueues s') = dom (customerQueues s)"
    and "nextCustomerIndex s' < length (customerOrder s)"
proof -
  let ?n = "length (customerOrder s)"
  have "dequeue_from s 0 = Some (job, s')"
    using deq by (simp add: dequeueNextJobLocked_def split: if_splits)
  then obtain k where find: "find (\<lambda>i. queue_of s (service_order s ! i) \<noteq> []) [0..<?n] = Some k"
    and job: "job = hd (queue_of s (service_order s ! k))" and s': "s' = served_at k s"
    by (auto simp: dequeue_from_find split: option.splits)
  from find obtain ks ks' where split: "[0..<?n] = ks @ k # ks'"
    and before: "\<forall>i \<in> set ks. queue_of s (service_order s ! i) = []"
    and some: "queue_of s (service_order s ! k) \<noteq> []"
    by (elim find_split) auto
  have k: "k < ?n" using arg_cong [OF split, of set] by auto
  have "[0..<?n] ! length ks = k" by (simp add: split)
  moreover have "length ks < ?n" using arg_cong [OF split, of length] by simp
  ultimately have "length ks = k" by simp
  then have ks: "ks = [0..<k]"
    using arg_cong [OF split, of "take (length ks)"] k by (simp add: take_upt)
  let ?c = "service_order s ! k"
  have c: "job_customer job = ?c"
    using sched_inv_parts(4) [OF inv, of job ?c] some job by simp
  have in_dom: "?c \<in> dom (customerQueues s)"
    using k nth_mem [of k "service_order s"] sched_inv_parts(2) [OF inv] by simp
  show ?thesis
  proof (rule that)
    show "service_order s = take k (service_order s) @ job_customer job # drop (Suc k) (service_order s)"
      unfolding c by (rule service_order_split [OF k])
    show "\<forall>y \<in> set (take k (service_order s)). queue_of s y = []"
      using before k unfolding all_set_conv_all_nth by (auto simp: ks)
    show "queue_of s (job_customer job) = job # queue_of s' (job_customer job)"
      using some job unfolding c s' by (simp add: record_steps k)
    show "service_order s' = drop (Suc k) (service_order s) @ take k (service_order s) @ [job_customer job]"
      unfolding c s' by (rule service_order_served [OF k])
    show "dom (customerQueues s') = dom (customerQueues s)"
      using in_dom by (auto simp: s' record_steps k)
  qed (use k in \<open>simp_all add: s' c record_steps\<close>)
qed

lemma dequeue_None_iff:
  assumes "sched_inv s"
  shows "dequeueNextJobLocked s = None \<longleftrightarrow> queued_jobs s = []"
proof (cases "customerOrder s = []")
  case True
  then show ?thesis by (simp add: dequeueNextJobLocked_def queued_jobs_def)
next
  case False
  have "dequeueNextJobLocked s = None \<longleftrightarrow>
      find (\<lambda>i. queue_of s (service_order s ! i) \<noteq> []) [0..<length (customerOrder s)] = None"
    using False by (simp add: dequeueNextJobLocked_def dequeue_from_find split: option.splits)
  also have "\<dots> \<longleftrightarrow> (\<forall>c \<in> set (service_order s). queue_of s c = [])"
    unfolding all_set_conv_all_nth by (auto simp: find_None_iff)
  also have "\<dots> \<longleftrightarrow> queued_jobs s = []" by (simp add: queued_jobs_def)
  finally show ?thesis .
qed


lemma queued_jobs_dequeue:
  assumes inv: "sched_inv s" and deq: "dequeueNextJobLocked s = Some (job, s')"
  shows "mset (queued_jobs s) = add_mset job (mset (queued_jobs s'))"
proof -
  from inv deq obtain ys zs where order: "service_order s = ys @ job_customer job # zs"
    and head: "queue_of s (job_customer job) = job # queue_of s' (job_customer job)"
    and rest: "\<forall>c. c \<noteq> job_customer job \<longrightarrow> queue_of s' c = queue_of s c"
    and same: "customerOrder s' = customerOrder s"
    by (rule dequeue_SomeE)
  let ?c = "job_customer job" and ?C = "set (customerOrder s)"
  have c: "?c \<in> ?C" using arg_cong [OF order, of set] by auto
  have "mset (queued_jobs s') = (\<Sum>c \<in> ?C. mset (queue_of s' c))"
    using sched_inv_parts(1) [OF inv]
    by (simp add: queued_jobs_def same mset_concat sum_list_distinct_conv_sum_set o_def)
  also have "\<dots> = mset (queue_of s' ?c) + (\<Sum>c \<in> ?C - {?c}. mset (queue_of s c))"
    using c rest by (simp add: sum.remove)
  finally show ?thesis
    using c by (simp add: mset_queued_jobs [OF inv] sum.remove head)
qed

lemma sched_inv_waitForNextJob:
  assumes inv: "sched_inv s" and got: "waitForNextJob contextDone s = WaitGot job s'"
  shows "sched_inv s'" and "mset (queued_jobs s) = add_mset job (mset (queued_jobs s'))"
proof -
  from got obtain t where deq: "dequeueNextJobLocked s = Some (job, t)"
    and s': "s' = t\<lparr>queuedJobCount := queuedJobCount t - 1\<rparr>"
    by (auto simp: waitForNextJob_def split: if_splits option.splits)
  have same: "queued_jobs s' = queued_jobs t" by (simp add: s' queued_jobs_def)
  show jobs: "mset (queued_jobs s) = add_mset job (mset (queued_jobs s'))"
    using queued_jobs_dequeue [OF inv deq] by (simp add: same)
  then have "length (queued_jobs s) = Suc (length (queued_jobs s'))"
    by (metis size_add_mset size_mset)
  moreover from inv deq obtain ys zs where
    "queue_of s (job_customer job) = job # queue_of t (job_customer job)"
    and "\<forall>c. c \<noteq> job_customer job \<longrightarrow> queue_of t c = queue_of s c"
    and "customerOrder t = customerOrder s" and "queuedJobCount t = queuedJobCount s"
    and "dom (customerQueues t) = dom (customerQueues s)"
    and "nextCustomerIndex t < length (customerOrder s)"
    by (rule dequeue_SomeE)
  ultimately show "sched_inv s'"
    using inv unfolding sched_inv_def s' by (auto simp: queued_jobs_def) (metis list.set_intros(2))
qed

text \<open>Channel operations leave the scheduler's queues alone.\<close>

lemma sched_inv_output [simp]:
  "sched_inv (s\<lparr>output_buffer := out\<rparr>) = sched_inv s"
  "sched_inv (s\<lparr>output_closed := b\<rparr>) = sched_inv s"
  by (simp_all add: sched_inv_def queued_jobs_def)

end
