(* ===== verification/Scheduler_Spec.thy ===== *)
theory Scheduler_Spec
  imports Go_Prelude
begin

text \<open>
  The contract between the notifier and its scheduler, as two locales. A \<open>keyed_fifo\<close> keeps one
  first-in-first-out queue per key and yields a job whenever any queue has one; a
  \<open>round_robin\<close> also says which keys are served before a given key, which a dequeue shortens and
  an enqueue extends by new keys only. The clients' lemmas over arbitrary interleavings of enqueues
  and dequeues are proved once here; \<open>Scheduler_Fairness\<close> interprets both locales on the model of
  \<open>RoundRobinScheduler\<close>.
\<close>

datatype 'j sched_op = OpEnqueue 'j | OpDequeue

text \<open>A dequeue that finds nothing blocks: it changes nothing and yields nothing.\<close>

fun run_with ::
  "('j \<Rightarrow> 's \<Rightarrow> 's) \<Rightarrow> ('s \<Rightarrow> ('j \<times> 's) option) \<Rightarrow> 's \<Rightarrow> 'j sched_op list \<Rightarrow> 's \<times> 'j list" where
  "run_with enq deq s [] = (s, [])"
| "run_with enq deq s (OpEnqueue job # ops) = run_with enq deq (enq job s) ops"
| "run_with enq deq s (OpDequeue # ops) =
    (case deq s of
       None \<Rightarrow> run_with enq deq s ops
     | Some (job, s') \<Rightarrow> (let (t, out) = run_with enq deq s' ops in (t, job # out)))"

fun enqueued :: "'j sched_op list \<Rightarrow> 'j list" where
  "enqueued [] = []"
| "enqueued (OpEnqueue job # ops) = job # enqueued ops"
| "enqueued (OpDequeue # ops) = enqueued ops"

lemma enqueued_append [simp]: "enqueued (ops @ ops') = enqueued ops @ enqueued ops'"
  by (induction ops rule: enqueued.induct) auto

lemma enqueued_replicate [simp]: "enqueued (replicate n OpDequeue) = []"
  by (induction n) auto

lemma enqueued_map [simp]: "enqueued (map OpEnqueue js) = js"
  by (induction js) auto

lemma run_enqueues: "run_with enq deq s (map OpEnqueue js @ ops) = run_with enq deq (fold enq js s) ops"
  by (induction js arbitrary: s) auto

lemma run_append:
  assumes "run_with enq deq s ops = (t, out)" and "run_with enq deq t ops' = (u, out')"
  shows "run_with enq deq s (ops @ ops') = (u, out @ out')"
  using assms
proof (induction ops arbitrary: s out)
  case (Cons op ops)
  then show ?case by (cases op) (auto split: option.splits prod.splits)
qed simp

locale keyed_fifo =
  fixes invar :: "'s \<Rightarrow> bool"
    and pending :: "'s \<Rightarrow> 'k \<Rightarrow> 'j list"
    and key :: "'j \<Rightarrow> 'k"
    and enq :: "'j \<Rightarrow> 's \<Rightarrow> 's"
    and deq :: "'s \<Rightarrow> ('j \<times> 's) option"
  assumes invar_enq: "invar s \<Longrightarrow> invar (enq job s)"
    and invar_deq: "invar s \<Longrightarrow> deq s = Some (job, s') \<Longrightarrow> invar s'"
    and pending_enq: "invar s \<Longrightarrow> pending (enq job s) = (pending s)(key job := pending s (key job) @ [job])"
    and pending_deq: "invar s \<Longrightarrow> deq s = Some (job, s') \<Longrightarrow>
          pending s = (pending s')(key job := job # pending s' (key job))"
    and deq_None: "invar s \<Longrightarrow> deq s = None \<Longrightarrow> pending s k = []"
    and pending_key: "invar s \<Longrightarrow> job \<in> set (pending s k) \<Longrightarrow> key job = k"
begin

text \<open>Induction over a run: a blocked dequeue is skipped, the other operations step the state.\<close>

lemma run_induct [consumes 2, case_names Nil Enqueue Blocked Dequeue]:
  assumes "invar s" and "run_with enq deq s ops = (t, out)"
    and nil: "\<And>s. invar s \<Longrightarrow> P s [] s []"
    and enqueue: "\<And>s job ops t out. invar s \<Longrightarrow> invar (enq job s) \<Longrightarrow>
      P (enq job s) ops t out \<Longrightarrow> P s (OpEnqueue job # ops) t out"
    and blocked: "\<And>s ops t out. invar s \<Longrightarrow> deq s = None \<Longrightarrow> P s ops t out \<Longrightarrow> P s (OpDequeue # ops) t out"
    and dequeue: "\<And>s job s' ops t out. invar s \<Longrightarrow> invar s' \<Longrightarrow> deq s = Some (job, s') \<Longrightarrow>
      P s' ops t out \<Longrightarrow> P s (OpDequeue # ops) t (job # out)"
  shows "P s ops t out"
  using assms(1,2)
proof (induction ops arbitrary: s t out)
  case Nil
  then show ?case by (auto intro: nil)
next
  case (Cons op ops)
  show ?case
  proof (cases op)
    case (OpEnqueue job)
    have "P (enq job s) ops t out"
      by (rule Cons.IH) (use Cons.prems OpEnqueue in \<open>auto intro: invar_enq\<close>)
    then show ?thesis unfolding OpEnqueue by (rule enqueue [rotated 2]) (auto intro: Cons.prems invar_enq)
  next
    case OpDequeue
    show ?thesis
    proof (cases "deq s")
      case None
      with Cons OpDequeue show ?thesis by (auto intro: blocked)
    next
      case (Some step)
      then obtain job s' out' where deq: "deq s = Some (job, s')"
        and run: "run_with enq deq s' ops = (t, out')" and out: "out = job # out'"
        using Cons.prems(2) OpDequeue by (cases step) (auto split: prod.splits)
      have "invar s'" using Cons.prems(1) deq by (rule invar_deq)
      then show ?thesis
        unfolding OpDequeue out using Cons.prems(1) deq Cons.IH [OF _ run] by (auto intro: dequeue)
    qed
  qed
qed

lemma run_invar: "invar s \<Longrightarrow> run_with enq deq s ops = (t, out) \<Longrightarrow> invar t"
  by (induction rule: run_induct)

text \<open>Per key nothing is lost, duplicated or reordered.\<close>

lemma run_fifo:
  assumes "invar s" and "run_with enq deq s ops = (t, out)"
  shows "pending s k @ filter (\<lambda>job. key job = k) (enqueued ops)
    = filter (\<lambda>job. key job = k) out @ pending t k"
  using assms
proof (induction rule: run_induct)
  case (Enqueue s job ops t out)
  then show ?case by (auto simp: pending_enq split: if_splits)
next
  case (Dequeue s job s' ops t out)
  then show ?case by (simp add: pending_deq [OF Dequeue(1,3)])
qed simp_all

text \<open>A dequeue yields a job as long as any key has one: the run is work-conserving.\<close>

lemma deq_Some: "invar s \<Longrightarrow> pending s k \<noteq> [] \<Longrightarrow> \<exists>job s'. deq s = Some (job, s')"
  using deq_None [of s k] by (cases "deq s") auto

end

locale round_robin = keyed_fifo +
  fixes known :: "'s \<Rightarrow> 'k set"
    and ahead :: "'s \<Rightarrow> 'k \<Rightarrow> 'k list"
  assumes known_enq: "invar s \<Longrightarrow> known (enq job s) = insert (key job) (known s)"
    and known_deq: "invar s \<Longrightarrow> deq s = Some (job, s') \<Longrightarrow> known s' = known s \<and> key job \<in> known s"
    and finite_known: "invar s \<Longrightarrow> finite (known s)"
    and pending_known: "invar s \<Longrightarrow> pending s k \<noteq> [] \<Longrightarrow> k \<in> known s"
    and ahead_known: "invar s \<Longrightarrow> distinct (ahead s k) \<and> set (ahead s k) \<subseteq> known s - {k}"
    and ahead_enq: "invar s \<Longrightarrow> pending s k \<noteq> [] \<Longrightarrow>
          set (ahead (enq job s) k) \<subseteq> set (ahead s k) \<union> (insert (key job) (known s) - known s)"
    and ahead_deq: "invar s \<Longrightarrow> pending s k \<noteq> [] \<Longrightarrow> deq s = Some (job, s') \<Longrightarrow> key job \<noteq> k \<Longrightarrow>
          \<exists>skipped. ahead s k = skipped @ key job # ahead s' k"
begin

lemma known_mono:
  "invar s \<Longrightarrow> run_with enq deq s ops = (t, out) \<Longrightarrow> known s \<union> key ` set out \<subseteq> known t"
  by (induction rule: run_induct) (auto simp: known_enq dest: known_deq)

lemma run_known:
  "invar s \<Longrightarrow> run_with enq deq s ops = (t, out) \<Longrightarrow> known t = known s \<union> key ` set (enqueued ops)"
  by (induction rule: run_induct) (auto simp: known_enq dest: known_deq)

text \<open>
  While a key waits, each other key is served at most once: the served keys are distinct and come
  from those that were ahead of it or that were not known yet.
\<close>

lemma waiting_key_ahead:
  assumes "invar s" and "run_with enq deq s ops = (t, out)"
    and "pending s k \<noteq> []" and "k \<notin> key ` set out"
  shows "known s \<subseteq> known t \<and> distinct (map key out) \<and>
    key ` set out \<subseteq> set (ahead s k) \<union> (known t - known s)"
  using assms
proof (induction rule: run_induct)
  case (Enqueue s job ops t out)
  have "pending (enq job s) k \<noteq> []"
    using Enqueue.hyps Enqueue.prems by (simp add: pending_enq)
  with Enqueue have "insert (key job) (known s) \<subseteq> known t" "distinct (map key out)"
    "key ` set out \<subseteq> set (ahead (enq job s) k) \<union> (known t - insert (key job) (known s))"
    by (simp_all add: known_enq)
  moreover note ahead_enq [OF Enqueue.hyps(1) Enqueue.prems(1), of job]
  ultimately show ?case by blast
next
  case (Dequeue s job s' ops t out)
  have job: "key job \<noteq> k" using Dequeue.prems by auto
  have same: "pending s' k = pending s k"
    using pending_deq [OF Dequeue.hyps(1,3)] job by simp
  obtain skipped where split: "ahead s k = skipped @ key job # ahead s' k"
    using ahead_deq [OF Dequeue.hyps(1) Dequeue.prems(1) Dequeue.hyps(3) job] by blast
  have "key job \<notin> set (ahead s' k)"
    using ahead_known [OF Dequeue.hyps(1), of k] split by simp
  moreover have "known s' = known s" "key job \<in> known s"
    using known_deq [OF Dequeue.hyps(1,3)] by auto
  moreover have "known s' \<subseteq> known t \<and> distinct (map key out) \<and>
      key ` set out \<subseteq> set (ahead s' k) \<union> (known t - known s')"
    using Dequeue.IH Dequeue.prems same by simp
  ultimately show ?case using split by auto
qed simp_all

text \<open>So a waiting key is served before the number of known keys is reached.\<close>

lemma bounded_wait:
  assumes "invar s" and "run_with enq deq s ops = (t, out)"
    and "pending s k \<noteq> []" and "k \<notin> key ` set out"
  shows "length out < card (known t)"
proof -
  note ahead = waiting_key_ahead [OF assms]
  have "invar t" using assms(1,2) by (rule run_invar)
  have "k \<in> known s" using assms(1,3) by (rule pending_known)
  have "key ` set out \<subseteq> known t - {k}"
    using known_mono [OF assms(1,2)] assms(4) by auto
  then have "card (key ` set out) \<le> card (known t - {k})"
    using finite_known [OF \<open>invar t\<close>] by (intro card_mono) auto
  moreover have "card (key ` set out) = length out"
    using ahead distinct_card [of "map key out"] by simp
  moreover have "card (known t - {k}) < card (known t)"
    using \<open>k \<in> known s\<close> ahead finite_known [OF \<open>invar t\<close>] by (intro card_Diff1_less) auto
  ultimately show ?thesis by simp
qed

text \<open>
  A key with \<open>r\<close> items waiting gets \<open>r\<close> of them served before \<open>r\<close> rounds over the known keys are
  over: the items served before its next one are at most those of the keys ahead of it.
\<close>

lemma fair_share:
  assumes "invar s" and "run_with enq deq s ops = (t, out)"
  shows "known s \<subseteq> known t \<and> finite (known t) \<and>
    (length (filter (\<lambda>job. key job = k) out) < length (pending s k) \<longrightarrow>
      length out \<le> length (filter (\<lambda>job. key job = k) out) * card (known t) +
        card (set (ahead s k) \<union> (known t - known s)))"
  using assms
proof (induction rule: run_induct)
  case (Enqueue s job ops t out)
  have sub: "insert (key job) (known s) \<subseteq> known t" and fin: "finite (known t)"
    using Enqueue.IH known_enq [OF Enqueue.hyps(1), of job] by auto
  show ?case
  proof (intro conjI impI)
    assume served: "length (filter (\<lambda>j. key j = k) out) < length (pending s k)"
    then have k: "pending s k \<noteq> []" by auto
    have "set (ahead (enq job s) k) \<union> (known t - known (enq job s)) \<subseteq> set (ahead s k) \<union> (known t - known s)"
      using ahead_enq [OF Enqueue.hyps(1) k, of job] known_enq [OF Enqueue.hyps(1), of job] sub by auto
    then have "card (set (ahead (enq job s) k) \<union> (known t - known (enq job s))) \<le>
        card (set (ahead s k) \<union> (known t - known s))"
      using fin by (intro card_mono) auto
    moreover have "length (filter (\<lambda>j. key j = k) out) < length (pending (enq job s) k)"
      using served by (auto simp: pending_enq [OF Enqueue.hyps(1)])
    ultimately show "length out \<le> length (filter (\<lambda>j. key j = k) out) * card (known t) +
        card (set (ahead s k) \<union> (known t - known s))"
      using Enqueue.IH by linarith
  qed (use sub fin in auto)
next
  case (Dequeue s job s' ops t out)
  have known: "known s' = known s" and job: "key job \<in> known s"
    using known_deq [OF Dequeue.hyps(1,3)] by auto
  then have sub: "known s \<subseteq> known t" and fin: "finite (known t)" using Dequeue.IH by auto
  have small: "card (set (ahead s' k) \<union> (known t - known s')) <
      (if key job = k then card (known t) else card (set (ahead s k) \<union> (known t - known s)))"
    if k: "pending s k \<noteq> []"
  proof (cases "key job = k")
    case True
    have "k \<in> known s" using Dequeue.hyps(1) k by (rule pending_known)
    then have "set (ahead s' k) \<union> (known t - known s') \<subset> known t"
      using ahead_known [OF Dequeue.hyps(2), of k] known sub by auto
    then show ?thesis using True fin psubset_card_mono by auto
  next
    case False
    obtain skipped where "ahead s k = skipped @ key job # ahead s' k"
      using ahead_deq [OF Dequeue.hyps(1) k Dequeue.hyps(3) False] by blast
    then have "set (ahead s' k) \<union> (known t - known s') \<subset> set (ahead s k) \<union> (known t - known s)"
      using ahead_known [OF Dequeue.hyps(1), of k] known job by auto
    then show ?thesis using False fin by (simp add: psubset_card_mono)
  qed
  show ?case
  proof (intro conjI impI)
    assume served: "length (filter (\<lambda>j. key j = k) (job # out)) < length (pending s k)"
    then have "pending s k \<noteq> []" by auto
    note small = small [OF this]
    have "length (filter (\<lambda>j. key j = k) out) < length (pending s' k)"
      using served pending_deq [OF Dequeue.hyps(1,3)] by (auto split: if_splits)
    then have "length out \<le> length (filter (\<lambda>j. key j = k) out) * card (known t) +
        card (set (ahead s' k) \<union> (known t - known s'))" using Dequeue.IH by blast
    then show "length (job # out) \<le> length (filter (\<lambda>j. key j = k) (job # out)) * card (known t) +
        card (set (ahead s k) \<union> (known t - known s))"
      using small by (auto split: if_splits)
  qed (use sub fin in auto)
qed (auto dest: finite_known)

lemma served_by_rounds:
  assumes "invar s" and "run_with enq deq s ops = (t, out)"
    and "r \<le> length (pending s k)" and "r * card (known t) \<le> length out"
  shows "r \<le> length (filter (\<lambda>job. key job = k) out)"
proof (rule ccontr)
  assume "\<not> r \<le> length (filter (\<lambda>job. key job = k) out)"
  then have less: "length (filter (\<lambda>job. key job = k) out) < r" by simp
  then have "length (filter (\<lambda>job. key job = k) out) < length (pending s k)" using assms(3) by simp
  with fair_share [OF assms(1,2), of k]
  have share: "length out \<le> length (filter (\<lambda>job. key job = k) out) * card (known t) +
      card (set (ahead s k) \<union> (known t - known s))" by blast
  have "pending s k \<noteq> []" using less assms(3) by auto
  then have "k \<in> known s" by (rule pending_known [OF assms(1)])
  have fin: "finite (known t)" using run_invar [OF assms(1,2)] by (rule finite_known)
  have "set (ahead s k) \<union> (known t - known s) \<subseteq> known t - {k}"
    using ahead_known [OF assms(1), of k] known_mono [OF assms(1,2)] \<open>k \<in> known s\<close> by auto
  then have "card (set (ahead s k) \<union> (known t - known s)) < card (known t)"
    using fin known_mono [OF assms(1,2)] \<open>k \<in> known s\<close> by (intro psubset_card_mono) auto
  then have "length out < Suc (length (filter (\<lambda>job. key job = k) out)) * card (known t)"
    using share by simp
  also have "\<dots> \<le> r * card (known t)" using less by (intro mult_le_mono1) simp
  finally show False using assms(4) by simp
qed

end

end
