(* ===== verification/Scheduler_Fairness.thy ===== *)
theory Scheduler_Fairness
  imports Scheduler Scheduler_Spec
begin

text \<open>
  The round-robin scheduler meets its contract: the model of \<open>RoundRobinScheduler\<close> interprets the
  locales of \<open>Scheduler_Spec\<close>, and the fairness properties of the README (a busy customer cannot
  monopolise the workers) follow for every interleaving of \<open>Enqueue\<close> and dequeue.
\<close>

text \<open>One successful round of \<open>waitForNextJob\<close> while neither the scheduler nor the context is closed.\<close>

definition next_job :: "RoundRobinScheduler \<Rightarrow> (DeliveryJob \<times> RoundRobinScheduler) option" where
  "next_job s = (case waitForNextJob False s of WaitGot job s' \<Rightarrow> Some (job, s') | _ \<Rightarrow> None)"

definition ahead_of :: "RoundRobinScheduler \<Rightarrow> string \<Rightarrow> string list" where
  "ahead_of s c = takeWhile (\<lambda>d. d \<noteq> c) (service_order s)"

abbreviation running :: "RoundRobinScheduler \<Rightarrow> bool" where
  "running s \<equiv> sched_inv s \<and> \<not> closed s"

abbreviation run_sched :: "RoundRobinScheduler \<Rightarrow> DeliveryJob sched_op list \<Rightarrow>
    RoundRobinScheduler \<times> DeliveryJob list" where
  "run_sched \<equiv> run_with Enqueue next_job"

lemma next_job_SomeD:
  assumes "next_job s = Some (job, s')"
  obtains t where "dequeueNextJobLocked s = Some (job, t)"
    and "s' = t\<lparr>queuedJobCount := queuedJobCount t - 1\<rparr>"
    and "waitForNextJob False s = WaitGot job s'"
  using assms by (auto simp: next_job_def waitForNextJob_def split: wait_outcome.splits option.splits if_splits)

lemma next_job_step:
  assumes inv: "sched_inv s" and step: "next_job s = Some (job, s')"
  obtains ys zs where "service_order s = ys @ job_customer job # zs"
    and "\<forall>y \<in> set ys. queue_of s y = []"
    and "queue_of s (job_customer job) = job # queue_of s' (job_customer job)"
    and "\<forall>c. c \<noteq> job_customer job \<longrightarrow> queue_of s' c = queue_of s c"
    and "service_order s' = zs @ ys @ [job_customer job]"
    and "customerOrder s' = customerOrder s" and "closed s' = closed s"
proof -
  obtain t where t: "dequeueNextJobLocked s = Some (job, t)"
    and s': "s' = t\<lparr>queuedJobCount := queuedJobCount t - 1\<rparr>"
    using step by (rule next_job_SomeD)
  show ?thesis
    by (rule dequeue_SomeE [OF inv t], rule that) (simp_all add: s' service_order_def)
qed

lemma next_job_None:
  "running s \<Longrightarrow> next_job s = None \<longleftrightarrow> queued_jobs s = []"
  using dequeue_None_iff [of s]
  by (auto simp: next_job_def waitForNextJob_def split: wait_outcome.splits option.splits)

lemma service_order_Enqueue:
  assumes "sched_inv s"
  shows "service_order (Enqueue job s) =
    (if job_customer job \<in> set (customerOrder s) then service_order s
     else drop (nextCustomerIndex s) (customerOrder s) @ job_customer job #
       take (nextCustomerIndex s) (customerOrder s))"
proof (cases "job_customer job \<in> set (customerOrder s)")
  case True
  then show ?thesis
    using in_order_iff [OF assms, of "job_customer job"] by (auto simp: service_order_def record_steps)
next
  case False
  have "nextCustomerIndex s \<le> length (customerOrder s)"
    using assms by (auto simp: sched_inv_def)
  then show ?thesis
    using in_order_iff [OF assms, of "job_customer job"] False
    by (simp add: service_order_def record_steps rotate_split)
qed

lemma service_order_parts:
  assumes "sched_inv s"
  shows "service_order s = drop (nextCustomerIndex s) (customerOrder s) @
    take (nextCustomerIndex s) (customerOrder s)"
  using assms by (auto simp: sched_inv_def service_order_def rotate_split)

lemma set_takeWhile_middle:
  "k \<in> set (xs @ ys) \<Longrightarrow>
    set (takeWhile (\<lambda>d. d \<noteq> k) (xs @ e # ys)) \<subseteq> insert e (set (takeWhile (\<lambda>d. d \<noteq> k) (xs @ ys)))"
  by (cases "k \<in> set xs") (auto simp: takeWhile_append dest: set_takeWhileD)

lemma running_next_job:
  assumes "running s" and step: "next_job s = Some (job, s')"
  shows "running s'"
proof
  show "sched_inv s'"
    using step by (rule next_job_SomeD) (use assms in \<open>auto dest: sched_inv_waitForNextJob(1)\<close>)
  obtain "closed s' = closed s" using assms by (auto elim: next_job_step)
  with assms show "\<not> closed s'" by simp
qed

lemma ahead_of_Enqueue:
  assumes "sched_inv s" and "c \<in> set (customerOrder s)"
  shows "set (ahead_of (Enqueue job s) c) \<subseteq>
    set (ahead_of s c) \<union> (insert (job_customer job) (set (customerOrder s)) - set (customerOrder s))"
proof (cases "job_customer job \<in> set (customerOrder s)")
  case True
  then show ?thesis by (simp add: ahead_of_def service_order_Enqueue assms)
next
  case False
  have "c \<in> set (service_order s)" using assms by simp
  then show ?thesis
    using False assms(1) set_takeWhile_middle [of c _ _ "job_customer job"]
    by (auto simp: ahead_of_def service_order_Enqueue service_order_parts)
qed

lemma ahead_of_next_job:
  assumes "sched_inv s" and "next_job s = Some (job, s')" and "queue_of s c \<noteq> []" and "job_customer job \<noteq> c"
  shows "\<exists>skipped. ahead_of s c = skipped @ job_customer job # ahead_of s' c"
proof -
  from assms(1,2) obtain ys zs where order: "service_order s = ys @ job_customer job # zs"
    and empty: "\<forall>y \<in> set ys. queue_of s y = []"
    and order': "service_order s' = zs @ ys @ [job_customer job]"
    by (rule next_job_step)
  have "c \<in> set (service_order s)" using queue_of_outside [OF assms(1), of c] assms(3) by auto
  moreover have "c \<notin> set ys" using empty assms(3) by auto
  ultimately have "c \<in> set zs" using order assms(4) by auto
  then have "ahead_of s' c = takeWhile (\<lambda>d. d \<noteq> c) zs"
    by (simp add: ahead_of_def order' takeWhile_append1 [of c])
  moreover have "ahead_of s c = ys @ job_customer job # takeWhile (\<lambda>d. d \<noteq> c) zs"
    using \<open>c \<notin> set ys\<close> assms(4) by (auto simp: ahead_of_def order takeWhile_append)
  ultimately show ?thesis by simp
qed

interpretation rr: round_robin running queue_of job_customer Enqueue next_job
  "\<lambda>s. set (customerOrder s)" ahead_of
proof (unfold_locales, goal_cases)
  case (1 s job)
  then show ?case by (auto simp: record_steps)
next
  case (2 s job s')
  then show ?case by (rule running_next_job)
next
  case (3 s job)
  then show ?case by (simp add: record_steps)
next
  case (4 s job s')
  then show ?case by (auto simp: fun_eq_iff elim: next_job_step)
next
  case (5 s k)
  then have "\<forall>c \<in> set (customerOrder s). queue_of s c = []"
    by (simp add: next_job_None queued_jobs_def)
  then show ?case using 5 queue_of_outside [of s k] by blast
next
  case (6 s job k)
  then show ?case using sched_inv_parts(4) [of s job k] by simp
next
  case (7 s job)
  then show ?case using in_order_iff [of s "job_customer job"] by (auto simp: record_steps)
next
  case (8 s job s')
  then obtain ys zs where "service_order s = ys @ job_customer job # zs"
    and same: "customerOrder s' = customerOrder s"
    by (auto elim: next_job_step)
  then have "job_customer job \<in> set (service_order s)" by simp
  then show ?case by (simp add: same)
next
  case (9 s)
  then show ?case by simp
next
  case (10 s k)
  then show ?case using queue_of_outside [of s k] by blast
next
  case (11 s k)
  then show ?case
    using distinct_service_order [of s] by (auto simp: ahead_of_def dest: set_takeWhileD)
next
  case (12 s k job)
  then show ?case using queue_of_outside [of s k] ahead_of_Enqueue by blast
next
  case (13 s k job s')
  then show ?case using ahead_of_next_job by blast
qed


lemma run_sched_conserves:
  assumes "running s" and "run_sched s ops = (t, out)"
  shows "mset (queued_jobs s) + mset (enqueued ops) = mset out + mset (queued_jobs t)"
  using assms
proof (induction rule: rr.run_induct)
  case (Enqueue s job ops t out)
  then show ?case using queued_jobs_Enqueue [of s job] by simp
next
  case (Dequeue s job s' ops t out)
  have "mset (queued_jobs s) = add_mset job (mset (queued_jobs s'))"
    using Dequeue.hyps by (auto elim!: next_job_SomeD dest: sched_inv_waitForNextJob(2))
  with Dequeue.IH show ?case by simp
qed simp_all

lemma run_sched_depth:
  assumes "running s" and "run_sched s ops = (t, out)"
  shows "QueueDepth t + int (length out) = QueueDepth s + int (length (enqueued ops))"
proof -
  have "length (queued_jobs s) + length (enqueued ops) = length out + length (queued_jobs t)"
    using arg_cong [OF run_sched_conserves [OF assms], of size] by simp
  moreover have "sched_inv t" using rr.run_invar [OF assms] by simp
  ultimately show ?thesis
    using assms(1) sched_inv_parts(5) [of s] sched_inv_parts(5) [of t] by (simp add: QueueDepth_def)
qed

text \<open>Draining: with nothing new arriving, as many dequeues as queued jobs empty the scheduler.\<close>

lemma drain:
  assumes "running s" and "length (queued_jobs s) \<le> n" and "run_sched s (replicate n OpDequeue) = (t, out)"
  shows "queued_jobs t = []"
  using assms
proof (induction n arbitrary: s t out)
  case 0
  then show ?case by simp
next
  case (Suc n)
  show ?case
  proof (cases "next_job s")
    case None
    then have "queued_jobs s = []" using Suc.prems(1) by (simp add: next_job_None)
    moreover have "run_sched s (replicate n OpDequeue) = (t, out)" using Suc.prems(3) None by simp
    ultimately show ?thesis using Suc by simp
  next
    case (Some step)
    then obtain job s' out' where nxt: "next_job s = Some (job, s')"
      and run: "run_sched s' (replicate n OpDequeue) = (t, out')"
      using Suc.prems(3) by (cases step) (auto split: prod.splits)
    have "mset (queued_jobs s) = add_mset job (mset (queued_jobs s'))"
      using nxt Suc.prems(1) by (auto elim!: next_job_SomeD dest: sched_inv_waitForNextJob(2))
    then have "length (queued_jobs s) = Suc (length (queued_jobs s'))"
      by (metis size_add_mset size_mset)
    then show ?thesis
      using Suc.IH [OF running_next_job [OF Suc.prems(1) nxt] _ run] Suc.prems(2) by simp
  qed
qed

lemma run_empty: "running s \<Longrightarrow> queued_jobs s = [] \<Longrightarrow> run_sched s (replicate k OpDequeue) = (s, [])"
proof (induction k)
  case (Suc k)
  have "next_job s = None" using Suc.prems by (simp add: next_job_None)
  then show ?case using Suc by simp
qed simp

lemma dequeues_or_empty:
  assumes "running s" and "run_sched s (replicate k OpDequeue) = (t, out)"
  shows "length out = k \<or> queued_jobs t = []"
  using assms
proof (induction k arbitrary: s t out)
  case (Suc k)
  show ?case
  proof (cases "next_job s")
    case None
    then have "queued_jobs s = []" using Suc.prems(1) by (simp add: next_job_None)
    then show ?thesis using Suc.prems run_empty [of s "Suc k"] by simp
  next
    case (Some step)
    then obtain job s' out' where nxt: "next_job s = Some (job, s')" and out: "out = job # out'"
      and run: "run_sched s' (replicate k OpDequeue) = (t, out')"
      using Suc.prems(2) by (cases step) (auto split: prod.splits)
    show ?thesis using Suc.IH [OF running_next_job [OF Suc.prems(1) nxt] run] out by auto
  qed
qed simp

text \<open>
  Jobs all enqueued in an empty scheduler and then dequeued: a customer with \<open>n\<close> jobs has them all
  after \<open>n\<close> rounds over the customers.
\<close>

lemma served_after_enqueues:
  assumes new: "NewRoundRobinScheduler max_buffer bufferSize = Some s0"
    and run: "run_sched s0 (map OpEnqueue js @ replicate k OpDequeue) = (t, out)"
    and enough: "length (filter (\<lambda>job. job_customer job = c) js) * card (job_customer ` set js) \<le> k"
  shows "filter (\<lambda>job. job_customer job = c) out = filter (\<lambda>job. job_customer job = c) js"
proof -
  let ?s = "fold Enqueue js s0" and ?mine = "filter (\<lambda>job. job_customer job = c)"
  have run0: "running s0" and empty: "queue_of s0 c = []" "customerOrder s0 = []"
    using new sched_inv_New [OF new] by (auto simp: NewRoundRobinScheduler_def queue_of_def split: if_splits)
  have enq: "run_sched s0 (map OpEnqueue js) = (?s, [])" using run_enqueues [of _ _ s0 js "[]"] by simp
  have deq: "run_sched ?s (replicate k OpDequeue) = (t, out)" using run by (simp only: run_enqueues)
  have run1: "running ?s" using rr.run_invar [OF run0 enq] .
  have mine: "queue_of ?s c = ?mine js" using rr.run_fifo [OF run0 enq, of c] empty by simp
  have known: "set (customerOrder t) = job_customer ` set js"
    using rr.run_known [OF run0 enq] rr.run_known [OF run1 deq] empty by simp
  have fifo: "?mine js = ?mine out @ queue_of t c" using rr.run_fifo [OF run1 deq, of c] mine by simp
  have "queue_of t c = []"
  proof (cases "queued_jobs t = []")
    case True
    have "running t" using rr.run_invar [OF run1 deq] .
    then have "next_job t = None" using True by (simp add: next_job_None)
    then show ?thesis by (rule rr.deq_None [OF \<open>running t\<close>])
  next
    case False
    then have "length out = k" using dequeues_or_empty [OF run1 deq] by blast
    then have "length (?mine js) \<le> length (?mine out)"
      using rr.served_by_rounds [OF run1 deq, of "length (?mine js)" c] mine known enough by simp
    then show ?thesis using arg_cong [OF fifo, of length] by simp
  qed
  then show ?thesis using fifo by simp
qed

text \<open>A scheduler with two jobs of a busy customer and one job of a quiet customer.\<close>

definition idle_sched :: RoundRobinScheduler where
  "idle_sched = \<lparr>customerQueues = Map.empty, customerOrder = [], nextCustomerIndex = 0,
     output_buffer = [], output_capacity = 4, output_closed = False, closed = False, queuedJobCount = 0\<rparr>"

definition busy_sched :: RoundRobinScheduler where
  "busy_sched = Enqueue (sample_job 3 ''quiet'') (Enqueue (sample_job 2 ''busy'')
     (Enqueue (sample_job 1 ''busy'') idle_sched))"

lemma idle_sched_New: "NewRoundRobinScheduler 1000 4 = Some idle_sched"
  by (simp add: NewRoundRobinScheduler_def idle_sched_def)

lemma busy_sched_running: "sched_inv busy_sched" "\<not> closed busy_sched"
  using sched_inv_New [OF idle_sched_New] unfolding busy_sched_def
  by (auto simp: record_steps idle_sched_def)

lemmas sched_eval = busy_sched_def idle_sched_def Enqueue_def queue_of_def next_job_def
  waitForNextJob_def dequeueNextJobLocked_def dequeue_from.simps Let_def

lemma busy_sched_run:
  "snd (run_sched busy_sched [OpDequeue, OpEnqueue (sample_job 4 ''busy''), OpDequeue, OpDequeue]) =
     [sample_job 1 ''busy'', sample_job 3 ''quiet'', sample_job 2 ''busy'']"
  by (simp add: sched_eval)

section \<open>Properties\<close>

text \<open>
  C14. Fairness: while a customer with a queued job waits, every other customer is served at most
  once, whatever is enqueued meanwhile, new customers included; and the customers served are those
  that were ahead of it in the rotation or that were unknown to the scheduler when the wait began.
\<close>

theorem no_customer_served_twice_while_another_waits:
  assumes "sched_inv s" and "\<not> closed s" and "queue_of s c \<noteq> []"
    and "run_sched s ops = (t, out)" and "c \<notin> job_customer ` set out"
  shows "distinct (map job_customer out)
    \<and> job_customer ` set out \<subseteq> set (ahead_of s c) \<union> (set (customerOrder t) - set (customerOrder s))"
  using rr.waiting_key_ahead [OF _ assms(4,3,5)] assms(1,2) by simp

theorem no_customer_served_twice_while_another_waits_witness:
  "distinct (map job_customer (snd (run_sched busy_sched [OpDequeue, OpEnqueue (sample_job 4 ''new'')])))
   \<and> queue_of busy_sched ''quiet'' = [sample_job 3 ''quiet'']"
  using no_customer_served_twice_while_another_waits
    [OF busy_sched_running, of "''quiet''" "[OpDequeue, OpEnqueue (sample_job 4 ''new'')]"]
  by (simp add: sched_eval)

text \<open>
  C15. A fair share: of the jobs a customer has queued, \<open>r\<close> are handed out by the time \<open>r\<close> times as
  many jobs were dequeued as the scheduler knows customers, however much the other customers have
  queued before or enqueue meanwhile. (With \<open>r = 1\<close>: a waiting customer is served within one round.)
\<close>

theorem customer_gets_its_share:
  assumes "sched_inv s" and "\<not> closed s" and "r \<le> length (queue_of s c)"
    and "run_sched s ops = (t, out)" and "r * length (customerOrder t) \<le> length out"
  shows "r \<le> length (filter (\<lambda>job. job_customer job = c) out)"
proof (rule rr.served_by_rounds [OF _ assms(4,3)])
  have "r * card (set (customerOrder t)) \<le> r * length (customerOrder t)"
    using card_length by (rule mult_le_mono2)
  from this assms(5) show "r * card (set (customerOrder t)) \<le> length out" by (rule order_trans)
qed (use assms(1,2) in simp)

theorem customer_gets_its_share_witness:
  "2 \<le> length (filter (\<lambda>job. job_customer job = ''busy'')
     (snd (run_sched busy_sched [OpDequeue, OpEnqueue (sample_job 4 ''quiet''), OpDequeue, OpDequeue, OpDequeue])))"
  using customer_gets_its_share [OF busy_sched_running, of 2 "''busy''"
      "[OpDequeue, OpEnqueue (sample_job 4 ''quiet''), OpDequeue, OpDequeue, OpDequeue]"]
  by (simp add: sched_eval)

text \<open>
  C16. No job is lost, duplicated or reordered within a customer: per customer, what was queued
  followed by what was enqueued is what was dequeued followed by what is left.
\<close>

theorem scheduler_fifo_per_customer:
  assumes "sched_inv s" and "\<not> closed s" and "run_sched s ops = (t, out)"
  shows "queue_of s c @ filter (\<lambda>job. job_customer job = c) (enqueued ops)
    = filter (\<lambda>job. job_customer job = c) out @ queue_of t c"
  using assms by (intro rr.run_fifo) auto

theorem scheduler_fifo_per_customer_witness:
  "queue_of (fst (run_sched busy_sched [OpDequeue, OpEnqueue (sample_job 4 ''busy'')])) ''busy''
    = [sample_job 2 ''busy'', sample_job 4 ''busy'']"
  using scheduler_fifo_per_customer
    [OF busy_sched_running, of "[OpDequeue, OpEnqueue (sample_job 4 ''busy'')]" _ _ "''busy''"]
  by (simp add: sched_eval)

text \<open>
  C18. From a new scheduler every run keeps the invariant that relates the map, the order, the
  cursor and the counter; \<open>QueueDepth\<close> is the number of jobs enqueued and not yet handed out, and
  as many further dequeues as that empty the scheduler.
\<close>

theorem scheduler_reachable_invariant:
  assumes "NewRoundRobinScheduler max_buffer bufferSize = Some s0"
    and "run_sched s0 ops = (s, out)"
  shows "sched_inv s \<and> QueueDepth s = int (length (enqueued ops)) - int (length out)
    \<and> queued_jobs (fst (run_sched s (replicate (nat (QueueDepth s)) OpDequeue))) = []"
proof -
  have run0: "running s0" and zero: "QueueDepth s0 = 0"
    using assms(1) sched_inv_New [of max_buffer bufferSize s0]
    by (auto simp: NewRoundRobinScheduler_def QueueDepth_def split: if_splits)
  have run: "running s" using rr.run_invar [OF run0 assms(2)] .
  moreover have "QueueDepth s = int (length (enqueued ops)) - int (length out)"
    using run_sched_depth [OF run0 assms(2)] zero by simp
  moreover have "length (queued_jobs s) \<le> nat (QueueDepth s)"
    using run sched_inv_parts(5) [of s] by (simp add: QueueDepth_def)
  then have "queued_jobs (fst (run_sched s (replicate (nat (QueueDepth s)) OpDequeue))) = []"
    using drain [OF run] by (metis prod.collapse)
  ultimately show ?thesis by simp
qed

theorem scheduler_reachable_invariant_witness:
  "QueueDepth (fst (run_sched idle_sched
     [OpEnqueue (sample_job 1 ''a''), OpEnqueue (sample_job 2 ''b''), OpDequeue])) = 1"
  using scheduler_reachable_invariant
    [OF idle_sched_New, of "[OpEnqueue (sample_job 1 ''a''), OpEnqueue (sample_job 2 ''b''), OpDequeue]"]
  by (simp add: sched_eval)

text \<open>
  C17. The index arithmetic of \<open>dequeueNextJobLocked\<close> implements the reference: the job handed out is
  the oldest job of the first customer with work, searching once round from the cursor, only that
  customer's queue changes, and the search order is rotated so that this customer comes last; it
  finds nothing exactly when no job is queued.
\<close>

theorem dequeue_implements_reference:
  assumes "sched_inv s"
  shows "case dequeueNextJobLocked s of
      None \<Rightarrow> dequeue_customer s = None \<and> queued_jobs s = []
    | Some (job, s') \<Rightarrow>
        dequeue_customer s = Some (job_customer job)
        \<and> queue_of s = (queue_of s')(job_customer job := job # queue_of s' (job_customer job))
        \<and> service_order s' =
            rotate (Suc (length (ahead_of s (job_customer job)))) (service_order s)"
proof (cases "dequeueNextJobLocked s")
  case None
  then have "queued_jobs s = []" using assms by (simp add: dequeue_None_iff)
  moreover from this have "dequeue_customer s = None"
    by (simp add: dequeue_customer_def find_None_iff queued_jobs_def)
  ultimately show ?thesis using None by simp
next
  case (Some step)
  then obtain job s' where deq: "dequeueNextJobLocked s = Some (job, s')" by (cases step) auto
  from assms deq obtain ys zs where order: "service_order s = ys @ job_customer job # zs"
    and empty: "\<forall>y \<in> set ys. queue_of s y = []"
    and head: "queue_of s (job_customer job) = job # queue_of s' (job_customer job)"
    and rest: "\<forall>c. c \<noteq> job_customer job \<longrightarrow> queue_of s' c = queue_of s c"
    and order': "service_order s' = zs @ ys @ [job_customer job]"
    by (rule dequeue_SomeE)
  have "find (\<lambda>c. queue_of s c \<noteq> []) ys = None" using empty by (simp add: find_None_iff)
  then have "dequeue_customer s = Some (job_customer job)"
    by (simp add: dequeue_customer_def order head find_append)
  moreover have "job_customer job \<notin> set ys"
    using distinct_service_order [OF assms] by (simp add: order)
  then have "ahead_of s (job_customer job) = ys"
    by (auto simp: ahead_of_def order takeWhile_append)
  moreover have "rotate (Suc (length ys)) (service_order s) = service_order s'"
    using rotate_append [of "ys @ [job_customer job]" zs] by (simp add: order order')
  ultimately show ?thesis using head rest by (auto simp: deq fun_eq_iff)
qed

theorem dequeue_implements_reference_witness:
  "dequeue_customer busy_sched = Some ''busy''"
  using dequeue_implements_reference [OF busy_sched_running(1)] by (simp add: sched_eval)

end
