(* ===== verification/Contracts.thy ===== *)
theory Contracts
  imports Events
begin

text \<open>
  The interfaces through which the notifier reaches its collaborators
  (\<open>internal/workqueue/contracts.go\<close>, \<open>internal/registration/contracts.go\<close> and
  \<open>internal/notifier/delivery_client.go\<close>). A Go interface is a record of functions; the state behind
  the work queue is the type variable \<open>'q\<close> and is passed explicitly. A \<open>context.Context\<close> argument
  is its \<open>Err()\<close>: \<open>None\<close> while the context is live. The locale \<open>work_queue\<close> states what the
  notifier relies on a queue for, as laws about a view of the queue as a map from queue item ids
  to items, and proves once what every client of such a queue gets.
\<close>

section \<open>Interfaces\<close>

type_synonym go_context = "go_error option"

record QueuedDelivery =
  DeliveryQueueItemID :: go_int
  QueuedJob :: DeliveryJob

record QueueStateSnapshot =
  PendingDeliveryCount :: go_int
  OldestPendingCreatedAt :: time

record 'q Repository =
  repo_EnqueueDeliveries :: "go_context \<Rightarrow> SubscriberEvent \<Rightarrow> string list \<Rightarrow> time \<Rightarrow> 'q \<Rightarrow> (go_error + go_int) \<times> 'q"
  repo_ClaimAvailableDeliveries :: "go_context \<Rightarrow> string \<Rightarrow> go_int \<Rightarrow> time \<Rightarrow> 'q \<Rightarrow> (go_error + QueuedDelivery list) \<times> 'q"
  repo_MarkDelivered :: "go_context \<Rightarrow> go_int \<Rightarrow> time \<Rightarrow> 'q \<Rightarrow> go_error option \<times> 'q"
  repo_MarkRetryPending :: "go_context \<Rightarrow> go_int \<Rightarrow> string \<Rightarrow> time \<Rightarrow> time \<Rightarrow> 'q \<Rightarrow> go_error option \<times> 'q"
  repo_MarkDeadLetter :: "go_context \<Rightarrow> go_int \<Rightarrow> string \<Rightarrow> time \<Rightarrow> 'q \<Rightarrow> go_error option \<times> 'q"
  repo_SnapshotQueueState :: "go_context \<Rightarrow> 'q \<Rightarrow> go_error + QueueStateSnapshot"
  repo_SnapshotDeadLetters :: "go_context \<Rightarrow> 'q \<Rightarrow> go_error + DeadLetterMessage list"

record Registry =
  reg_ResolveWebhookURLs :: "go_context \<Rightarrow> string \<Rightarrow> go_error + string list"
  reg_Snapshot :: "go_context \<Rightarrow> go_error + (string \<rightharpoonup> string list)"

type_synonym deliveryClient = "go_context \<Rightarrow> DeliveryJob \<Rightarrow> DeliveryResult"

section \<open>The contract of a work queue\<close>

text \<open>The four values of the \<open>status\<close> column: \<open>'pending'\<close>, \<open>'claimed'\<close>, \<open>'completed'\<close>, \<open>'dead_lettered'\<close>.\<close>

datatype row_status = Pending | Claimed | Completed | DeadLettered

text \<open>What a queue holds for one id: the job a claim would hand out, its status and its due time.\<close>

record queue_item =
  item_job :: DeliveryJob
  item_status :: row_status
  item_available :: time

text \<open>A call of one of the five operations that change a queue.\<close>

datatype repo_op =
    RepoEnqueue SubscriberEvent "string list" time
  | RepoClaim string go_int time
  | RepoDelivered go_int time
  | RepoRetry go_int string time time
  | RepoDead go_int string time

fun marked_id :: "repo_op \<Rightarrow> go_int option" where
  "marked_id (RepoDelivered i t) = Some i"
| "marked_id (RepoRetry i e t u) = Some i"
| "marked_id (RepoDead i e t) = Some i"
| "marked_id _ = None"

text \<open>A sequence of calls with a live context: the final queue and all deliveries handed out.\<close>

fun run_repo_op :: "'q Repository \<Rightarrow> repo_op \<Rightarrow> 'q \<Rightarrow> QueuedDelivery list \<times> 'q" where
  "run_repo_op repo (RepoEnqueue ev urls t) q = ([], snd (repo_EnqueueDeliveries repo None ev urls t q))"
| "run_repo_op repo (RepoClaim owner limit t) q =
    (case repo_ClaimAvailableDeliveries repo None owner limit t q of
       (Inl _, q') \<Rightarrow> ([], q') | (Inr ds, q') \<Rightarrow> (ds, q'))"
| "run_repo_op repo (RepoDelivered i t) q = ([], snd (repo_MarkDelivered repo None i t q))"
| "run_repo_op repo (RepoRetry i e t u) q = ([], snd (repo_MarkRetryPending repo None i e t u q))"
| "run_repo_op repo (RepoDead i e t) q = ([], snd (repo_MarkDeadLetter repo None i e t q))"

fun run_repo :: "'q Repository \<Rightarrow> repo_op list \<Rightarrow> 'q \<Rightarrow> QueuedDelivery list \<times> 'q" where
  "run_repo repo [] q = ([], q)"
| "run_repo repo (op # ops) q =
    (let (ds, q1) = run_repo_op repo op q; (ds', q2) = run_repo repo ops q1 in (ds @ ds', q2))"

abbreviation handed_ids :: "QueuedDelivery list \<Rightarrow> go_int list" where
  "handed_ids ds \<equiv> map DeliveryQueueItemID ds"

fun is_retry :: "repo_op \<Rightarrow> bool" where
  "is_retry (RepoRetry i e t u) = True"
| "is_retry _ = False"

text \<open>
  The laws: \<open>stamp\<close> is the precision at which the queue keeps instants, \<open>bump\<close> is
  how it counts a retry, \<open>None\<close> when it refuses to. An enqueue adds pending items under new ids and leaves the
  others alone; a claim hands out items that were pending and due, marks them claimed, and stops
  short of its limit only when nothing else is due; a mark changes its own item only.
\<close>

locale work_queue =
  fixes repo :: "'q Repository"
    and invar :: "'q \<Rightarrow> bool"
    and view :: "'q \<Rightarrow> go_int \<Rightarrow> queue_item option"
    and stamp :: "time \<Rightarrow> time"
    and bump :: "go_int \<Rightarrow> go_int option"
  assumes invar_op: "invar q \<Longrightarrow> invar (snd (run_repo_op repo op q))"
    and enqueue_result: "invar q \<Longrightarrow> repo_EnqueueDeliveries repo None ev urls t q = (res, q') \<Longrightarrow>
      res = Inr (int (length urls)) \<and> (\<exists>ids. distinct ids \<and> length ids = length urls \<and>
        (\<forall>i \<in> set ids. view q i = None) \<and>
        (\<forall>i. i \<notin> set ids \<longrightarrow> view q' i = view q i) \<and>
        (\<forall>k < length urls. \<exists>it. view q' (ids ! k) = Some it \<and> item_status it = Pending \<and>
           item_available it = stamp t \<and> QueueItemID (item_job it) = ids ! k \<and>
           Event (item_job it) = ev\<lparr>OccurredAt := stamp (OccurredAt ev)\<rparr> \<and>
           WebhookURL (item_job it) = urls ! k \<and> Attempt (item_job it) = 0))"
    and claim_error: "invar q \<Longrightarrow> repo_ClaimAvailableDeliveries repo None owner limit t q = (Inl e, q') \<Longrightarrow>
      limit < 0 \<and> view q' = view q"
    and claim_view: "invar q \<Longrightarrow> repo_ClaimAvailableDeliveries repo None owner limit t q = (Inr ds, q') \<Longrightarrow>
      view q' i = (if i \<in> set (handed_ids ds)
        then map_option (\<lambda>it. it\<lparr>item_status := Claimed\<rparr>) (view q i) else view q i)"
    and claim_items: "invar q \<Longrightarrow> repo_ClaimAvailableDeliveries repo None owner limit t q = (Inr ds, q') \<Longrightarrow>
      distinct (handed_ids ds) \<and> (\<forall>d \<in> set ds. \<exists>it. view q (DeliveryQueueItemID d) = Some it \<and>
        item_status it = Pending \<and> item_available it \<le> stamp t \<and> QueuedJob d = item_job it)"
    and claim_limit: "invar q \<Longrightarrow> repo_ClaimAvailableDeliveries repo None owner limit t q = (Inr ds, q') \<Longrightarrow>
      0 < limit \<Longrightarrow> int (length ds) \<le> limit \<and> (int (length ds) < limit \<longrightarrow>
        (\<forall>i it. view q i = Some it \<and> item_status it = Pending \<and> item_available it \<le> stamp t \<longrightarrow>
           i \<in> set (handed_ids ds)))"
    and delivered_view: "invar q \<Longrightarrow> view (snd (repo_MarkDelivered repo None i t q)) =
      (view q)(i := map_option (\<lambda>it. it\<lparr>item_status := Completed\<rparr>) (view q i))"
    and retry_view: "invar q \<Longrightarrow> view (snd (repo_MarkRetryPending repo None i msg t u q)) =
      (view q)(i := map_option (\<lambda>it. case bump (Attempt (item_job it)) of None \<Rightarrow> it
        | Some n \<Rightarrow> it\<lparr>item_status := Pending, item_available := stamp t,
               item_job := (item_job it)\<lparr>Attempt := n, LastError := msg\<rparr>\<rparr>) (view q i))"
    and dead_view: "invar q \<Longrightarrow> view (snd (repo_MarkDeadLetter repo None i msg t q)) =
      (view q)(i := map_option (\<lambda>it. it\<lparr>item_status := DeadLettered,
               item_job := (item_job it)\<lparr>LastError := msg\<rparr>\<rparr>) (view q i))"
begin

lemma enqueue_old:
  assumes "invar q" and "view q i = Some it"
  shows "view (snd (repo_EnqueueDeliveries repo None ev urls t q)) i = Some it"
proof -
  obtain res q' where call: "repo_EnqueueDeliveries repo None ev urls t q = (res, q')" by fastforce
  from enqueue_result [OF assms(1) call] obtain ids where
    "\<forall>i \<in> set ids. view q i = None" and "\<forall>i. i \<notin> set ids \<longrightarrow> view q' i = view q i" by blast
  then show ?thesis using assms(2) by (cases "i \<in> set ids") (auto simp: call)
qed

text \<open>An item that is not pending keeps its entry under every call that does not mark it.\<close>

lemma unmarked_op:
  assumes "invar q" and "view q i = Some it" and "item_status it \<noteq> Pending" and "marked_id op \<noteq> Some i"
    and "run_repo_op repo op q = (ds, q')"
  shows "view q' i = Some it \<and> i \<notin> set (handed_ids ds)"
proof (cases op)
  case (RepoEnqueue ev urls t)
  then show ?thesis using assms enqueue_old [OF assms(1,2)] by auto
next
  case (RepoClaim owner limit t)
  obtain res q1 where call: "repo_ClaimAvailableDeliveries repo None owner limit t q = (res, q1)"
    by fastforce
  show ?thesis
  proof (cases res)
    case (Inl e)
    then show ?thesis using claim_error [OF assms(1)] call assms RepoClaim by auto
  next
    case (Inr ds')
    have "i \<notin> set (handed_ids ds')"
      using claim_items [OF assms(1) call [unfolded Inr]] assms(2,3) by fastforce
    then show ?thesis
      using claim_view [OF assms(1) call [unfolded Inr], of i] assms RepoClaim call Inr by auto
  qed
qed (use assms in \<open>auto simp: delivered_view retry_view dead_view\<close>)

lemma run_repo_invar: "invar q \<Longrightarrow> invar (snd (run_repo repo ops q))"
proof (induction ops arbitrary: q)
  case (Cons op ops)
  then show ?case using Cons.IH [OF invar_op [OF Cons.prems, of op]] by (simp add: split_def Let_def)
qed simp

lemma unmarked_run:
  assumes "invar q" and "view q i = Some it" and "item_status it \<noteq> Pending"
    and "\<forall>op \<in> set ops. marked_id op \<noteq> Some i" and "run_repo repo ops q = (ds, q')"
  shows "view q' i = Some it \<and> i \<notin> set (handed_ids ds)"
  using assms
proof (induction ops arbitrary: q ds)
  case (Cons op ops)
  obtain ds1 q1 where op: "run_repo_op repo op q = (ds1, q1)" by fastforce
  have "invar q1" using invar_op [OF Cons.prems(1), of op] by (simp add: op)
  moreover have "view q1 i = Some it \<and> i \<notin> set (handed_ids ds1)"
    using unmarked_op [OF Cons.prems(1-3) _ op] Cons.prems(4) by simp
  ultimately show ?case
    using Cons.IH [of q1] Cons.prems(3-5) by (auto simp: op split: prod.splits)
qed simp

text \<open>An item handed out by a claim is claimed afterwards.\<close>

lemma handed_out_op:
  assumes "invar q" and "run_repo_op repo op q = (ds, q')"
  shows "distinct (handed_ids ds) \<and>
    (\<forall>i \<in> set (handed_ids ds). \<exists>it. view q' i = Some it \<and> item_status it = Claimed)"
proof (cases op)
  case (RepoClaim owner limit t)
  obtain res q1 where call: "repo_ClaimAvailableDeliveries repo None owner limit t q = (res, q1)"
    by fastforce
  show ?thesis
  proof (cases res)
    case (Inr ds')
    with RepoClaim call assms(2) have [simp]: "ds' = ds" "q1 = q'" by auto
    note call' = call [unfolded Inr, simplified]
    show ?thesis
      using claim_items [OF assms(1) call'] claim_view [OF assms(1) call'] by fastforce
  qed (use RepoClaim call assms(2) in auto)
qed (use assms(2) in auto)

text \<open>
  Without a retry no id is handed out twice in a whole run: what was handed out is claimed and can
  only become completed or dead-lettered.
\<close>

lemma not_pending_run:
  assumes "invar q" and "view q i = Some it" and "item_status it \<noteq> Pending"
    and "\<forall>op \<in> set ops. \<not> is_retry op" and "run_repo repo ops q = (ds, q')"
  shows "i \<notin> set (handed_ids ds)"
  using assms
proof (induction ops arbitrary: q ds it)
  case (Cons op ops)
  obtain ds1 q1 where op: "run_repo_op repo op q = (ds1, q1)" by fastforce
  obtain ds2 where ds: "ds = ds1 @ ds2" and rest: "run_repo repo ops q1 = (ds2, q')"
    using Cons.prems(5) by (auto simp: op split: prod.splits)
  have q1: "invar q1" using invar_op [OF Cons.prems(1), of op] by (simp add: op)
  have "\<exists>it'. view q1 i = Some it' \<and> item_status it' \<noteq> Pending \<and> i \<notin> set (handed_ids ds1)"
  proof (cases "marked_id op = Some i")
    case True
    then show ?thesis
      using op Cons.prems(1-4) by (cases op) (auto simp: delivered_view dead_view)
  next
    case False
    then show ?thesis using unmarked_op [OF Cons.prems(1-3) False op] Cons.prems(3) by blast
  qed
  then show ?case using Cons.IH [OF q1 _ _ _ rest] Cons.prems(4) by (auto simp: ds)
qed simp

lemma handed_out_once:
  assumes "invar q" and "\<forall>op \<in> set ops. \<not> is_retry op" and "run_repo repo ops q = (ds, q')"
  shows "distinct (handed_ids ds)"
  using assms
proof (induction ops arbitrary: q ds)
  case (Cons op ops)
  obtain ds1 q1 where op: "run_repo_op repo op q = (ds1, q1)" by fastforce
  obtain ds2 where ds: "ds = ds1 @ ds2" and rest: "run_repo repo ops q1 = (ds2, q')"
    using Cons.prems(3) by (auto simp: op split: prod.splits)
  have q1: "invar q1" using invar_op [OF Cons.prems(1), of op] by (simp add: op)
  have "i \<notin> set (handed_ids ds2)" if "i \<in> set (handed_ids ds1)" for i
  proof -
    obtain it where "view q1 i = Some it" "item_status it = Claimed"
      using handed_out_op [OF Cons.prems(1) op] \<open>i \<in> set (handed_ids ds1)\<close> by blast
    then show ?thesis using not_pending_run [OF q1 _ _ _ rest] Cons.prems(2) by auto
  qed
  moreover have "distinct (handed_ids ds2)"
    using Cons.IH [OF q1 _ rest] Cons.prems(2) by simp
  ultimately show ?case
    using handed_out_op [OF Cons.prems(1) op] by (auto simp: ds)
qed simp

end

end
