(* ===== verification/BenchmarkQueue.thy ===== *)
theory BenchmarkQueue
  imports Contracts
begin

text \<open>
  The in-memory queue of the fairness benchmark (\<open>internal/notifier/benchmark_support.go\<close>,
  \<open>benchmarkQueue\<close>). It implements the same interface as the PostgreSQL queue and ignores the
  context. The four status strings are the constructors of \<open>row_status\<close>. The n-th call of
  \<open>time.Now\<close> inside an enqueue is \<open>clock n\<close>. \<open>nextID\<close> is one more than the length of a slice and
  cannot overflow; the retry counter is kept at 64 bits. A run-time panic (a negative capacity)
  is an error of that name.

  The theory interprets the contract \<open>work_queue\<close>, so the notifier sees the same behaviour through
  the interface whichever queue it runs on; where the two differ (limit 0, a mark of an unknown id)
  the laws leave the behaviour open, and the differences are stated as theorems.
\<close>

section \<open>The queue\<close>

record benchmarkQueueItem =
  queueItemID :: go_int
  bench_job :: DeliveryJob
  bench_status :: row_status
  availableAt :: time
  deadLetteredAt :: time

record benchmarkQueue =
  nextID :: go_int
  queueItems :: "benchmarkQueueItem list"

definition newBenchmarkQueue :: benchmarkQueue where
  "newBenchmarkQueue = \<lparr>nextID = 1, queueItems = []\<rparr>"

fun bench_append :: "(nat \<Rightarrow> time) \<Rightarrow> nat \<Rightarrow> SubscriberEvent \<Rightarrow> string list \<Rightarrow> time \<Rightarrow> benchmarkQueue \<Rightarrow> benchmarkQueue" where
  "bench_append clock k subscriberEvent [] available queue = queue"
| "bench_append clock k subscriberEvent (url # urls) available queue =
    bench_append clock (Suc k) subscriberEvent urls available
      (queue\<lparr>queueItems := queueItems queue @
          [\<lparr>queueItemID = nextID queue,
            bench_job = \<lparr>QueueItemID = nextID queue, Event = subscriberEvent, WebhookURL = url,
              Attempt = 0, EnqueuedAt = clock k, LastError = [], TraceID = EventID subscriberEvent\<rparr>,
            bench_status = Pending, availableAt = available, deadLetteredAt = 0\<rparr>],
        nextID := nextID queue + 1\<rparr>)"

definition bench_EnqueueDeliveries :: "(nat \<Rightarrow> time) \<Rightarrow> go_context \<Rightarrow> SubscriberEvent \<Rightarrow> string list \<Rightarrow> time \<Rightarrow>
    benchmarkQueue \<Rightarrow> (go_error + go_int) \<times> benchmarkQueue" where
  "bench_EnqueueDeliveries clock ctx subscriberEvent webhookURLs available queue =
    (Inr (int (length webhookURLs)), bench_append clock 0 subscriberEvent webhookURLs available queue)"

text \<open>The loop of the claim over the sorted items; \<open>n\<close> is the number of deliveries collected so far.\<close>

fun bench_claim :: "go_int \<Rightarrow> time \<Rightarrow> go_int \<Rightarrow> benchmarkQueueItem list \<Rightarrow> QueuedDelivery list \<times> benchmarkQueueItem list" where
  "bench_claim limit claimedAt n [] = ([], [])"
| "bench_claim limit claimedAt n (queueItem # rest) =
    (if bench_status queueItem \<noteq> Pending \<or> availableAt queueItem > claimedAt
     then case bench_claim limit claimedAt n rest of (ds, rest') \<Rightarrow> (ds, queueItem # rest')
     else
       (let d = \<lparr>DeliveryQueueItemID = queueItemID queueItem, QueuedJob = bench_job queueItem\<rparr>;
            queueItem' = queueItem\<lparr>bench_status := Claimed\<rparr>
        in if n + 1 = limit then ([d], queueItem' # rest)
           else case bench_claim limit claimedAt (n + 1) rest of (ds, rest') \<Rightarrow> (d # ds, queueItem' # rest')))"

definition bench_key :: "benchmarkQueueItem \<Rightarrow> time \<times> go_int" where
  "bench_key queueItem = (availableAt queueItem, queueItemID queueItem)"

definition bench_ClaimAvailableDeliveries :: "go_context \<Rightarrow> string \<Rightarrow> go_int \<Rightarrow> time \<Rightarrow> benchmarkQueue \<Rightarrow>
    (go_error + QueuedDelivery list) \<times> benchmarkQueue" where
  "bench_ClaimAvailableDeliveries ctx owner limit claimedAt queue =
    (let sorted_items = sort_key bench_key (queueItems queue)
     in if limit < 0 then (Inl (Err ''panic: makeslice: cap out of range''), queue\<lparr>queueItems := sorted_items\<rparr>)
        else case bench_claim limit claimedAt 0 sorted_items of
          (ds, items) \<Rightarrow> (Inr ds, queue\<lparr>queueItems := items\<rparr>))"

text \<open>The loop of the three marks: the first item with the id is updated, and then the call returns.\<close>

fun bench_update :: "(benchmarkQueueItem \<Rightarrow> benchmarkQueueItem) \<Rightarrow> go_int \<Rightarrow> benchmarkQueueItem list \<Rightarrow> benchmarkQueueItem list" where
  "bench_update update i [] = []"
| "bench_update update i (queueItem # rest) =
    (if queueItemID queueItem = i then update queueItem # rest
     else queueItem # bench_update update i rest)"

definition bench_MarkDelivered :: "go_context \<Rightarrow> go_int \<Rightarrow> time \<Rightarrow> benchmarkQueue \<Rightarrow> go_error option \<times> benchmarkQueue" where
  "bench_MarkDelivered ctx i completedAt queue =
    (None, queue\<lparr>queueItems := bench_update (\<lambda>queueItem. queueItem\<lparr>bench_status := Completed\<rparr>) i (queueItems queue)\<rparr>)"

definition bench_MarkRetryPending :: "go_context \<Rightarrow> go_int \<Rightarrow> string \<Rightarrow> time \<Rightarrow> time \<Rightarrow> benchmarkQueue \<Rightarrow>
    go_error option \<times> benchmarkQueue" where
  "bench_MarkRetryPending ctx i lastError nextAvailableAt updatedAt queue =
    (None, queue\<lparr>queueItems := bench_update (\<lambda>queueItem.
        queueItem\<lparr>bench_status := Pending, availableAt := nextAvailableAt,
          bench_job := (bench_job queueItem)\<lparr>Attempt := wrap64 (Attempt (bench_job queueItem) + 1),
            LastError := lastError\<rparr>\<rparr>) i (queueItems queue)\<rparr>)"

definition bench_MarkDeadLetter :: "go_context \<Rightarrow> go_int \<Rightarrow> string \<Rightarrow> time \<Rightarrow> benchmarkQueue \<Rightarrow>
    go_error option \<times> benchmarkQueue" where
  "bench_MarkDeadLetter ctx i lastError deadAt queue =
    (None, queue\<lparr>queueItems := bench_update (\<lambda>queueItem.
        queueItem\<lparr>bench_status := DeadLettered, bench_job := (bench_job queueItem)\<lparr>LastError := lastError\<rparr>,
          deadLetteredAt := deadAt\<rparr>) i (queueItems queue)\<rparr>)"

fun bench_state :: "QueueStateSnapshot \<Rightarrow> benchmarkQueueItem list \<Rightarrow> QueueStateSnapshot" where
  "bench_state queueState [] = queueState"
| "bench_state queueState (queueItem # rest) =
    (if bench_status queueItem \<noteq> Pending then bench_state queueState rest
     else bench_state
       \<lparr>PendingDeliveryCount = PendingDeliveryCount queueState + 1,
        OldestPendingCreatedAt =
          (if time_IsZero (OldestPendingCreatedAt queueState) \<or>
              EnqueuedAt (bench_job queueItem) < OldestPendingCreatedAt queueState
           then EnqueuedAt (bench_job queueItem) else OldestPendingCreatedAt queueState)\<rparr> rest)"

definition bench_SnapshotQueueState :: "go_context \<Rightarrow> benchmarkQueue \<Rightarrow> go_error + QueueStateSnapshot" where
  "bench_SnapshotQueueState ctx queue =
    Inr (bench_state \<lparr>PendingDeliveryCount = 0, OldestPendingCreatedAt = 0\<rparr> (queueItems queue))"

definition bench_SnapshotDeadLetters :: "go_context \<Rightarrow> benchmarkQueue \<Rightarrow> go_error + DeadLetterMessage list" where
  "bench_SnapshotDeadLetters ctx queue =
    Inr (map (\<lambda>queueItem. \<lparr>DeadJob = bench_job queueItem, DeadFailureReason = LastError (bench_job queueItem),
                           ExhaustedAt = deadLetteredAt queueItem\<rparr>)
      (filter (\<lambda>queueItem. bench_status queueItem = DeadLettered) (queueItems queue)))"

definition benchmarkRepository :: "(nat \<Rightarrow> time) \<Rightarrow> benchmarkQueue Repository" where
  "benchmarkRepository clock =
    \<lparr>repo_EnqueueDeliveries = bench_EnqueueDeliveries clock,
     repo_ClaimAvailableDeliveries = bench_ClaimAvailableDeliveries,
     repo_MarkDelivered = bench_MarkDelivered,
     repo_MarkRetryPending = bench_MarkRetryPending,
     repo_MarkDeadLetter = bench_MarkDeadLetter,
     repo_SnapshotQueueState = bench_SnapshotQueueState,
     repo_SnapshotDeadLetters = bench_SnapshotDeadLetters\<rparr>"

section \<open>Invariant and view\<close>

definition bench_inv :: "benchmarkQueue \<Rightarrow> bool" where
  "bench_inv queue \<longleftrightarrow> distinct (map queueItemID (queueItems queue)) \<and>
     (\<forall>it \<in> set (queueItems queue). queueItemID it < nextID queue)"

definition bench_item :: "benchmarkQueueItem \<Rightarrow> queue_item" where
  "bench_item it = \<lparr>item_job = bench_job it, item_status = bench_status it, item_available = availableAt it\<rparr>"

definition items_view :: "benchmarkQueueItem list \<Rightarrow> go_int \<Rightarrow> queue_item option" where
  "items_view items = map_of (map (\<lambda>it. (queueItemID it, bench_item it)) items)"

abbreviation bench_view :: "benchmarkQueue \<Rightarrow> go_int \<Rightarrow> queue_item option" where
  "bench_view queue \<equiv> items_view (queueItems queue)"

lemma bench_item_fields [simp]:
  "item_job (bench_item it) = bench_job it" "item_status (bench_item it) = bench_status it"
  "item_available (bench_item it) = availableAt it"
  by (simp_all add: bench_item_def)

lemma items_view_simps [simp]:
  "items_view [] = Map.empty"
  "items_view (it # items) = (items_view items)(queueItemID it \<mapsto> bench_item it)"
  by (simp_all add: items_view_def)

lemma items_view_None: "items_view items i = None \<longleftrightarrow> i \<notin> queueItemID ` set items"
  by (auto simp: items_view_def map_of_eq_None_iff image_image)

lemma items_view_Some:
  "distinct (map queueItemID items) \<Longrightarrow>
    items_view items i = Some x \<longleftrightarrow> (\<exists>it \<in> set items. queueItemID it = i \<and> x = bench_item it)"
  by (auto simp: items_view_def map_of_eq_Some_iff o_def)

lemma items_view_append: "items_view (xs @ ys) i = (case items_view xs i of None \<Rightarrow> items_view ys i | Some x \<Rightarrow> Some x)"
  by (induction xs) auto

lemma items_view_mset:
  assumes "distinct (map queueItemID xs)" and "mset xs = mset ys"
  shows "items_view xs = items_view ys"
proof -
  have "mset (map queueItemID xs) = mset (map queueItemID ys)" using assms(2) by simp
  then have "distinct (map queueItemID ys)" using assms(1) mset_eq_imp_distinct_iff by blast
  moreover have "set xs = set ys" by (rule mset_eq_setD [OF assms(2)])
  ultimately show ?thesis
    unfolding items_view_def using assms(1) by (subst map_of_inject_set) (simp_all add: o_def)
qed

lemma bench_update_ids [simp]:
  "(\<And>it. queueItemID (f it) = queueItemID it) \<Longrightarrow> map queueItemID (bench_update f i items) = map queueItemID items"
  by (induction items) auto

lemma bench_update_view:
  assumes "\<And>it. queueItemID (f it) = queueItemID it" and "\<And>it. bench_item (f it) = g (bench_item it)"
  shows "items_view (bench_update f i items) = (items_view items)(i := map_option g (items_view items i))"
  using assms by (induction items) (auto simp: fun_eq_iff)

section \<open>The claim\<close>

lemma bench_claim_ids: "bench_claim limit t n items = (ds, items') \<Longrightarrow> map queueItemID items' = map queueItemID items"
  by (induction limit t n items arbitrary: ds items' rule: bench_claim.induct)
     (auto simp: Let_def split: if_splits prod.splits)

definition claimable :: "time \<Rightarrow> benchmarkQueueItem \<Rightarrow> bool" where
  "claimable t it \<longleftrightarrow> bench_status it = Pending \<and> availableAt it \<le> t"

text \<open>The loop takes the first claimable items, all of them when it starts at or beyond its limit.\<close>

lemma bench_claim_takes:
  "bench_claim limit t n items = (ds, items') \<Longrightarrow>
    ds = map (\<lambda>it. \<lparr>DeliveryQueueItemID = queueItemID it, QueuedJob = bench_job it\<rparr>)
      ((if n < limit then take (nat (limit - n)) else id) (filter (claimable t) items))"
proof (induction limit t n items arbitrary: ds items' rule: bench_claim.induct)
  case (2 limit t n it items)
  show ?case
  proof (cases "claimable t it")
    case False
    then show ?thesis using 2 by (auto simp: claimable_def split: prod.splits)
  next
    case True
    then have *: "\<not> (bench_status it \<noteq> Pending \<or> t < availableAt it)" by (auto simp: claimable_def)
    show ?thesis
    proof (cases "n + 1 = limit")
      case True
      with 2 * \<open>claimable t it\<close> show ?thesis by auto
    next
      case False
      obtain ds1 rest where rec: "bench_claim limit t (n + 1) items = (ds1, rest)" by fastforce
      have "nat (limit - n) = Suc (nat (limit - (n + 1)))" if "n < limit" using that by linarith
      then show ?thesis
        using "2.IH"(2) [OF * refl refl False rec] "2.prems" * False \<open>claimable t it\<close>
        by (auto simp: rec)
    qed
  qed
qed simp

lemma bench_claim_view:
  assumes "bench_claim limit t n items = (ds, items')" and "distinct (map queueItemID items)"
  shows "items_view items' i = (if i \<in> set (handed_ids ds)
    then map_option (\<lambda>it. it\<lparr>item_status := Claimed\<rparr>) (items_view items i) else items_view items i)"
  using assms
proof (induction limit t n items arbitrary: ds items' rule: bench_claim.induct)
  case (2 limit t n it items)
  have fresh: "queueItemID it \<notin> set (handed_ids ds1)" if "bench_claim limit t m items = (ds1, r)" for m ds1 r
    using bench_claim_takes [OF that] "2.prems"(2) by (auto dest: in_set_takeD split: if_splits)
  show ?case
    using 2 fresh by (fastforce simp: Let_def bench_item_def split: if_splits prod.splits)
qed simp

lemma bench_Claim_Inr:
  assumes inv: "bench_inv q" and call: "bench_ClaimAvailableDeliveries ctx owner limit t q = (Inr ds, q')"
  shows "bench_inv q'" and "0 \<le> limit"
    and "ds = map (\<lambda>it. \<lparr>DeliveryQueueItemID = queueItemID it, QueuedJob = bench_job it\<rparr>)
      ((if 0 < limit then take (nat limit) else id)
        (sort_key bench_key (filter (claimable t) (queueItems q))))"
    and "\<And>i. bench_view q' i = (if i \<in> set (handed_ids ds)
      then map_option (\<lambda>it. it\<lparr>item_status := Claimed\<rparr>) (bench_view q i) else bench_view q i)"
proof -
  let ?s = "sort_key bench_key (queueItems q)"
  obtain items where loop: "bench_claim limit t 0 ?s = (ds, items)" and q': "q' = q\<lparr>queueItems := items\<rparr>"
    and "0 \<le> limit"
    using call by (auto simp: bench_ClaimAvailableDeliveries_def Let_def split: if_splits prod.splits)
  have "mset (map queueItemID ?s) = mset (map queueItemID (queueItems q))" by simp
  then have dist: "distinct (map queueItemID ?s)"
    using inv mset_eq_imp_distinct_iff unfolding bench_inv_def by blast
  have ids: "map queueItemID items = map queueItemID ?s" by (rule bench_claim_ids [OF loop])
  then have "queueItemID ` set items = queueItemID ` set (queueItems q)" by (metis set_map set_sort)
  then have "\<forall>it \<in> set items. queueItemID it < nextID q"
    using inv by (metis (no_types, lifting) bench_inv_def image_iff)
  then show "bench_inv q'" using dist ids by (simp add: bench_inv_def q')
  show "0 \<le> limit" by fact
  show "ds = map (\<lambda>it. \<lparr>DeliveryQueueItemID = queueItemID it, QueuedJob = bench_job it\<rparr>)
      ((if 0 < limit then take (nat limit) else id) (sort_key bench_key (filter (claimable t) (queueItems q))))"
    using bench_claim_takes [OF loop] by (simp add: filter_sort)
  show "bench_view q' i = (if i \<in> set (handed_ids ds)
      then map_option (\<lambda>it. it\<lparr>item_status := Claimed\<rparr>) (bench_view q i) else bench_view q i)" for i
    using bench_claim_view [OF loop dist, of i] items_view_mset [OF dist, of "queueItems q"] by (simp add: q')
qed

lemma bench_Claim_Inl:
  "bench_inv q \<Longrightarrow> bench_ClaimAvailableDeliveries ctx owner limit t q = (Inl e, q') \<Longrightarrow>
    limit < 0 \<and> bench_inv q' \<and> bench_view q' = bench_view q"
  using items_view_mset [of "queueItems q" "sort_key bench_key (queueItems q)"]
    mset_eq_imp_distinct_iff [of "map queueItemID (sort_key bench_key (queueItems q))" "map queueItemID (queueItems q)"]
  by (auto simp: bench_ClaimAvailableDeliveries_def bench_inv_def Let_def split: if_splits prod.splits)

section \<open>Enqueue\<close>

definition bench_new :: "(nat \<Rightarrow> time) \<Rightarrow> nat \<Rightarrow> SubscriberEvent \<Rightarrow> time \<Rightarrow> go_int \<Rightarrow> string \<Rightarrow> nat \<Rightarrow> benchmarkQueueItem" where
  "bench_new clock k ev t i url j =
    \<lparr>queueItemID = i + int j,
     bench_job = \<lparr>QueueItemID = i + int j, Event = ev, WebhookURL = url, Attempt = 0,
       EnqueuedAt = clock (k + j), LastError = [], TraceID = EventID ev\<rparr>,
     bench_status = Pending, availableAt = t, deadLetteredAt = 0\<rparr>"

lemma bench_append_items:
  "bench_append clock k ev urls t q =
    q\<lparr>queueItems := queueItems q @ map (\<lambda>j. bench_new clock k ev t (nextID q) (urls ! j) j) [0 ..< length urls],
      nextID := nextID q + int (length urls)\<rparr>"
proof (induction clock k ev urls t q rule: bench_append.induct)
  case (2 clock k ev url urls t q)
  have "bench_new clock (Suc k) ev t (nextID q + 1) u j = bench_new clock k ev t (nextID q) u (Suc j)" for u j
    by (simp add: bench_new_def)
  moreover have "bench_new clock k ev t (nextID q) url 0 =
      \<lparr>queueItemID = nextID q,
       bench_job = \<lparr>QueueItemID = nextID q, Event = ev, WebhookURL = url,
         Attempt = 0, EnqueuedAt = clock k, LastError = [], TraceID = EventID ev\<rparr>,
       bench_status = Pending, availableAt = t, deadLetteredAt = 0\<rparr>"
    by (simp add: bench_new_def)
  ultimately show ?case using 2 by (simp add: map_upt_Suc del: upt_Suc)
qed simp

lemma bench_new_view:
  "items_view (map (\<lambda>j. bench_new clock k ev t i (f j) j) js) (i + int j) =
    (if j \<in> set js then Some (bench_item (bench_new clock k ev t i (f j) j)) else None)"
  by (induction js) (auto simp: bench_new_def)

lemma bench_inv_append: "bench_inv q \<Longrightarrow> bench_inv (bench_append clock k ev urls t q)"
  by (fastforce simp: bench_append_items bench_inv_def bench_new_def distinct_map inj_on_def)

section \<open>Interpretation of the contract\<close>

lemma bench_inv_update:
  assumes "bench_inv q" and "\<And>it. queueItemID (f it) = queueItemID it"
  shows "bench_inv (q\<lparr>queueItems := bench_update f i (queueItems q)\<rparr>)"
proof -
  note ids = bench_update_ids [of f i "queueItems q", OF assms(2)]
  have "queueItemID ` set (bench_update f i (queueItems q)) = queueItemID ` set (queueItems q)"
    using arg_cong [OF ids, of set] by simp
  then have "\<forall>it \<in> set (bench_update f i (queueItems q)). queueItemID it < nextID q"
    using assms(1) by (metis (no_types, lifting) bench_inv_def image_iff)
  then show ?thesis using ids assms(1) by (simp add: bench_inv_def)
qed

lemmas bench_op_defs = benchmarkRepository_def bench_EnqueueDeliveries_def bench_MarkDelivered_def
  bench_MarkRetryPending_def bench_MarkDeadLetter_def

lemma bench_inv_op: "bench_inv q \<Longrightarrow> bench_inv (snd (run_repo_op (benchmarkRepository clock) op q))"
proof (cases op)
  case (RepoClaim owner limit t)
  assume inv: "bench_inv q"
  obtain res q' where "bench_ClaimAvailableDeliveries None owner limit t q = (res, q')" by fastforce
  then show ?thesis
    using bench_Claim_Inr(1) [OF inv] bench_Claim_Inl [OF inv] RepoClaim
    by (cases res) (auto simp: benchmarkRepository_def)
qed (simp_all add: bench_op_defs bench_inv_append bench_inv_update)

lemma bench_claim_call:
  assumes inv: "bench_inv q" and call: "bench_ClaimAvailableDeliveries ctx owner limit t q = (Inr ds, q')"
  shows "distinct (handed_ids ds) \<and> (\<forall>d \<in> set ds. \<exists>it. bench_view q (DeliveryQueueItemID d) = Some it \<and>
      item_status it = Pending \<and> item_available it \<le> t \<and> QueuedJob d = item_job it)"
    and "0 < limit \<Longrightarrow> int (length ds) \<le> limit \<and> (int (length ds) < limit \<longrightarrow>
      (\<forall>i it. bench_view q i = Some it \<and> item_status it = Pending \<and> item_available it \<le> t \<longrightarrow>
         i \<in> set (handed_ids ds)))"
proof -
  let ?due = "filter (claimable t) (queueItems q)"
  let ?s = "(if 0 < limit then take (nat limit) else id) (sort_key bench_key ?due)"
  note claim = bench_Claim_Inr [OF inv call]
  have dist: "distinct (map queueItemID (queueItems q))" using inv by (simp add: bench_inv_def)
  have "mset (map queueItemID (sort_key bench_key ?due)) = mset (map queueItemID ?due)" by simp
  then have "distinct (map queueItemID (sort_key bench_key ?due))"
    using distinct_map_filter [OF dist] mset_eq_imp_distinct_iff by blast
  then have "distinct (map queueItemID ?s)" by (simp add: take_map [symmetric])
  moreover have "handed_ids ds = map queueItemID ?s" by (simp add: claim(3) o_def)
  moreover have "\<exists>it. bench_view q (DeliveryQueueItemID d) = Some it \<and> item_status it = Pending \<and>
      item_available it \<le> t \<and> QueuedJob d = item_job it" if mem: "d \<in> set ds" for d
  proof -
    obtain it where d: "d = \<lparr>DeliveryQueueItemID = queueItemID it, QueuedJob = bench_job it\<rparr>" and "it \<in> set ?s"
      using mem unfolding claim(3) set_map by (rule imageE)
    then have "it \<in> set (queueItems q)" "claimable t it" by (auto dest: in_set_takeD split: if_splits)
    then show ?thesis
      using items_view_Some [OF dist, of "queueItemID it" "bench_item it"]
      by (intro exI [of _ "bench_item it"]) (auto simp: d claimable_def)
  qed
  ultimately show "distinct (handed_ids ds) \<and> (\<forall>d \<in> set ds. \<exists>it. bench_view q (DeliveryQueueItemID d) = Some it \<and>
      item_status it = Pending \<and> item_available it \<le> t \<and> QueuedJob d = item_job it)"
    by simp
  show "int (length ds) \<le> limit \<and> (int (length ds) < limit \<longrightarrow>
      (\<forall>i it. bench_view q i = Some it \<and> item_status it = Pending \<and> item_available it \<le> t \<longrightarrow>
         i \<in> set (handed_ids ds)))" if "0 < limit"
    using that items_view_Some [OF dist] by (auto simp: claim(3) claimable_def image_image min_def)
qed

lemma bench_enqueue_call:
  assumes "bench_inv q" and "repo_EnqueueDeliveries (benchmarkRepository clock) None ev urls t q = (res, q')"
  shows "res = Inr (int (length urls)) \<and> (\<exists>ids. distinct ids \<and> length ids = length urls \<and>
      (\<forall>i \<in> set ids. bench_view q i = None) \<and> (\<forall>i. i \<notin> set ids \<longrightarrow> bench_view q' i = bench_view q i) \<and>
      (\<forall>k < length urls. \<exists>it. bench_view q' (ids ! k) = Some it \<and> item_status it = Pending \<and>
         item_available it = id t \<and> QueueItemID (item_job it) = ids ! k \<and>
         Event (item_job it) = ev\<lparr>OccurredAt := id (OccurredAt ev)\<rparr> \<and>
         WebhookURL (item_job it) = urls ! k \<and> Attempt (item_job it) = 0))"
proof -
  let ?ids = "map (\<lambda>j. nextID q + int j) [0 ..< length urls]"
  have q': "q' = bench_append clock 0 ev urls t q" and res: "res = Inr (int (length urls))"
    using assms(2) by (auto simp: bench_op_defs)
  have "distinct ?ids" by (simp add: distinct_map inj_on_def)
  moreover have "bench_view q i = None" if "i \<in> set ?ids" for i
    using that assms(1) by (auto simp: bench_inv_def items_view_None)
  moreover have "bench_view q' i = bench_view q i" if "i \<notin> set ?ids" for i
  proof -
    have "items_view (map (\<lambda>j. bench_new clock 0 ev t (nextID q) (urls ! j) j) [0 ..< length urls]) i = None"
      using that by (auto simp: items_view_None bench_new_def)
    then show ?thesis by (simp add: q' bench_append_items items_view_append split: option.split)
  qed
  moreover have "bench_view q' (?ids ! k) = Some (bench_item (bench_new clock 0 ev t (nextID q) (urls ! k) k))"
    if "k < length urls" for k
  proof -
    have "bench_view q (?ids ! k) = None" using that assms(1) by (auto simp: bench_inv_def items_view_None)
    then show ?thesis using that by (simp add: q' bench_append_items items_view_append bench_new_view)
  qed
  ultimately show ?thesis
    using res by (intro conjI exI [of _ ?ids]) (auto simp: bench_new_def)
qed

interpretation bench: work_queue "benchmarkRepository clock" bench_inv bench_view id "\<lambda>n. Some (wrap64 (n + 1))"
  for clock
proof unfold_locales
  fix q op
  assume "bench_inv q"
  then show "bench_inv (snd (run_repo_op (benchmarkRepository clock) op q))" by (rule bench_inv_op)
next
  fix q ev urls t res q'
  assume "bench_inv q" and "repo_EnqueueDeliveries (benchmarkRepository clock) None ev urls t q = (res, q')"
  then show "res = Inr (int (length urls)) \<and> (\<exists>ids. distinct ids \<and> length ids = length urls \<and>
      (\<forall>i \<in> set ids. bench_view q i = None) \<and> (\<forall>i. i \<notin> set ids \<longrightarrow> bench_view q' i = bench_view q i) \<and>
      (\<forall>k < length urls. \<exists>it. bench_view q' (ids ! k) = Some it \<and> item_status it = Pending \<and>
         item_available it = id t \<and> QueueItemID (item_job it) = ids ! k \<and>
         Event (item_job it) = ev\<lparr>OccurredAt := id (OccurredAt ev)\<rparr> \<and>
         WebhookURL (item_job it) = urls ! k \<and> Attempt (item_job it) = 0))"
    by (rule bench_enqueue_call)
next
  fix q owner limit t e q'
  assume "bench_inv q" and "repo_ClaimAvailableDeliveries (benchmarkRepository clock) None owner limit t q = (Inl e, q')"
  then show "limit < 0 \<and> bench_view q' = bench_view q"
    using bench_Claim_Inl by (simp add: benchmarkRepository_def)
next
  fix q owner limit t ds q' i
  assume "bench_inv q" and "repo_ClaimAvailableDeliveries (benchmarkRepository clock) None owner limit t q = (Inr ds, q')"
  then show "bench_view q' i = (if i \<in> set (handed_ids ds)
      then map_option (\<lambda>it. it\<lparr>item_status := Claimed\<rparr>) (bench_view q i) else bench_view q i)"
    using bench_Claim_Inr(4) by (simp add: benchmarkRepository_def)
next
  fix q owner limit t ds q'
  assume inv: "bench_inv q"
    and "repo_ClaimAvailableDeliveries (benchmarkRepository clock) None owner limit t q = (Inr ds, q')"
  then have "bench_ClaimAvailableDeliveries None owner limit t q = (Inr ds, q')"
    by (simp add: benchmarkRepository_def)
  note claim = bench_claim_call [OF inv this]
  show "distinct (handed_ids ds) \<and> (\<forall>d \<in> set ds. \<exists>it. bench_view q (DeliveryQueueItemID d) = Some it \<and>
      item_status it = Pending \<and> item_available it \<le> id t \<and> QueuedJob d = item_job it)"
    using claim by simp
  show "int (length ds) \<le> limit \<and> (int (length ds) < limit \<longrightarrow>
      (\<forall>i it. bench_view q i = Some it \<and> item_status it = Pending \<and> item_available it \<le> id t \<longrightarrow>
         i \<in> set (handed_ids ds)))" if "0 < limit"
    using claim that by simp
next
  fix q i t
  show "bench_view (snd (repo_MarkDelivered (benchmarkRepository clock) None i t q)) =
      (bench_view q)(i := map_option (\<lambda>it. it\<lparr>item_status := Completed\<rparr>) (bench_view q i))"
    by (simp add: bench_op_defs) (rule bench_update_view; simp add: bench_item_def)
next
  fix q i msg t u
  show "bench_view (snd (repo_MarkRetryPending (benchmarkRepository clock) None i msg t u q)) =
      (bench_view q)(i := map_option (\<lambda>it. case Some (wrap64 (Attempt (item_job it) + 1)) of None \<Rightarrow> it
        | Some n \<Rightarrow> it\<lparr>item_status := Pending, item_available := id t,
               item_job := (item_job it)\<lparr>Attempt := n, LastError := msg\<rparr>\<rparr>) (bench_view q i))"
    by (simp add: bench_op_defs) (rule bench_update_view; simp add: bench_item_def)
next
  fix q i msg t
  show "bench_view (snd (repo_MarkDeadLetter (benchmarkRepository clock) None i msg t q)) =
      (bench_view q)(i := map_option (\<lambda>it. it\<lparr>item_status := DeadLettered,
               item_job := (item_job it)\<lparr>LastError := msg\<rparr>\<rparr>) (bench_view q i))"
    by (simp add: bench_op_defs) (rule bench_update_view; simp add: bench_item_def)
qed

section \<open>Properties\<close>

text \<open>
  The in-memory queue claims like the PostgreSQL queue: with a positive limit it hands out the
  first pending, due items in the order of (\<open>availableAt\<close>, \<open>queueItemID\<close>), at most \<open>limit\<close> of them;
  with limit 0, where PostgreSQL hands out nothing, it hands out all of them.
\<close>

theorem benchmark_claim_order:
  assumes "bench_inv q" and "0 \<le> limit"
  shows "\<exists>q'. bench_ClaimAvailableDeliveries ctx owner limit t q =
    (Inr (map (\<lambda>it. \<lparr>DeliveryQueueItemID = queueItemID it, QueuedJob = bench_job it\<rparr>)
       ((if limit = 0 then id else take (nat limit))
         (sort_key bench_key (filter (\<lambda>it. bench_status it = Pending \<and> availableAt it \<le> t) (queueItems q))))), q')"
proof -
  obtain res q' where call: "bench_ClaimAvailableDeliveries ctx owner limit t q = (res, q')" by fastforce
  show ?thesis
  proof (cases res)
    case (Inl e)
    then show ?thesis using bench_Claim_Inl [OF assms(1)] call assms(2) by fastforce
  next
    case (Inr ds)
    then show ?thesis
      using bench_Claim_Inr(3) [OF assms(1) call [unfolded Inr]] call assms(2)
      by (auto simp: claimable_def [abs_def])
  qed
qed

definition bench_two :: benchmarkQueue where
  "bench_two = bench_append (\<lambda>_. 5) 0 (sample_event ''e1'' ''acme'') [''u1'', ''u2''] 7 newBenchmarkQueue"

lemma bench_two_inv: "bench_inv bench_two"
  unfolding bench_two_def by (rule bench_inv_append) (simp add: bench_inv_def newBenchmarkQueue_def)

theorem benchmark_claim_order_witness:
  "\<exists>ds q'. bench_ClaimAvailableDeliveries None ''n1'' 1 9 bench_two = (Inr ds, q') \<and> handed_ids ds = [1]"
  using benchmark_claim_order [OF bench_two_inv, of 1 None "''n1''" 9]
  by (auto simp: bench_two_def newBenchmarkQueue_def bench_key_def)

text \<open>
  Through the interface the in-memory queue gives the same guarantee as the PostgreSQL queue: in
  a run without retries no item is handed out twice.
\<close>

theorem benchmark_items_handed_out_once:
  assumes "bench_inv q" and "\<forall>op \<in> set ops. \<not> is_retry op"
    and "run_repo (benchmarkRepository clock) ops q = (ds, q')"
  shows "distinct (handed_ids ds)"
  using assms by (rule bench.handed_out_once)

theorem benchmark_items_handed_out_once_witness:
  "distinct (handed_ids (fst (run_repo (benchmarkRepository (\<lambda>_. 0))
     [RepoClaim ''n'' 1 9, RepoDelivered 1 10, RepoClaim ''n'' 0 11] bench_two)))"
  by (rule benchmark_items_handed_out_once [OF bench_two_inv _ surjective_pairing]) simp

end
