(* ===== verification/Go_Strings.thy ===== *)
theory Go_Strings
  imports Go_Prelude
begin

text \<open>
  The functions of Go's \<open>strconv\<close>, \<open>fmt\<close> and \<open>strings\<close> packages the program uses. A Go string is
  a sequence of bytes, a \<open>char\<close> is a byte, and a Unicode space or letter outside ASCII is the
  sequence of bytes that encodes it in UTF-8. The round trip of \<open>Itoa\<close> and \<open>Atoi\<close> carries the
  configuration defaults, which the program formats and parses back.
\<close>

section \<open>Decimal numbers\<close>

definition digit_char :: "nat \<Rightarrow> char" where
  "digit_char d = char_of (48 + d)"

definition digit_value :: "char \<Rightarrow> nat option" where
  "digit_value c = (let n = of_char c :: nat in if 48 \<le> n \<and> n \<le> 57 then Some (n - 48) else None)"

fun show_nat :: "nat \<Rightarrow> string" where
  "show_nat n = (if n < 10 then [digit_char n] else show_nat (n div 10) @ [digit_char (n mod 10)])"

declare show_nat.simps [simp del]

definition Itoa :: "int \<Rightarrow> string" where
  "Itoa i = (if i < 0 then CHR ''-'' # show_nat (nat (- i)) else show_nat (nat i))"

text \<open>The verb \<open>%0<w>d\<close>: zeros are put between the sign and the digits up to the width \<open>w\<close>.\<close>

definition Sprintf_0d :: "nat \<Rightarrow> int \<Rightarrow> string" where
  "Sprintf_0d w i =
    (let digits = show_nat (nat \<bar>i\<bar>); sign = (if i < 0 then ''-'' else [])
     in sign @ replicate (w - length sign - length digits) (CHR ''0'') @ digits)"

fun parse_digits :: "nat \<Rightarrow> string \<Rightarrow> nat option" where
  "parse_digits acc [] = Some acc"
| "parse_digits acc (c # cs) =
    (case digit_value c of None \<Rightarrow> None | Some d \<Rightarrow> parse_digits (acc * 10 + d) cs)"

text \<open>
  \<open>strconv.ParseInt(s, 10, 64)\<close>, and \<open>strconv.Atoi\<close> on a platform with 64-bit integers: an optional
  sign, at least one digit, nothing else, and a value in range. The two failures are the texts of
  \<open>strconv.ErrSyntax\<close> and \<open>strconv.ErrRange\<close>.
\<close>

definition parse_sign :: "string \<Rightarrow> bool \<times> string" where
  "parse_sign s = (case s of
     [] \<Rightarrow> (False, [])
   | c # cs \<Rightarrow> if c = CHR ''-'' then (True, cs) else if c = CHR ''+'' then (False, cs) else (False, s))"

definition ParseInt64 :: "string \<Rightarrow> go_error + int" where
  "ParseInt64 s =
    (let (negative, digits) = parse_sign s in
     if digits = [] then Inl (Err ''invalid syntax'')
     else case parse_digits 0 digits of
       None \<Rightarrow> Inl (Err ''invalid syntax'')
     | Some n \<Rightarrow> (let i = (if negative then - int n else int n)
                  in if int64 i then Inr i else Inl (Err ''value out of range'')))"

definition Atoi :: "string \<Rightarrow> go_error + int" where
  "Atoi s = ParseInt64 s"

lemma digit_value_char [simp]: "d < 10 \<Longrightarrow> digit_value (digit_char d) = Some d"
  by (simp add: digit_value_def digit_char_def Let_def)

lemma parse_digits_append:
  "parse_digits acc (xs @ ys) = (case parse_digits acc xs of None \<Rightarrow> None | Some n \<Rightarrow> parse_digits n ys)"
  by (induction acc xs rule: parse_digits.induct) (auto split: option.splits)

lemma parse_show_nat: "parse_digits 0 (show_nat n) = Some n"
proof (induction n rule: show_nat.induct)
  case (1 n)
  then show ?case
    by (subst show_nat.simps) (auto simp: parse_digits_append)
qed

lemma show_nat_not_Nil [simp]: "show_nat n \<noteq> []"
  by (subst show_nat.simps) simp

lemma digit_char_not_sign:
  "d < 10 \<Longrightarrow> digit_char d \<noteq> CHR ''-'' \<and> digit_char d \<noteq> CHR ''+''"
  using digit_value_char [of d] by (auto simp: digit_value_def Let_def)

lemma hd_show_nat: "hd (show_nat n) \<noteq> CHR ''-'' \<and> hd (show_nat n) \<noteq> CHR ''+''"
proof (induction n rule: show_nat.induct)
  case (1 n)
  then show ?case
    by (cases "n < 10") (simp_all add: show_nat.simps [of n] digit_char_not_sign)
qed

lemma parse_sign_show_nat: "parse_sign (show_nat n) = (False, show_nat n)"
  using hd_show_nat [of n] show_nat_not_Nil [of n]
  by (cases "show_nat n") (auto simp: parse_sign_def)

lemma ParseInt64_Itoa: "int64 i \<Longrightarrow> ParseInt64 (Itoa i) = Inr i"
  by (simp add: ParseInt64_def Itoa_def parse_show_nat parse_sign_show_nat)
     (simp add: parse_sign_def parse_show_nat)

lemma Atoi_Itoa: "int64 i \<Longrightarrow> Atoi (Itoa i) = Inr i"
  by (simp add: Atoi_def ParseInt64_Itoa)

section \<open>Spaces\<close>

text \<open>The UTF-8 encodings of the characters for which \<open>unicode.IsSpace\<close> holds.\<close>

definition bytes :: "nat list \<Rightarrow> string" where
  "bytes ns = map char_of ns"

definition space_encodings :: "string list" where
  "space_encodings =
    map (\<lambda>n. bytes [n]) [9, 10, 11, 12, 13, 32]
    @ [bytes [194, 133], bytes [194, 160], bytes [225, 154, 128]]
    @ map (\<lambda>n. bytes [226, 128, n]) ([128..<139] @ [168, 169, 175])
    @ [bytes [226, 129, 159], bytes [227, 128, 128]]"

definition strip_prefix :: "string \<Rightarrow> string \<Rightarrow> string option" where
  "strip_prefix p s = (if take (length p) s = p then Some (drop (length p) s) else None)"

definition strip_first :: "string list \<Rightarrow> string \<Rightarrow> string option" where
  "strip_first ps s = (case filter (\<lambda>p. p \<noteq> [] \<and> strip_prefix p s \<noteq> None) ps of
     [] \<Rightarrow> None | p # _ \<Rightarrow> strip_prefix p s)"

lemma strip_first_shorter: "strip_first ps s = Some t \<Longrightarrow> length t < length s"
  by (auto simp: strip_first_def strip_prefix_def filter_eq_Cons_iff split: list.splits if_splits)
     (metis diff_less length_greater_0_conv list.size(3) take_Nil)

function trim_left :: "string list \<Rightarrow> string \<Rightarrow> string" where
  "trim_left ps s = (case strip_first ps s of None \<Rightarrow> s | Some t \<Rightarrow> trim_left ps t)"
  by pat_completeness auto
termination
  by (relation "measure (\<lambda>(ps, s). length s)") (auto dest: strip_first_shorter)

declare trim_left.simps [simp del]

text \<open>\<open>strings.TrimSpace\<close>: spaces are cut off at the front, then at the back.\<close>

definition TrimSpace :: "string \<Rightarrow> string" where
  "TrimSpace s = rev (trim_left (map rev space_encodings) (rev (trim_left space_encodings s)))"

text \<open>A string with a character that is in no space is not blank.\<close>

lemma trim_left_keeps:
  "c \<in> set s \<Longrightarrow> \<forall>p \<in> set ps. c \<notin> set p \<Longrightarrow> c \<in> set (trim_left ps s)"
proof (induction ps s rule: trim_left.induct)
  case (1 ps s)
  show ?case
  proof (cases "strip_first ps s")
    case None
    then show ?thesis using "1.prems"(1) by (simp add: trim_left.simps [of ps s])
  next
    case (Some t)
    then obtain p where p: "p \<in> set ps" "take (length p) s = p" "t = drop (length p) s"
      by (auto simp: strip_first_def strip_prefix_def filter_eq_Cons_iff split: list.splits if_splits)
    then have "s = p @ t" by (metis append_take_drop_id)
    then have "c \<in> set t" using "1.prems" p(1) by auto
    then show ?thesis using "1.IH" [OF Some] "1.prems"(2) Some by (simp add: trim_left.simps [of ps s])
  qed
qed

lemma TrimSpace_visible:
  assumes "c \<in> set s" and "\<forall>p \<in> set space_encodings. c \<notin> set p"
  shows "TrimSpace s \<noteq> []"
proof -
  have "c \<in> set (trim_left space_encodings s)" by (rule trim_left_keeps [OF assms])
  then have "c \<in> set (trim_left (map rev space_encodings) (rev (trim_left space_encodings s)))"
    by (intro trim_left_keeps) (use assms(2) in auto)
  then show ?thesis by (auto simp: TrimSpace_def)
qed

lemma visible_letters:
  "\<forall>p \<in> set space_encodings. CHR ''s'' \<notin> set p" "\<forall>p \<in> set space_encodings. CHR ''c'' \<notin> set p"
  by code_simp+

text \<open>\<open>strings.TrimRight(s, cutset)\<close> for a cutset of one ASCII byte.\<close>

definition TrimRight :: "char \<Rightarrow> string \<Rightarrow> string" where
  "TrimRight c s = rev (dropWhile (\<lambda>d. d = c) (rev s))"

section \<open>Case and search\<close>

text \<open>
  \<open>strings.ToLower\<close> and \<open>strings.ToUpper\<close>, as far as a comparison with an ASCII literal can tell:
  the ASCII letters, and the letters outside ASCII whose lower or upper case is an ASCII letter
  (U+0130 and the Kelvin sign U+212A; U+0131 and U+017F). The bytes of all other characters are
  outside ASCII before and after the mapping and are kept here.
\<close>

definition lower_char :: "char \<Rightarrow> char" where
  "lower_char c = (let n = of_char c :: nat in if 65 \<le> n \<and> n \<le> 90 then char_of (n + 32) else c)"

definition upper_char :: "char \<Rightarrow> char" where
  "upper_char c = (let n = of_char c :: nat in if 97 \<le> n \<and> n \<le> 122 then char_of (n - 32) else c)"

fun replace_all :: "string \<Rightarrow> string \<Rightarrow> nat \<Rightarrow> string \<Rightarrow> string" where
  "replace_all old new skip [] = []"
| "replace_all old new (Suc skip) (c # cs) = replace_all old new skip cs"
| "replace_all old new 0 (c # cs) =
    (if old \<noteq> [] \<and> take (length old) (c # cs) = old
     then new @ replace_all old new (length old - 1) cs
     else c # replace_all old new 0 cs)"

definition ToLower :: "string \<Rightarrow> string" where
  "ToLower s = map lower_char (replace_all (bytes [196, 176]) ''i'' 0
     (replace_all (bytes [226, 132, 170]) ''k'' 0 s))"

definition ToUpper :: "string \<Rightarrow> string" where
  "ToUpper s = map upper_char (replace_all (bytes [196, 177]) ''I'' 0
     (replace_all (bytes [197, 191]) ''S'' 0 s))"

text \<open>\<open>strings.Contains\<close>.\<close>

fun Contains :: "string \<Rightarrow> string \<Rightarrow> bool" where
  "Contains [] sub = (sub = [])"
| "Contains (c # cs) sub \<longleftrightarrow> take (length sub) (c # cs) = sub \<or> Contains cs sub"

lemma Contains_iff: "Contains s sub \<longleftrightarrow> (\<exists>us vs. s = us @ sub @ vs)"
proof (induction s)
  case (Cons c cs)
  have "take (length sub) (c # cs) = sub \<longleftrightarrow> (\<exists>vs. c # cs = sub @ vs)"
    by (metis append_eq_conv_conj)
  then show ?case
    using Cons.IH by (auto simp: Cons_eq_append_conv)
qed simp

text \<open>The end of a text that has none of the replaced bytes stays, and so does ASCII text in lower case.\<close>

lemma replace_all_none: "\<forall>c \<in> set old. c \<notin> set s \<Longrightarrow> replace_all old new 0 s = s"
proof (induction s)
  case (Cons c cs)
  have "take (length old) (c # cs) \<noteq> old \<or> old = []" using Cons.prems by (cases old) auto
  then show ?case using Cons by auto
qed simp

lemma replace_all_suffix:
  "\<forall>c \<in> set old. c \<notin> set t \<Longrightarrow> k \<le> length p \<Longrightarrow> \<exists>p'. replace_all old new k (p @ t) = p' @ t"
proof (induction p arbitrary: k)
  case Nil
  then show ?case by (auto simp: replace_all_none)
next
  case (Cons c p)
  show ?case
  proof (cases k)
    case (Suc j)
    then show ?thesis using Cons by auto
  next
    case 0
    obtain p0 where p0: "replace_all old new 0 (p @ t) = p0 @ t" using Cons by blast
    have "length old - 1 \<le> length p" if "take (length old) (c # p @ t) = old"
    proof (rule ccontr)
      assume "\<not> length old - 1 \<le> length p"
      then have "length p + 1 < length old" by linarith
      then have "old ! (length p + 1) = (c # p @ t) ! (length p + 1)" "length p + 1 < length (c # p @ t)"
        using that by (metis nth_take) (metis that length_take min_less_iff_conj \<open>length p + 1 < length old\<close>)
      then have "old ! (length p + 1) \<in> set t" by (simp add: nth_append)
      then show False using Cons.prems(1) \<open>length p + 1 < length old\<close> by auto
    qed
    then have "take (length old) (c # p @ t) = old \<Longrightarrow> \<exists>p1. replace_all old new (length old - 1) (p @ t) = p1 @ t"
      using Cons by blast
    then show ?thesis unfolding 0 append_Cons replace_all.simps
      using p0 by (cases "old \<noteq> [] \<and> take (length old) (c # p @ t) = old")
        (simp, metis append_assoc, simp only: if_False, metis append_Cons)
  qed
qed

lemma ToLower_suffix:
  assumes "\<forall>c \<in> set t. lower_char c = c \<and> c \<notin> set (bytes [196, 176] @ bytes [226, 132, 170])"
  shows "\<exists>p'. ToLower (p @ t) = p' @ t"
proof -
  obtain p1 where p1: "replace_all (bytes [226, 132, 170]) ''k'' 0 (p @ t) = p1 @ t"
    using replace_all_suffix [of "bytes [226, 132, 170]" t 0 p] assms by auto
  obtain p2 where "replace_all (bytes [196, 176]) ''i'' 0 (p1 @ t) = p2 @ t"
    using replace_all_suffix [of "bytes [196, 176]" t 0 p1] assms by auto
  moreover have "map lower_char t = t" using assms by (simp add: map_idI)
  ultimately show ?thesis by (simp add: ToLower_def p1)
qed

end
