(* ===== verification/Go_Duration.thy ===== *)
theory Go_Duration
  imports Go_Strings
begin

text \<open>
  \<open>time.Duration.String\<close> and \<open>time.ParseDuration\<close>, which the configuration composes: a default is
  formatted and parsed back. The 64-bit bounds of the parser are kept. The product of a decimal
  fraction and a unit is taken in \<open>float64\<close> by the library; it is the argument \<open>frac\<close> (digits of
  the fraction, their number, unit in nanoseconds) and no lemma depends on it. The failure texts
  leave out the quoted input.
\<close>

section \<open>Formatting\<close>

text \<open>The fraction digits of \<open>v / 10^prec\<close>, without trailing zeros, behind a point if any are left.\<close>

fun drop_trailing_zeros :: "nat \<Rightarrow> nat \<Rightarrow> nat \<times> nat" where
  "drop_trailing_zeros 0 v = (0, v)"
| "drop_trailing_zeros (Suc n) v = (if v mod 10 = 0 then drop_trailing_zeros n (v div 10) else (Suc n, v))"

fun low_digits :: "nat \<Rightarrow> nat \<Rightarrow> string" where
  "low_digits 0 v = []"
| "low_digits (Suc n) v = low_digits n (v div 10) @ [digit_char (v mod 10)]"

definition fmtFrac :: "nat \<Rightarrow> nat \<Rightarrow> string" where
  "fmtFrac prec v =
    (case drop_trailing_zeros prec (v mod 10 ^ prec) of
       (n, w) \<Rightarrow> if n = 0 then [] else CHR ''.'' # low_digits n w)"

definition Duration_String :: "duration \<Rightarrow> string" where
  "Duration_String d =
    (let u = nat \<bar>d\<bar>;
         body =
           (if u = 0 then ''0s''
            else if u < 1000 then show_nat u @ ''ns''
            else if u < 1000000 then show_nat (u div 1000) @ fmtFrac 3 u @ bytes [194, 181] @ ''s''
            else if u < 1000000000 then show_nat (u div 1000000) @ fmtFrac 6 u @ ''ms''
            else
              (let seconds = u div 1000000000; minutes = seconds div 60; hours = minutes div 60
               in (if hours > 0 then show_nat hours @ ''h'' else []) @
                  (if minutes > 0 then show_nat (minutes mod 60) @ ''m'' else []) @
                  show_nat (seconds mod 60) @ fmtFrac 9 u @ ''s''))
     in if d < 0 then CHR ''-'' # body else body)"

section \<open>Parsing\<close>

text \<open>\<open>leadingInt\<close>: \<open>None\<close> on overflow.\<close>

fun leadingInt :: "nat \<Rightarrow> string \<Rightarrow> (nat \<times> string) option" where
  "leadingInt x [] = Some (x, [])"
| "leadingInt x (c # cs) =
    (case digit_value c of
       None \<Rightarrow> Some (x, c # cs)
     | Some d \<Rightarrow> if x > 2 ^ 63 div 10 then None
                 else if x * 10 + d > 2 ^ 63 then None
                 else leadingInt (x * 10 + d) cs)"

text \<open>\<open>leadingFraction\<close>: the digits that fit, how many they are, and what follows all digits.\<close>

fun leadingFraction :: "nat \<Rightarrow> nat \<Rightarrow> bool \<Rightarrow> string \<Rightarrow> nat \<times> nat \<times> string" where
  "leadingFraction x scale overflow [] = (x, scale, [])"
| "leadingFraction x scale overflow (c # cs) =
    (case digit_value c of
       None \<Rightarrow> (x, scale, c # cs)
     | Some d \<Rightarrow> if overflow \<or> x > (2 ^ 63 - 1) div 10 \<or> x * 10 + d > 2 ^ 63
                 then leadingFraction x scale True cs
                 else leadingFraction (x * 10 + d) (scale + 1) False cs)"

definition unit_ns :: "string \<Rightarrow> nat option" where
  "unit_ns u = map_of
    [(''ns'', 1), (''us'', 1000), (bytes [194, 181] @ ''s'', 1000), (bytes [206, 188] @ ''s'', 1000),
     (''ms'', 1000000), (''s'', 1000000000), (''m'', 60000000000), (''h'', 3600000000000)] u"

definition invalid_duration :: go_error where
  "invalid_duration = Err ''time: invalid duration''"

definition is_number_char :: "char \<Rightarrow> bool" where
  "is_number_char c \<longleftrightarrow> c = CHR ''.'' \<or> digit_value c \<noteq> None"

text \<open>One number with its unit: its nanoseconds and the rest of the text.\<close>

definition duration_part :: "(nat \<Rightarrow> nat \<Rightarrow> nat \<Rightarrow> nat) \<Rightarrow> string \<Rightarrow> go_error + nat \<times> string" where
  "duration_part frac s =
    (if s = [] \<or> \<not> is_number_char (hd s) then Inl invalid_duration
     else case leadingInt 0 s of
       None \<Rightarrow> Inl invalid_duration
     | Some (v, s1) \<Rightarrow>
        (let pre = (length s1 \<noteq> length s);
             point = (s1 \<noteq> [] \<and> hd s1 = CHR ''.'');
             (f, scale, s2) = (if point then leadingFraction 0 0 False (tl s1) else (0, 0, s1));
             post = (point \<and> length s2 \<noteq> length (tl s1));
             u = takeWhile (\<lambda>c. \<not> is_number_char c) s2
         in if \<not> pre \<and> \<not> post then Inl invalid_duration
            else if u = [] then Inl (Err ''time: missing unit in duration'')
            else case unit_ns u of
              None \<Rightarrow> Inl (Err ''time: unknown unit in duration'')
            | Some unit \<Rightarrow>
               if v > 2 ^ 63 div unit then Inl invalid_duration
               else if f > 0 \<and> v * unit + frac f scale unit > 2 ^ 63 then Inl invalid_duration
               else Inr (if f > 0 then v * unit + frac f scale unit else v * unit,
                         dropWhile (\<lambda>c. \<not> is_number_char c) s2)))"

lemma leadingInt_suffix: "leadingInt x s = Some (v, t) \<Longrightarrow> length t \<le> length s"
  by (induction x s rule: leadingInt.induct) (auto split: option.splits if_splits simp: le_SucI)

lemma leadingFraction_suffix: "leadingFraction x k b s = (f, n, t) \<Longrightarrow> length t \<le> length s"
  by (induction x k b s rule: leadingFraction.induct) (auto split: option.splits if_splits simp: le_SucI)

lemma duration_part_shorter:
  assumes "duration_part frac s = Inr (n, t)"
  shows "length t < length s"
proof -
  obtain v s1 where lead: "leadingInt 0 s = Some (v, s1)"
    using assms by (auto simp: duration_part_def split: if_splits option.splits)
  define point where "point \<longleftrightarrow> s1 \<noteq> [] \<and> hd s1 = CHR ''.''"
  obtain f scale s2 where frac: "(if point then leadingFraction 0 0 False (tl s1) else (0, 0, s1)) = (f, scale, s2)"
    by (metis prod_cases3)
  have "length s2 \<le> length s"
    using leadingInt_suffix [OF lead] frac leadingFraction_suffix [of 0 0 False "tl s1" f scale s2]
    by (auto split: if_splits)
  moreover have "takeWhile (\<lambda>c. \<not> is_number_char c) s2 \<noteq> []" "t = dropWhile (\<lambda>c. \<not> is_number_char c) s2"
    using assms by (auto simp: duration_part_def lead Let_def point_def [symmetric] frac split: if_splits option.splits)
  ultimately show ?thesis
    by (metis add_less_cancel_right append_eq_append_conv2 length_append length_greater_0_conv
        less_add_same_cancel2 order_less_le_trans takeWhile_dropWhile_id)
qed

function parse_parts :: "(nat \<Rightarrow> nat \<Rightarrow> nat \<Rightarrow> nat) \<Rightarrow> nat \<Rightarrow> string \<Rightarrow> go_error + nat" where
  "parse_parts frac d s =
    (if s = [] then Inr d
     else case duration_part frac s of
       Inl e \<Rightarrow> Inl e
     | Inr (v, rest) \<Rightarrow> if d + v > 2 ^ 63 then Inl invalid_duration else parse_parts frac (d + v) rest)"
  by pat_completeness auto
termination
  by (relation "measure (\<lambda>(frac, d, s). length s)") (auto dest: duration_part_shorter)

declare parse_parts.simps [simp del]

definition ParseDuration :: "(nat \<Rightarrow> nat \<Rightarrow> nat \<Rightarrow> nat) \<Rightarrow> string \<Rightarrow> go_error + duration" where
  "ParseDuration frac s =
    (let (neg, t) = parse_sign s in
     if t = ''0'' then Inr 0
     else if t = [] then Inl invalid_duration
     else case parse_parts frac 0 t of
       Inl e \<Rightarrow> Inl e
     | Inr d \<Rightarrow> if neg then Inr (- int d)
                else if d > 2 ^ 63 - 1 then Inl invalid_duration else Inr (int d))"

section \<open>Round trip\<close>

lemma parse_digits_ge: "parse_digits x xs = Some n \<Longrightarrow> x \<le> n"
  by (induction x xs rule: parse_digits.induct) (auto split: option.splits)

lemma leadingInt_digits:
  "parse_digits x xs = Some n \<Longrightarrow> n \<le> 2 ^ 63 \<Longrightarrow> leadingInt x (xs @ ys) = leadingInt n ys"
proof (induction x xs rule: parse_digits.induct)
  case (2 x c cs)
  then obtain d where d: "digit_value c = Some d" and rest: "parse_digits (x * 10 + d) cs = Some n"
    by (auto split: option.splits)
  have "x * 10 + d \<le> 2 ^ 63" using parse_digits_ge [OF rest] "2.prems"(2) by simp
  moreover from this have "x \<le> 2 ^ 63 div 10" by linarith
  ultimately show ?case using "2.IH" [OF d rest "2.prems"(2)] d by simp
qed simp

lemma leadingInt_show_nat:
  "n \<le> 2 ^ 63 \<Longrightarrow> digit_value c = None \<Longrightarrow> leadingInt 0 (show_nat n @ c # cs) = Some (n, c # cs)"
  using leadingInt_digits [OF parse_show_nat, of n "c # cs"] by simp

lemma show_nat_number: "is_number_char (hd (show_nat n @ s))"
proof -
  have "digit_value (hd (show_nat n)) \<noteq> None"
    using parse_show_nat [of n] show_nat_not_Nil [of n] by (cases "show_nat n") (auto split: option.splits)
  then show ?thesis using show_nat_not_Nil [of n] by (simp add: is_number_char_def)
qed

lemma span_append:
  "\<forall>c \<in> set u. \<not> P c \<Longrightarrow> rest = [] \<or> P (hd rest) \<Longrightarrow>
    takeWhile (\<lambda>c. \<not> P c) (u @ rest) = u \<and> dropWhile (\<lambda>c. \<not> P c) (u @ rest) = rest"
  by (induction u) (cases rest; auto)+

lemma duration_part_whole:
  assumes unit: "unit_ns u = Some m" "u \<noteq> []" "\<forall>c \<in> set u. \<not> is_number_char c"
    and bound: "n * m \<le> 2 ^ 63" "0 < m" and rest: "rest = [] \<or> is_number_char (hd rest)"
  shows "duration_part frac (show_nat n @ u @ rest) = Inr (n * m, rest)"
proof -
  obtain c cs where u: "u = c # cs" using unit(2) by (cases u) auto
  have c: "c \<noteq> CHR ''.''" "digit_value c = None" using unit(3) by (auto simp: u is_number_char_def)
  have "n \<le> n * m" using bound(2) by (cases m) simp_all
  then have "n \<le> 2 ^ 63" using bound(1) by (rule order_trans)
  then have lead: "leadingInt 0 (show_nat n @ u @ rest) = Some (n, u @ rest)"
    using leadingInt_show_nat [of n c "cs @ rest"] bound(1) c(2) by (simp add: u)
  have "takeWhile (\<lambda>c. \<not> is_number_char c) (u @ rest) = u \<and> dropWhile (\<lambda>c. \<not> is_number_char c) (u @ rest) = rest"
    by (rule span_append [OF unit(3) rest])
  moreover have "n \<le> 2 ^ 63 div m" using bound by (simp add: less_eq_div_iff_mult_less_eq)
  moreover have "is_number_char (hd (show_nat n @ u @ rest))" by (rule show_nat_number)
  moreover have "hd (u @ rest) \<noteq> CHR ''.''" using c(1) by (simp add: u)
  ultimately show ?thesis
    using unit(1,2) by (simp add: duration_part_def lead Let_def)
qed

lemma parse_parts_whole:
  assumes "unit_ns u = Some m" "u \<noteq> []" "\<forall>c \<in> set u. \<not> is_number_char c" "0 < m"
    and "rest = [] \<or> is_number_char (hd rest)" and "d + n * m \<le> 2 ^ 63"
  shows "parse_parts frac d (show_nat n @ u @ rest) = parse_parts frac (d + n * m) rest"
  using assms duration_part_whole [OF assms(1-3) _ assms(4,5), of n frac]
  by (subst parse_parts.simps) simp

lemma time_units:
  "unit_ns ''ms'' = Some 1000000" "unit_ns ''s'' = Some 1000000000"
  "unit_ns ''m'' = Some 60000000000" "unit_ns ''h'' = Some 3600000000000"
  "\<forall>c \<in> set ''ms''. \<not> is_number_char c" "\<forall>c \<in> set ''s''. \<not> is_number_char c"
  "\<forall>c \<in> set ''m''. \<not> is_number_char c" "\<forall>c \<in> set ''h''. \<not> is_number_char c"
  by (simp_all add: unit_ns_def is_number_char_def digit_value_def bytes_def)

lemma drop_trailing_zeros_0 [simp]: "drop_trailing_zeros n 0 = (0, 0)"
  by (induction n) auto

lemma fmtFrac_whole: "v mod 10 ^ prec = 0 \<Longrightarrow> fmtFrac prec v = []"
  by (simp add: fmtFrac_def)

text \<open>The text of a whole number of seconds, or of milliseconds below one second.\<close>

lemma String_seconds:
  assumes "0 < k"
  shows "Duration_String (int k * 1000000000) =
    (if 0 < k div 60 div 60 then show_nat (k div 60 div 60) @ ''h'' else []) @
    (if 0 < k div 60 then show_nat (k div 60 mod 60) @ ''m'' else []) @ show_nat (k mod 60) @ ''s''"
proof -
  have "nat \<bar>int k * 1000000000\<bar> = k * 1000000000" by (simp add: nat_mult_distrib abs_mult)
  moreover have "fmtFrac 9 (k * 1000000000) = []" by (rule fmtFrac_whole) simp
  moreover have "\<not> k * 1000000000 < 1000" "\<not> k * 1000000000 < 1000000" "\<not> k * 1000000000 < 1000000000"
    using assms by simp_all
  ultimately show ?thesis
    using assms by (simp add: Duration_String_def Let_def)
qed

lemma String_milliseconds:
  assumes "0 < k" and "k < 1000"
  shows "Duration_String (int k * 1000000) = show_nat k @ ''ms''"
proof -
  have "nat \<bar>int k * 1000000\<bar> = k * 1000000" by (simp add: nat_mult_distrib abs_mult)
  moreover have "fmtFrac 6 (k * 1000000) = []" by (rule fmtFrac_whole) simp
  ultimately show ?thesis
    using assms by (simp add: Duration_String_def Let_def)
qed

lemma parse_seconds:
  assumes "k < 2 ^ 63 div 1000000000"
  shows "parse_parts frac 0
    ((if 0 < k div 60 div 60 then show_nat (k div 60 div 60) @ ''h'' else []) @
     (if 0 < k div 60 then show_nat (k div 60 mod 60) @ ''m'' else []) @ show_nat (k mod 60) @ ''s'') =
    Inr (k * 1000000000)"
proof -
  let ?h = "k div 60 div 60" and ?m = "k div 60 mod 60" and ?s = "k mod 60"
  have "k div 60 * 60 + ?s = k" "?h * 60 + ?m = k div 60" by simp_all
  then have k: "?h * 3600 + ?m * 60 + ?s = k" by linarith
  have bound: "?h * 3600000000000 + ?m * 60000000000 + ?s * 1000000000 = k * 1000000000"
    using arg_cong [OF k, of "\<lambda>n. n * 1000000000"] by (simp add: add_mult_distrib)
  then have le: "?h * 3600000000000 + ?m * 60000000000 + ?s * 1000000000 \<le> 2 ^ 63" using assms by simp
  note num = show_nat_number [of ?m "''m'' @ show_nat ?s @ ''s''"] show_nat_number [of ?s "''s''"]
  have s: "parse_parts frac d (show_nat ?s @ ''s'') = Inr (d + ?s * 1000000000)" if "d + ?s * 1000000000 \<le> 2 ^ 63" for d
    using parse_parts_whole [OF time_units(2) _ time_units(6), of "[]" d ?s frac] that
    by (simp add: parse_parts.simps [of _ _ "[]"])
  have m: "parse_parts frac d (show_nat ?m @ ''m'' @ show_nat ?s @ ''s'') = Inr (d + ?m * 60000000000 + ?s * 1000000000)"
    if "d + ?m * 60000000000 + ?s * 1000000000 \<le> 2 ^ 63" for d
    using parse_parts_whole [OF time_units(3) _ time_units(7) _ disjI2 [OF num(2)], of d ?m frac] that s by simp
  have h: "parse_parts frac 0 (show_nat ?h @ ''h'' @ show_nat ?m @ ''m'' @ show_nat ?s @ ''s'') = Inr (k * 1000000000)"
    using parse_parts_whole [OF time_units(4) _ time_units(8) _ disjI2 [OF num(1)], of 0 ?h frac] le m
    by (simp add: bound [symmetric])
  show ?thesis
  proof (cases "0 < k div 60 div 60")
    case True
    then have "0 < k div 60" by (cases "k div 60") auto
    then show ?thesis using True h by simp
  next
    case False
    then have "k div 60 < 60" by auto
    then show ?thesis using False m [of 0] s [of 0] le bound by (cases "0 < k div 60") auto
  qed
qed

lemma parse_sign_number: "parse_sign (show_nat n @ s) = (False, show_nat n @ s)"
  using hd_show_nat [of n] show_nat_not_Nil [of n]
  by (cases "show_nat n") (auto simp: parse_sign_def)

lemma ParseDuration_number:
  assumes "t = show_nat n @ s" and "last t = CHR ''s''" and "parse_parts frac 0 t = Inr d" and "d < 2 ^ 63"
  shows "ParseDuration frac t = Inr (int d)"
proof -
  have "t \<noteq> ''0''" "t \<noteq> []" using assms(1,2) by auto
  then show ?thesis using assms(3,4) parse_sign_number [of n s] by (simp add: ParseDuration_def assms(1))
qed

lemma ParseDuration_seconds:
  assumes "0 < k" and "k < 2 ^ 63 div 1000000000"
  shows "ParseDuration frac (Duration_String (int k * 1000000000)) = Inr (int k * 1000000000)"
proof -
  let ?t = "Duration_String (int k * 1000000000)"
  obtain n s where t: "?t = show_nat n @ s"
    unfolding String_seconds [OF assms(1)] by (cases "0 < k div 60 div 60"; cases "0 < k div 60") auto
  moreover have "last ?t = CHR ''s''" by (simp add: String_seconds [OF assms(1)])
  moreover have "parse_parts frac 0 ?t = Inr (k * 1000000000)"
    unfolding String_seconds [OF assms(1)] by (rule parse_seconds [OF assms(2)])
  ultimately show ?thesis
    using ParseDuration_number [of ?t n s frac "k * 1000000000"] assms(2) by simp
qed

lemma ParseDuration_milliseconds:
  assumes "0 < k" and "k < 1000"
  shows "ParseDuration frac (Duration_String (int k * 1000000)) = Inr (int k * 1000000)"
proof -
  have "parse_parts frac 0 (show_nat k @ ''ms'') = Inr (k * 1000000)"
    using parse_parts_whole [OF time_units(1) _ time_units(5), of "[]" 0 k frac] assms(2)
    by (simp add: parse_parts.simps [of _ _ "[]"])
  then show ?thesis
    using ParseDuration_number [OF refl, of k "''ms''" frac "k * 1000000"] assms
    by (simp add: String_milliseconds)
qed

end
