(* ===== verification/Config.thy ===== *)
theory Config
  imports Go_Duration
begin

text \<open>
  The configuration (\<open>internal/config/config.go\<close>) and the log level
  (\<open>internal/logging/logger.go\<close>). The environment of the process is a map; \<open>frac\<close> is the product of
  a decimal fraction and a time unit inside \<open>time.ParseDuration\<close>. A loader stops at the first
  variable it cannot parse, in the order of the source.
\<close>

section \<open>Defaults and records\<close>

definition defaultNotifierWorkerCount :: go_int where "defaultNotifierWorkerCount = 4"
definition defaultNotifierRequestTimeout :: duration where "defaultNotifierRequestTimeout = 5 * Second"
definition defaultNotifierMaxRetryAttempts :: go_int where "defaultNotifierMaxRetryAttempts = 3"
definition defaultNotifierInitialRetryDelay :: duration where "defaultNotifierInitialRetryDelay = Second"
definition defaultNotifierQueueClaimBatchSize :: go_int where "defaultNotifierQueueClaimBatchSize = 32"
definition defaultNotifierQueuePollInterval :: duration where "defaultNotifierQueuePollInterval = 250 * Millisecond"
definition defaultNotifierSchedulerBufferMultiplier :: go_int where "defaultNotifierSchedulerBufferMultiplier = 4"
definition defaultNotifierScheduledQueueLimitFactor :: go_int where "defaultNotifierScheduledQueueLimitFactor = 10"
definition defaultNotifierMetricsReportInterval :: duration where "defaultNotifierMetricsReportInterval = 2 * Second"
definition defaultNotifierShutdownTimeout :: duration where "defaultNotifierShutdownTimeout = 5 * Second"
definition defaultReceiverShutdownTimeout :: duration where "defaultReceiverShutdownTimeout = 5 * Second"
definition defaultGeneratorCustomerCount :: go_int where "defaultGeneratorCustomerCount = 5"
definition defaultGeneratorHTTPTimeout :: duration where "defaultGeneratorHTTPTimeout = 15 * Second"
definition defaultGeneratorShutdownTimeout :: duration where "defaultGeneratorShutdownTimeout = 5 * Second"

lemmas config_defaults = defaultNotifierWorkerCount_def defaultNotifierRequestTimeout_def
  defaultNotifierMaxRetryAttempts_def defaultNotifierInitialRetryDelay_def
  defaultNotifierQueueClaimBatchSize_def defaultNotifierQueuePollInterval_def
  defaultNotifierSchedulerBufferMultiplier_def defaultNotifierScheduledQueueLimitFactor_def
  defaultNotifierMetricsReportInterval_def defaultNotifierShutdownTimeout_def
  defaultReceiverShutdownTimeout_def defaultGeneratorCustomerCount_def
  defaultGeneratorHTTPTimeout_def defaultGeneratorShutdownTimeout_def

record NotifierConfig =
  HTTPAddress :: string
  WorkerCount :: go_int
  RequestTimeout :: duration
  MaxRetryAttempts :: go_int
  InitialRetryDelay :: duration
  QueueClaimBatchSize :: go_int
  QueuePollInterval :: duration
  SchedulerBufferMultiplier :: go_int
  ScheduledQueueLimitFactor :: go_int
  MetricsReportInterval :: duration
  ShutdownTimeout :: duration
  LogLevel :: string
  PostgresConnection :: string
  RegistrationResolveQuery :: string
  RegistrationSnapshotQuery :: string

record MockReceiverConfig =
  recv_HTTPAddress :: string
  recv_ShutdownTimeout :: duration
  recv_LogLevel :: string

record MockGeneratorConfig =
  gen_HTTPAddress :: string
  NotifierBaseURL :: string
  DefaultCustomerCount :: go_int
  RandomSeed :: go_int
  HTTPRequestTimeout :: duration
  gen_ShutdownTimeout :: duration
  gen_LogLevel :: string

definition ScheduledQueueLimit :: "NotifierConfig \<Rightarrow> go_int" where
  "ScheduledQueueLimit cfg =
    (let workerCount = (if WorkerCount cfg \<le> 0 then 1 else WorkerCount cfg);
         scheduledQueueLimitFactor =
           (if ScheduledQueueLimitFactor cfg \<le> 0 then defaultNotifierScheduledQueueLimitFactor
            else ScheduledQueueLimitFactor cfg)
     in wrap64 (workerCount * scheduledQueueLimitFactor))"

section \<open>Reading the environment\<close>

type_synonym environment = "string \<rightharpoonup> string"

definition readEnvironment :: "environment \<Rightarrow> string \<Rightarrow> string \<Rightarrow> string" where
  "readEnvironment env environmentVariable defaultValue =
    (case env environmentVariable of
       None \<Rightarrow> defaultValue
     | Some value \<Rightarrow> if TrimSpace value = [] then defaultValue else value)"

definition parse_failure :: "string \<Rightarrow> (go_error + 'a) \<Rightarrow> go_error + 'a" where
  "parse_failure environmentVariable parsed = map_sum (Wrap (''parse '' @ environmentVariable)) id parsed"

definition parseIntEnvironment :: "environment \<Rightarrow> string \<Rightarrow> go_int \<Rightarrow> go_error + go_int" where
  "parseIntEnvironment env environmentVariable defaultValue =
    parse_failure environmentVariable (Atoi (readEnvironment env environmentVariable (Itoa defaultValue)))"

definition parseInt64Environment :: "environment \<Rightarrow> string \<Rightarrow> go_int \<Rightarrow> go_error + go_int" where
  "parseInt64Environment env environmentVariable defaultValue =
    parse_failure environmentVariable (ParseInt64 (readEnvironment env environmentVariable (Itoa defaultValue)))"

definition parseDurationEnvironment :: "(nat \<Rightarrow> nat \<Rightarrow> nat \<Rightarrow> nat) \<Rightarrow> environment \<Rightarrow> string \<Rightarrow> duration \<Rightarrow>
    go_error + duration" where
  "parseDurationEnvironment frac env environmentVariable defaultValue =
    parse_failure environmentVariable
      (ParseDuration frac (readEnvironment env environmentVariable (Duration_String defaultValue)))"

section \<open>The loaders\<close>

definition LoadNotifierConfig :: "(nat \<Rightarrow> nat \<Rightarrow> nat \<Rightarrow> nat) \<Rightarrow> environment \<Rightarrow> go_error + NotifierConfig" where
  "LoadNotifierConfig frac env =
    bind_result (parseIntEnvironment env ''NOTIFIER_WORKER_COUNT'' defaultNotifierWorkerCount) (\<lambda>workerCount.
    bind_result (parseIntEnvironment env ''NOTIFIER_MAX_RETRY_ATTEMPTS'' defaultNotifierMaxRetryAttempts) (\<lambda>maxRetryAttempts.
    bind_result (parseDurationEnvironment frac env ''NOTIFIER_REQUEST_TIMEOUT'' defaultNotifierRequestTimeout) (\<lambda>requestTimeout.
    bind_result (parseDurationEnvironment frac env ''NOTIFIER_INITIAL_RETRY_DELAY'' defaultNotifierInitialRetryDelay) (\<lambda>initialRetryDelay.
    bind_result (parseIntEnvironment env ''NOTIFIER_QUEUE_CLAIM_BATCH_SIZE'' defaultNotifierQueueClaimBatchSize) (\<lambda>queueClaimBatchSize.
    bind_result (parseDurationEnvironment frac env ''NOTIFIER_QUEUE_POLL_INTERVAL'' defaultNotifierQueuePollInterval) (\<lambda>queuePollInterval.
    bind_result (parseIntEnvironment env ''NOTIFIER_SCHEDULER_BUFFER_MULTIPLIER'' defaultNotifierSchedulerBufferMultiplier) (\<lambda>schedulerBufferMultiplier.
    bind_result (parseIntEnvironment env ''NOTIFIER_SCHEDULED_QUEUE_LIMIT_FACTOR'' defaultNotifierScheduledQueueLimitFactor) (\<lambda>scheduledQueueLimitFactor.
    bind_result (parseDurationEnvironment frac env ''NOTIFIER_METRICS_REPORT_INTERVAL'' defaultNotifierMetricsReportInterval) (\<lambda>metricsReportInterval.
    bind_result (parseDurationEnvironment frac env ''NOTIFIER_SHUTDOWN_TIMEOUT'' defaultNotifierShutdownTimeout) (\<lambda>shutdownTimeout.
    (let postgresConnection = readEnvironment env ''NOTIFIER_POSTGRES_DSN'' []
     in if TrimSpace postgresConnection = [] then Inl (Err ''NOTIFIER_POSTGRES_DSN is required'')
        else Inr
          \<lparr>HTTPAddress = readEnvironment env ''NOTIFIER_HTTP_ADDRESS'' '':28080'',
           WorkerCount = workerCount,
           RequestTimeout = requestTimeout,
           MaxRetryAttempts = maxRetryAttempts,
           InitialRetryDelay = initialRetryDelay,
           QueueClaimBatchSize = queueClaimBatchSize,
           QueuePollInterval = queuePollInterval,
           SchedulerBufferMultiplier = schedulerBufferMultiplier,
           ScheduledQueueLimitFactor = scheduledQueueLimitFactor,
           MetricsReportInterval = metricsReportInterval,
           ShutdownTimeout = shutdownTimeout,
           LogLevel = readEnvironment env ''NOTIFIER_LOG_LEVEL'' ''INFO'',
           PostgresConnection = postgresConnection,
           RegistrationResolveQuery = readEnvironment env ''NOTIFIER_REGISTRATION_RESOLVE_QUERY''
             ''SELECT webhook_url FROM webhook_registrations WHERE customer_id = $1 AND is_active = TRUE ORDER BY webhook_url'',
           RegistrationSnapshotQuery = readEnvironment env ''NOTIFIER_REGISTRATION_SNAPSHOT_QUERY''
             ''SELECT customer_id, webhook_url FROM webhook_registrations WHERE is_active = TRUE ORDER BY customer_id, webhook_url''\<rparr>)))))))))))"

definition LoadMockReceiverConfig :: "(nat \<Rightarrow> nat \<Rightarrow> nat \<Rightarrow> nat) \<Rightarrow> environment \<Rightarrow> go_error + MockReceiverConfig" where
  "LoadMockReceiverConfig frac env =
    bind_result (parseDurationEnvironment frac env ''RECEIVER_SHUTDOWN_TIMEOUT'' defaultReceiverShutdownTimeout) (\<lambda>shutdownTimeout.
      Inr \<lparr>recv_HTTPAddress = readEnvironment env ''RECEIVER_HTTP_ADDRESS'' '':28082'',
           recv_ShutdownTimeout = shutdownTimeout,
           recv_LogLevel = readEnvironment env ''RECEIVER_LOG_LEVEL'' ''INFO''\<rparr>)"

text \<open>\<open>now\<close> is \<open>time.Now().UnixNano()\<close>.\<close>

definition LoadMockGeneratorConfig :: "(nat \<Rightarrow> nat \<Rightarrow> nat \<Rightarrow> nat) \<Rightarrow> go_int \<Rightarrow> environment \<Rightarrow> go_error + MockGeneratorConfig" where
  "LoadMockGeneratorConfig frac now env =
    bind_result (parseIntEnvironment env ''GENERATOR_DEFAULT_CUSTOMER_COUNT'' defaultGeneratorCustomerCount) (\<lambda>defaultCustomerCount.
    bind_result (parseInt64Environment env ''GENERATOR_RANDOM_SEED'' now) (\<lambda>randomSeed.
    bind_result (parseDurationEnvironment frac env ''GENERATOR_HTTP_REQUEST_TIMEOUT'' defaultGeneratorHTTPTimeout) (\<lambda>httpRequestTimeout.
    bind_result (parseDurationEnvironment frac env ''GENERATOR_SHUTDOWN_TIMEOUT'' defaultGeneratorShutdownTimeout) (\<lambda>shutdownTimeout.
      Inr \<lparr>gen_HTTPAddress = readEnvironment env ''GENERATOR_HTTP_ADDRESS'' '':28081'',
           NotifierBaseURL = TrimRight (CHR ''/'') (readEnvironment env ''GENERATOR_NOTIFIER_BASE_URL'' ''http://localhost:28080''),
           DefaultCustomerCount = defaultCustomerCount,
           RandomSeed = randomSeed,
           HTTPRequestTimeout = httpRequestTimeout,
           gen_ShutdownTimeout = shutdownTimeout,
           gen_LogLevel = readEnvironment env ''GENERATOR_LOG_LEVEL'' ''INFO''\<rparr>))))"

section \<open>Log levels\<close>

datatype slog_level = LevelDebug | LevelInfo | LevelWarn | LevelError

fun level_value :: "slog_level \<Rightarrow> int" where
  "level_value LevelDebug = - 4"
| "level_value LevelInfo = 0"
| "level_value LevelWarn = 4"
| "level_value LevelError = 8"

lemma level_value_inject: "level_value a = level_value b \<longleftrightarrow> a = b"
  by (cases a; cases b) simp_all

instantiation slog_level :: linorder
begin

definition less_eq_slog_level :: "slog_level \<Rightarrow> slog_level \<Rightarrow> bool" where
  "less_eq_slog_level a b \<longleftrightarrow> level_value a \<le> level_value b"

definition less_slog_level :: "slog_level \<Rightarrow> slog_level \<Rightarrow> bool" where
  "less_slog_level a b \<longleftrightarrow> level_value a < level_value b"

instance
  by standard (auto simp: less_eq_slog_level_def less_slog_level_def level_value_inject
      order_le_less_trans dest: order_antisym)

end

definition parseLevel :: "string \<Rightarrow> slog_level" where
  "parseLevel logLevel =
    (let level = ToUpper (TrimSpace logLevel)
     in if level = ''DEBUG'' then LevelDebug
        else if level = ''WARN'' then LevelWarn
        else if level = ''ERROR'' then LevelError
        else LevelInfo)"

text \<open>A logger writes the records at or above its level.\<close>

definition NewLogger :: "string \<Rightarrow> slog_level \<Rightarrow> bool" where
  "NewLogger logLevel = (\<lambda>record_level. parseLevel logLevel \<le> record_level)"

section \<open>Ranges and round trips\<close>

lemma parse_parts_bound: "parse_parts frac d s = Inr n \<Longrightarrow> d \<le> 2 ^ 63 \<Longrightarrow> n \<le> 2 ^ 63"
proof (induction frac d s rule: parse_parts.induct)
  case (1 frac d s)
  show ?case
  proof (cases "s = []")
    case True
    then show ?thesis using "1.prems" by (simp add: parse_parts.simps [of frac d "[]"])
  next
    case False
    then obtain v rest where part: "duration_part frac s = Inr (v, rest)" and "\<not> d + v > 2 ^ 63"
      and "parse_parts frac (d + v) rest = Inr n"
      using "1.prems"(1) by (auto simp: parse_parts.simps [of frac d s] split: sum.splits if_splits)
    then show ?thesis using "1.IH" [OF False part refl] by simp
  qed
qed

lemma ParseDuration_int64: "ParseDuration frac s = Inr d \<Longrightarrow> int64 d"
  using parse_parts_bound [of frac 0]
  by (fastforce simp: ParseDuration_def int64_def split_def Let_def split: if_splits sum.splits)

lemma ParseInt64_int64: "ParseInt64 s = Inr i \<Longrightarrow> int64 i"
  by (auto simp: ParseInt64_def split_def Let_def split: if_splits option.splits)

lemma parse_failure_Inr: "parse_failure v r = Inr x \<longleftrightarrow> r = Inr x"
  by (cases r) (simp_all add: parse_failure_def)

lemma parsed_int64:
  "parseIntEnvironment env v i = Inr x \<Longrightarrow> int64 x"
  "parseInt64Environment env v i = Inr x \<Longrightarrow> int64 x"
  "parseDurationEnvironment frac env v i = Inr x \<Longrightarrow> int64 x"
  by (auto simp: parseIntEnvironment_def parseInt64Environment_def parseDurationEnvironment_def
      parse_failure_Inr Atoi_def dest: ParseInt64_int64 ParseDuration_int64)

definition unset :: "environment \<Rightarrow> string \<Rightarrow> bool" where
  "unset env v \<longleftrightarrow> (case env v of None \<Rightarrow> True | Some value \<Rightarrow> TrimSpace value = [])"

lemma readEnvironment_unset: "unset env v \<Longrightarrow> readEnvironment env v d = d"
  by (auto simp: unset_def readEnvironment_def split: option.splits)

lemma parse_unset:
  assumes "unset env v"
  shows "int64 i \<Longrightarrow> parseIntEnvironment env v i = Inr i"
    and "int64 i \<Longrightarrow> parseInt64Environment env v i = Inr i"
    and "0 < k \<Longrightarrow> k < 2 ^ 63 div 1000000000 \<Longrightarrow>
      parseDurationEnvironment frac env v (int k * 1000000000) = Inr (int k * 1000000000)"
    and "0 < k \<Longrightarrow> k < 1000 \<Longrightarrow> parseDurationEnvironment frac env v (int k * 1000000) = Inr (int k * 1000000)"
  using assms
  by (simp_all add: parseIntEnvironment_def parseInt64Environment_def parseDurationEnvironment_def
      readEnvironment_unset Atoi_Itoa ParseInt64_Itoa ParseDuration_seconds ParseDuration_milliseconds
      parse_failure_def)

lemma parse_unset_seconds:
  "unset env v \<Longrightarrow> parseDurationEnvironment frac env v 1000000000 = Inr 1000000000"
  "unset env v \<Longrightarrow> parseDurationEnvironment frac env v 2000000000 = Inr 2000000000"
  "unset env v \<Longrightarrow> parseDurationEnvironment frac env v 5000000000 = Inr 5000000000"
  "unset env v \<Longrightarrow> parseDurationEnvironment frac env v 15000000000 = Inr 15000000000"
  "unset env v \<Longrightarrow> parseDurationEnvironment frac env v 250000000 = Inr 250000000"
  using parse_unset(3) [of env v 1 frac] parse_unset(3) [of env v 2 frac] parse_unset(3) [of env v 5 frac]
    parse_unset(3) [of env v 15 frac] parse_unset(4) [of env v 250 frac] by simp_all

section \<open>Properties\<close>

text \<open>
  C31. With nothing configured but the database, the notifier starts with its documented defaults:
  every default survives being formatted and parsed back, blank variables count as unset, and 4
  workers get a scheduled-queue limit of 40.
\<close>

theorem notifier_config_defaults:
  assumes "env ''NOTIFIER_POSTGRES_DSN'' = Some dsn" and "TrimSpace dsn \<noteq> []"
    and "\<And>v. v \<noteq> ''NOTIFIER_POSTGRES_DSN'' \<Longrightarrow> unset env v"
  shows "\<exists>cfg. LoadNotifierConfig frac env = Inr cfg \<and>
    HTTPAddress cfg = '':28080'' \<and> WorkerCount cfg = 4 \<and> RequestTimeout cfg = 5 * Second \<and>
    MaxRetryAttempts cfg = 3 \<and> InitialRetryDelay cfg = Second \<and> QueueClaimBatchSize cfg = 32 \<and>
    QueuePollInterval cfg = 250 * Millisecond \<and> SchedulerBufferMultiplier cfg = 4 \<and>
    ScheduledQueueLimitFactor cfg = 10 \<and> MetricsReportInterval cfg = 2 * Second \<and>
    ShutdownTimeout cfg = 5 * Second \<and> LogLevel cfg = ''INFO'' \<and> PostgresConnection cfg = dsn \<and>
    ScheduledQueueLimit cfg = 40"
proof -
  have "readEnvironment env ''NOTIFIER_POSTGRES_DSN'' [] = dsn"
    using assms(1,2) by (simp add: readEnvironment_def)
  moreover have "int64 4" "int64 3" "int64 32" "int64 10" "int64 40" by (simp_all add: int64_def)
  ultimately show ?thesis
    using assms(2)
    by (simp add: LoadNotifierConfig_def config_defaults assms(3) parse_unset(1) parse_unset_seconds
        readEnvironment_unset ScheduledQueueLimit_def go_arith)
qed

theorem notifier_config_defaults_witness:
  "\<exists>cfg. LoadNotifierConfig (\<lambda>f n u. 0) [''NOTIFIER_POSTGRES_DSN'' \<mapsto> ''postgres://db'', ''NOTIFIER_LOG_LEVEL'' \<mapsto> []] =
    Inr cfg \<and> WorkerCount cfg = 4 \<and> ScheduledQueueLimit cfg = 40"
proof -
  have trim: "TrimSpace ''postgres://db'' \<noteq> []" "TrimSpace [] = []" by code_simp+
  show ?thesis
    using notifier_config_defaults [of "[''NOTIFIER_POSTGRES_DSN'' \<mapsto> ''postgres://db'', ''NOTIFIER_LOG_LEVEL'' \<mapsto> []]"
        "''postgres://db''" "\<lambda>f n u. 0"] trim
    by (fastforce simp: unset_def)
qed

text \<open>
  A configuration that loads is one whose numbers are in range and whose database is named; an
  unparsable or out-of-range variable is never replaced by a default. The scheduled-queue limit of
  such a configuration is positive whenever workers times factor does not overflow, also when one
  of the two is configured as zero or negative.
\<close>

theorem notifier_config_checked:
  assumes "LoadNotifierConfig frac env = Inr cfg"
  shows "list_all int64 [WorkerCount cfg, RequestTimeout cfg, MaxRetryAttempts cfg, InitialRetryDelay cfg,
      QueueClaimBatchSize cfg, QueuePollInterval cfg, SchedulerBufferMultiplier cfg,
      ScheduledQueueLimitFactor cfg, MetricsReportInterval cfg, ShutdownTimeout cfg] \<and>
    TrimSpace (PostgresConnection cfg) \<noteq> [] \<and>
    parseIntEnvironment env ''NOTIFIER_WORKER_COUNT'' 4 = Inr (WorkerCount cfg) \<and>
    parseIntEnvironment env ''NOTIFIER_MAX_RETRY_ATTEMPTS'' 3 = Inr (MaxRetryAttempts cfg) \<and>
    parseIntEnvironment env ''NOTIFIER_QUEUE_CLAIM_BATCH_SIZE'' 32 = Inr (QueueClaimBatchSize cfg) \<and>
    (max 1 (WorkerCount cfg) * (if ScheduledQueueLimitFactor cfg \<le> 0 then 10 else ScheduledQueueLimitFactor cfg) \<le> MaxInt64 \<longrightarrow>
       0 < ScheduledQueueLimit cfg)"
proof -
  have "0 < ScheduledQueueLimit cfg"
    if "max 1 (WorkerCount cfg) * (if ScheduledQueueLimitFactor cfg \<le> 0 then 10 else ScheduledQueueLimitFactor cfg) \<le> MaxInt64"
  proof -
    let ?p = "max 1 (WorkerCount cfg) * (if ScheduledQueueLimitFactor cfg \<le> 0 then 10 else ScheduledQueueLimitFactor cfg)"
    have pos: "0 < ?p" by (intro mult_pos_pos) auto
    then have "- (2 ^ 63) \<le> ?p" by (rule order_trans [rotated, OF less_imp_le]) simp
    then have "int64 ?p" using that unfolding int64_def by linarith
    moreover have "ScheduledQueueLimit cfg = wrap64 ?p"
      by (auto simp: ScheduledQueueLimit_def Let_def config_defaults max_def)
    ultimately show ?thesis using pos by (simp add: go_arith)
  qed
  then show ?thesis
    using assms by (auto simp: LoadNotifierConfig_def bind_result_Inr_iff Let_def config_defaults
        dest: parsed_int64 split: if_splits)
qed

theorem notifier_config_checked_witness:
  "\<exists>cfg. LoadNotifierConfig (\<lambda>f n u. 0) [''NOTIFIER_POSTGRES_DSN'' \<mapsto> ''db''] = Inr cfg \<and> int64 (WorkerCount cfg)"
proof -
  have "TrimSpace ''db'' \<noteq> []" by code_simp
  then have "\<exists>cfg. LoadNotifierConfig (\<lambda>f n u. 0) [''NOTIFIER_POSTGRES_DSN'' \<mapsto> ''db''] = Inr cfg"
    by (simp add: LoadNotifierConfig_def config_defaults parse_unset(1) parse_unset_seconds unset_def
        readEnvironment_def int64_def)
  then show ?thesis using notifier_config_checked by fastforce
qed

text \<open>
  Log levels, by the configured text after trimming spaces and ignoring the letter case: ERROR
  records are always written, INFO records unless WARN or ERROR is configured, DEBUG records only
  for DEBUG (every other text means INFO), and a logger that writes a level writes all above it.
\<close>

theorem log_level_threshold:
  "NewLogger s LevelError \<and>
   (NewLogger s LevelInfo \<longleftrightarrow> ToUpper (TrimSpace s) \<notin> {''WARN'', ''ERROR''}) \<and>
   (NewLogger s LevelDebug \<longleftrightarrow> ToUpper (TrimSpace s) = ''DEBUG'') \<and>
   (NewLogger s l \<and> l \<le> l' \<longrightarrow> NewLogger s l') \<and>
   parseLevel ''Warn '' = LevelWarn"
proof -
  have "parseLevel ''Warn '' = LevelWarn" by code_simp
  moreover have "NewLogger s l \<and> l \<le> l' \<longrightarrow> NewLogger s l'" by (auto simp: NewLogger_def)
  ultimately show ?thesis
    by (auto simp: NewLogger_def parseLevel_def Let_def less_eq_slog_level_def)
qed

end
