(* ===== verification/Registration.thy ===== *)
theory Registration
  imports Contracts
begin

text \<open>
  The webhook registrations (\<open>internal/registration/postgres.go\<close>) and the fixed registry of the
  benchmark (\<open>internal/notifier/benchmark_support.go\<close>, \<open>benchmarkRegistry\<close>). The two SQL queries
  are configuration strings, so what the database answers to a query is an argument: an error of
  the query, or the rows with the outcome of scanning each of them, and the error that ended the
  iteration, if any. The locale \<open>webhook_registry\<close> states what the notifier relies on.
\<close>

section \<open>The PostgreSQL registry\<close>

record 'r query_answer =
  query_error :: "go_error option"
  scanned :: "(go_error + 'r) list"
  iterate_error :: "go_error option"

record registry_db =
  answer_resolve :: "go_context \<Rightarrow> string \<Rightarrow> string \<Rightarrow> string query_answer"
  answer_snapshot :: "go_context \<Rightarrow> string \<Rightarrow> (string \<times> string) query_answer"

record PostgresRegistry =
  databaseConnection :: registry_db
  resolveQuery :: string
  snapshotQuery :: string

text \<open>\<open>openPostgresConnection\<close> is \<open>sql.Open\<close>.\<close>

definition NewPostgresRegistryWithDatabaseConnection :: "registry_db \<Rightarrow> string \<Rightarrow> string \<Rightarrow> PostgresRegistry" where
  "NewPostgresRegistryWithDatabaseConnection db resolve snapshot =
    \<lparr>databaseConnection = db, resolveQuery = resolve, snapshotQuery = snapshot\<rparr>"

definition NewPostgresRegistry :: "(string \<Rightarrow> go_error + registry_db) \<Rightarrow> string \<Rightarrow> string \<Rightarrow> string \<Rightarrow>
    go_error + PostgresRegistry" where
  "NewPostgresRegistry openPostgresConnection connectionString resolve snapshot =
    (case openPostgresConnection connectionString of
       Inl e \<Rightarrow> Inl (Wrap ''open postgres connection'' e)
     | Inr db \<Rightarrow> Inr (NewPostgresRegistryWithDatabaseConnection db resolve snapshot))"

fun collect_urls :: "go_error option \<Rightarrow> (go_error + string) list \<Rightarrow> string list \<Rightarrow> go_error + string list" where
  "collect_urls ended [] webhookURLs =
    (case ended of
       Some e \<Rightarrow> Inl (Wrap ''iterate webhook registrations'' e)
     | None \<Rightarrow> if webhookURLs = [] then Inl ErrCustomerNotRegistered else Inr webhookURLs)"
| "collect_urls ended (Inl e # rest) webhookURLs = Inl (Wrap ''scan webhook registration'' e)"
| "collect_urls ended (Inr webhookURL # rest) webhookURLs = collect_urls ended rest (webhookURLs @ [webhookURL])"

definition ResolveWebhookURLs :: "PostgresRegistry \<Rightarrow> go_context \<Rightarrow> string \<Rightarrow> go_error + string list" where
  "ResolveWebhookURLs registry ctx customerID =
    (let answer = answer_resolve (databaseConnection registry) ctx (resolveQuery registry) customerID
     in case query_error answer of
          Some e \<Rightarrow> Inl (Wrap ''query webhook registrations'' e)
        | None \<Rightarrow> collect_urls (iterate_error answer) (scanned answer) [])"

definition append_url :: "(string \<rightharpoonup> string list) \<Rightarrow> string \<Rightarrow> string \<Rightarrow> (string \<rightharpoonup> string list)" where
  "append_url snapshot customerID webhookURL =
    snapshot(customerID \<mapsto> (case snapshot customerID of None \<Rightarrow> [] | Some urls \<Rightarrow> urls) @ [webhookURL])"

fun collect_snapshot :: "go_error option \<Rightarrow> (go_error + string \<times> string) list \<Rightarrow> (string \<rightharpoonup> string list) \<Rightarrow>
    go_error + (string \<rightharpoonup> string list)" where
  "collect_snapshot ended [] snapshot =
    (case ended of
       Some e \<Rightarrow> Inl (Wrap ''iterate webhook registration snapshot'' e) | None \<Rightarrow> Inr snapshot)"
| "collect_snapshot ended (Inl e # rest) snapshot = Inl (Wrap ''scan webhook registration snapshot'' e)"
| "collect_snapshot ended (Inr (customerID, webhookURL) # rest) snapshot =
    collect_snapshot ended rest (append_url snapshot customerID webhookURL)"

definition Snapshot :: "PostgresRegistry \<Rightarrow> go_context \<Rightarrow> go_error + (string \<rightharpoonup> string list)" where
  "Snapshot registry ctx =
    (let answer = answer_snapshot (databaseConnection registry) ctx (snapshotQuery registry)
     in case query_error answer of
          Some e \<Rightarrow> Inl (Wrap ''query webhook registration snapshot'' e)
        | None \<Rightarrow> collect_snapshot (iterate_error answer) (scanned answer) Map.empty)"

definition Ping :: "go_error option \<Rightarrow> go_error option" where
  "Ping pingError = map_option (Wrap ''ping postgres connection'') pingError"

definition CloseRegistry :: "bool \<Rightarrow> go_error option \<Rightarrow> go_error option" where
  "CloseRegistry connected closeError =
    (if \<not> connected then None
     else case closeError of
       None \<Rightarrow> None | Some e \<Rightarrow> if errors_Is e ErrConnDone then None else Some e)"

definition postgres_registry :: "PostgresRegistry \<Rightarrow> Registry" where
  "postgres_registry registry =
    \<lparr>reg_ResolveWebhookURLs = ResolveWebhookURLs registry, reg_Snapshot = Snapshot registry\<rparr>"

section \<open>The benchmark's registry\<close>

record benchmarkRegistry =
  webhookURLsByCustomerID :: "string \<rightharpoonup> string list"

definition newBenchmarkRegistry :: "(string \<rightharpoonup> go_int) \<Rightarrow> benchmarkRegistry" where
  "newBenchmarkRegistry eventsPerCustomer =
    \<lparr>webhookURLsByCustomerID = (\<lambda>customerID.
       map_option (\<lambda>_. [''benchmark://'' @ customerID]) (eventsPerCustomer customerID))\<rparr>"

definition bench_ResolveWebhookURLs :: "benchmarkRegistry \<Rightarrow> go_context \<Rightarrow> string \<Rightarrow> go_error + string list" where
  "bench_ResolveWebhookURLs registry ctx customerID =
    (case webhookURLsByCustomerID registry customerID of
       None \<Rightarrow> Inl ErrCustomerNotRegistered | Some urls \<Rightarrow> Inr urls)"

definition bench_Snapshot :: "benchmarkRegistry \<Rightarrow> go_context \<Rightarrow> go_error + (string \<rightharpoonup> string list)" where
  "bench_Snapshot registry ctx = Inr (webhookURLsByCustomerID registry)"

definition benchmark_registry :: "benchmarkRegistry \<Rightarrow> Registry" where
  "benchmark_registry registry =
    \<lparr>reg_ResolveWebhookURLs = bench_ResolveWebhookURLs registry, reg_Snapshot = bench_Snapshot registry\<rparr>"

section \<open>What the scans compute\<close>

text \<open>A scan either reads every row or stops with an error that is not about a missing customer.\<close>

lemma collect_urls_all:
  "collect_urls ended (map Inr urls) acc = (case ended of
     Some e \<Rightarrow> Inl (Wrap ''iterate webhook registrations'' e)
   | None \<Rightarrow> if acc @ urls = [] then Inl ErrCustomerNotRegistered else Inr (acc @ urls))"
  by (induction urls arbitrary: acc) (auto split: option.split)

lemma collect_urls_Inr:
  "collect_urls ended rs acc = Inr urls \<Longrightarrow> urls \<noteq> [] \<and> ended = None \<and> map Inr urls = map Inr acc @ rs"
  by (induction ended rs acc rule: collect_urls.induct) (auto split: option.splits if_splits)

lemma collect_urls_missing:
  "collect_urls ended rs acc = Inl ErrCustomerNotRegistered \<longleftrightarrow> acc = [] \<and> rs = [] \<and> ended = None"
  by (induction ended rs acc rule: collect_urls.induct) (auto split: option.splits if_splits)

definition urls_of :: "string \<Rightarrow> (string \<times> string) list \<Rightarrow> string list" where
  "urls_of customerID pairs = map snd (filter (\<lambda>(c, u). c = customerID) pairs)"

definition listed :: "string list \<Rightarrow> string list option" where
  "listed urls = (if urls = [] then None else Some urls)"

lemma collect_snapshot_all:
  "collect_snapshot None (map Inr pairs) snapshot =
    Inr (\<lambda>c. listed ((case snapshot c of None \<Rightarrow> [] | Some urls \<Rightarrow> urls) @ urls_of c pairs))"
  if "\<forall>c. snapshot c \<noteq> Some []"
  using that
proof (induction pairs arbitrary: snapshot)
  case Nil
  then show ?case by (auto simp: urls_of_def listed_def fun_eq_iff split: option.split)
next
  case (Cons p pairs)
  obtain c u where p: "p = (c, u)" by fastforce
  have "\<forall>d. append_url snapshot c u d \<noteq> Some []" using Cons.prems by (simp add: append_url_def)
  moreover have "(case append_url snapshot c u d of None \<Rightarrow> [] | Some urls \<Rightarrow> urls) @ urls_of d pairs =
      (case snapshot d of None \<Rightarrow> [] | Some urls \<Rightarrow> urls) @ urls_of d (p # pairs)" for d
    by (simp add: p urls_of_def append_url_def)
  ultimately show ?case using Cons.IH [of "append_url snapshot c u"] by (simp add: p)
qed

lemma collect_snapshot_Inr:
  "collect_snapshot ended rs snapshot = Inr m \<Longrightarrow> ended = None \<and> (\<exists>pairs. rs = map Inr pairs)"
proof (induction ended rs snapshot rule: collect_snapshot.induct)
  case (3 ended c u rest snapshot)
  then obtain pairs where "ended = None" "rest = map Inr pairs" by auto
  then show ?case by (intro conjI exI [of _ "(c, u) # pairs"]) auto
qed (auto split: option.splits)

section \<open>The contract of a registry\<close>

locale webhook_registry =
  fixes reg :: Registry
  assumes resolve_nonempty: "reg_ResolveWebhookURLs reg ctx c = Inr urls \<Longrightarrow> urls \<noteq> []"
begin

lemma resolve_count: "reg_ResolveWebhookURLs reg ctx c = Inr urls \<Longrightarrow> 0 < int (length urls)"
  using resolve_nonempty by auto

end

interpretation pg_registry: webhook_registry "postgres_registry registry" for registry
  by unfold_locales
     (auto simp: postgres_registry_def ResolveWebhookURLs_def Let_def split: option.splits dest: collect_urls_Inr)

interpretation bench_registry: webhook_registry "benchmark_registry (newBenchmarkRegistry events)" for events
  by unfold_locales
     (auto simp: benchmark_registry_def bench_ResolveWebhookURLs_def newBenchmarkRegistry_def split: option.splits)

section \<open>Properties\<close>

text \<open>
  C26. Resolving a customer returns, in order, the URLs of all rows the query answers with, never a
  part of them and never an empty list: any failure of the query, of a scan or of the iteration is
  reported, and \<open>ErrCustomerNotRegistered\<close> is reported exactly when the query succeeded and
  answered with no row, so that a database failure is never taken for a missing registration.
\<close>

theorem resolve_is_all_or_error:
  "let answer = answer_resolve (databaseConnection registry) ctx (resolveQuery registry) customerID
   in (\<forall>urls. ResolveWebhookURLs registry ctx customerID = Inr urls \<longleftrightarrow>
         query_error answer = None \<and> iterate_error answer = None \<and> scanned answer = map Inr urls \<and> urls \<noteq> []) \<and>
      (ResolveWebhookURLs registry ctx customerID = Inl ErrCustomerNotRegistered \<longleftrightarrow>
         query_error answer = None \<and> iterate_error answer = None \<and> scanned answer = [])"
proof -
  let ?answer = "answer_resolve (databaseConnection registry) ctx (resolveQuery registry) customerID"
  have "collect_urls None (scanned ?answer) [] = Inr urls \<longleftrightarrow> scanned ?answer = map Inr urls \<and> urls \<noteq> []" for urls
    using collect_urls_Inr [of None "scanned ?answer" "[]" urls] collect_urls_all [of None urls "[]"] by auto
  moreover have "collect_urls (Some e) (scanned ?answer) [] \<noteq> Inr urls" for e urls
    using collect_urls_Inr by blast
  ultimately show ?thesis
    by (cases "query_error ?answer"; cases "iterate_error ?answer")
       (simp_all add: ResolveWebhookURLs_def Let_def collect_urls_missing)
qed

text \<open>
  C27. The snapshot of the registrations agrees with resolving each customer: when the resolve query
  answers for every customer with that customer's rows of the snapshot query, in the same order,
  then the snapshot lists a customer exactly when resolving it succeeds, with the same URLs.
\<close>

theorem snapshot_agrees_with_resolve:
  assumes "Snapshot registry ctx = Inr snapshot"
    and "\<And>c. answer_resolve (databaseConnection registry) ctx (resolveQuery registry) c =
      \<lparr>query_error = None,
       scanned = map (map_sum id snd) (filter (\<lambda>r. case r of Inl e \<Rightarrow> True | Inr (d, u) \<Rightarrow> d = c)
         (scanned (answer_snapshot (databaseConnection registry) ctx (snapshotQuery registry)))),
       iterate_error = None\<rparr>"
  shows "snapshot customerID = (case ResolveWebhookURLs registry ctx customerID of
    Inl e \<Rightarrow> None | Inr urls \<Rightarrow> Some urls)"
proof -
  let ?answer = "answer_snapshot (databaseConnection registry) ctx (snapshotQuery registry)"
  have collect: "collect_snapshot (iterate_error ?answer) (scanned ?answer) Map.empty = Inr snapshot"
    using assms(1) by (auto simp: Snapshot_def Let_def split: option.splits)
  then obtain pairs where pairs: "iterate_error ?answer = None" "scanned ?answer = map Inr pairs"
    using collect_snapshot_Inr by blast
  have "snapshot = (\<lambda>c. listed (urls_of c pairs))"
    using collect collect_snapshot_all [of Map.empty pairs] by (simp add: pairs)
  moreover have "map (map_sum id snd) (filter (case_sum (\<lambda>e. True) (\<lambda>(d, u). d = customerID))
      (map Inr pairs)) = (map Inr (urls_of customerID pairs) :: (go_error + string) list)"
    by (induction pairs) (auto simp: urls_of_def)
  ultimately show ?thesis
    by (simp add: ResolveWebhookURLs_def Let_def assms(2) pairs collect_urls_all listed_def)
qed

text \<open>Registrations of two customers, answered by both queries.\<close>

definition sample_pairs :: "(string \<times> string) list" where
  "sample_pairs = [(''a'', ''https://a/1''), (''a'', ''https://a/2''), (''b'', ''https://b/1'')]"

definition sample_registry :: PostgresRegistry where
  "sample_registry = NewPostgresRegistryWithDatabaseConnection
    \<lparr>answer_resolve = (\<lambda>ctx query c. \<lparr>query_error = None, scanned = map Inr (urls_of c sample_pairs), iterate_error = None\<rparr>),
     answer_snapshot = (\<lambda>ctx query. \<lparr>query_error = None, scanned = map Inr sample_pairs, iterate_error = None\<rparr>)\<rparr>
    ''resolve'' ''snapshot''"

theorem snapshot_agrees_with_resolve_witness:
  "\<exists>snapshot. Snapshot sample_registry None = Inr snapshot \<and> snapshot ''a'' = Some [''https://a/1'', ''https://a/2''] \<and>
     snapshot ''c'' = None"
proof -
  obtain snapshot where snap: "Snapshot sample_registry None = Inr snapshot"
    by (simp add: Snapshot_def sample_registry_def NewPostgresRegistryWithDatabaseConnection_def sample_pairs_def)
  have "snapshot c = (case ResolveWebhookURLs sample_registry None c of Inl e \<Rightarrow> None | Inr urls \<Rightarrow> Some urls)" for c
    using snap
    by (rule snapshot_agrees_with_resolve)
       (simp add: sample_registry_def NewPostgresRegistryWithDatabaseConnection_def sample_pairs_def urls_of_def)
  then show ?thesis
    using snap by (simp add: ResolveWebhookURLs_def sample_registry_def
        NewPostgresRegistryWithDatabaseConnection_def sample_pairs_def urls_of_def)
qed

end
