(* ===== verification/Delivery.thy ===== *)
theory Delivery
  imports Contracts Go_Strings
begin

text \<open>
  One delivery attempt: the HTTP client (\<open>internal/delivery/http_client.go\<close>) and the synthetic
  client of the benchmark (\<open>benchmarkDeliveryClient\<close> in \<open>internal/notifier/benchmark_support.go\<close>).
  What the attempt meets is the record \<open>http_env\<close>: the JSON text of an event, whether a URL makes a
  request, what \<open>http.Client.Do\<close> returns for a request, and the instants of the successive calls of
  \<open>time.Now\<close>. An error of the transport is one that implements \<open>net.Error\<close>, with its text and its
  two answers, or another one with its text only. The locale \<open>delivery_client\<close> is what the worker
  relies on.
\<close>

section \<open>Requests and responses\<close>

datatype transport_error = NetError string bool bool | OtherError string

fun transport_text :: "transport_error \<Rightarrow> string" where
  "transport_text (NetError text timeout temporary) = text"
| "transport_text (OtherError text) = text"

record http_request =
  req_method :: string
  req_url :: string
  req_header :: "string \<rightharpoonup> string list"
  req_body :: string

record http_response =
  resp_StatusCode :: go_int
  resp_Body :: string

record http_env =
  marshal :: "SubscriberEvent \<Rightarrow> go_error + string"
  request_fault :: "string \<Rightarrow> go_error option"
  http_do :: "duration \<Rightarrow> go_context \<Rightarrow> http_request \<Rightarrow> transport_error + http_response"
  http_clock :: "nat \<Rightarrow> time"

record HTTPClient =
  Timeout :: duration

definition NewHTTPClient :: "duration \<Rightarrow> HTTPClient" where
  "NewHTTPClient requestTimeout = \<lparr>Timeout = requestTimeout\<rparr>"

text \<open>\<open>Header.Set\<close> stores under the canonical key: a letter is upper case at the start and after a hyphen.\<close>

fun canonical_key :: "bool \<Rightarrow> string \<Rightarrow> string" where
  "canonical_key upper [] = []"
| "canonical_key upper (c # cs) =
    (if upper then upper_char c else lower_char c) # canonical_key (c = CHR ''-'') cs"

definition header_set :: "string \<Rightarrow> string \<Rightarrow> (string \<rightharpoonup> string list) \<Rightarrow> (string \<rightharpoonup> string list)" where
  "header_set key value header = header(canonical_key True key \<mapsto> [value])"

section \<open>Deliver\<close>

fun isRetryableTransportError :: "transport_error \<Rightarrow> bool" where
  "isRetryableTransportError (NetError text timeout temporary) \<longleftrightarrow> timeout \<or> temporary"
| "isRetryableTransportError (OtherError text) \<longleftrightarrow>
    (let lowerError = ToLower text
     in Contains lowerError ''timeout'' \<or> Contains lowerError ''connection reset'' \<or>
        Contains lowerError ''connection refused'')"

definition isRetryableStatusCode :: "go_int \<Rightarrow> bool" where
  "isRetryableStatusCode statusCode \<longleftrightarrow> statusCode = 429 \<or> (statusCode \<ge> 500 \<and> statusCode \<le> 599)"

definition delivery_request :: "DeliveryJob \<Rightarrow> string \<Rightarrow> http_request" where
  "delivery_request job requestBody =
    (let header = header_set ''X-Retry-Attempt'' (Itoa (Attempt job))
           (header_set ''X-Customer-ID'' (CustomerID (Event job))
             (header_set ''X-Event-ID'' (EventID (Event job))
               (header_set ''Content-Type'' ''application/json'' Map.empty)))
     in \<lparr>req_method = ''POST'', req_url = WebhookURL job,
         req_header = (if TraceID job \<noteq> [] then header_set ''X-Trace-ID'' (TraceID job) header else header),
         req_body = requestBody\<rparr>)"

text \<open>A result with the zero values of the fields the source leaves out.\<close>

definition attempt_result :: "http_env \<Rightarrow> DeliveryJob \<Rightarrow> DeliveryResult" where
  "attempt_result env job =
    \<lparr>ResultJob = job, StatusCode = 0, Duration = time_Sub (http_clock env 1) (http_clock env 0), ShouldRetry = False,
     FailureReason = [], ResponseBody = [], CompletedAt = http_clock env 2\<rparr>"

definition Deliver :: "http_env \<Rightarrow> HTTPClient \<Rightarrow> go_context \<Rightarrow> DeliveryJob \<Rightarrow> DeliveryResult" where
  "Deliver env client ctx job =
    (case marshal env (Event job) of
       Inl e \<Rightarrow> (attempt_result env job)\<lparr>FailureReason := ''marshal payload: '' @ error_text e\<rparr>
     | Inr requestBody \<Rightarrow>
        (case request_fault env (WebhookURL job) of
           Some e \<Rightarrow> (attempt_result env job)\<lparr>FailureReason := ''create request: '' @ error_text e\<rparr>
         | None \<Rightarrow>
            (case http_do env (Timeout client) ctx (delivery_request job requestBody) of
               Inl e \<Rightarrow> (attempt_result env job)\<lparr>ShouldRetry := isRetryableTransportError e,
                         FailureReason := transport_text e\<rparr>
             | Inr response \<Rightarrow>
                (let result = (attempt_result env job)\<lparr>StatusCode := resp_StatusCode response,
                       ResponseBody := take 1024 (resp_Body response)\<rparr>
                 in if resp_StatusCode response \<ge> 200 \<and> resp_StatusCode response < 300 then result
                    else result\<lparr>FailureReason := ''webhook returned status '' @ Itoa (resp_StatusCode response),
                           ShouldRetry := isRetryableStatusCode (resp_StatusCode response)\<rparr>))))"

section \<open>The benchmark's client\<close>

record benchmarkDeliveryClient =
  syntheticWorkIterations :: go_int
  hasOnCompletion :: bool

definition bench_payload :: "DeliveryJob \<Rightarrow> string" where
  "bench_payload job =
    (let payload = EventID (Event job) @ CustomerID (Event job) @ SubscriberID (Event job)
     in if payload = [] then ''event'' else payload)"

text \<open>The loop over the iteration index; \<open>n\<close> iterations are left. Indexing out of range panics (\<open>None\<close>).\<close>

fun bench_checksum :: "string \<Rightarrow> nat \<Rightarrow> nat \<Rightarrow> int \<Rightarrow> int option" where
  "bench_checksum payload i 0 checksum = Some checksum"
| "bench_checksum payload i (Suc n) checksum =
    (let payloadIndex = i mod length payload
     in if payloadIndex < length payload
        then bench_checksum payload (Suc i) n (wrap64 (checksum + (int (of_char (payload ! payloadIndex)) + int i)))
        else None)"

text \<open>The result, the new value of the global sink, and the call of \<open>onCompletion\<close>, if one is set.\<close>

definition bench_Deliver :: "(nat \<Rightarrow> time) \<Rightarrow> benchmarkDeliveryClient \<Rightarrow> int \<Rightarrow> go_context \<Rightarrow> DeliveryJob \<Rightarrow>
    (DeliveryResult \<times> int \<times> (string \<times> time) list) option" where
  "bench_Deliver now client sink ctx job =
    map_option (\<lambda>checksum.
      (\<lparr>ResultJob = job, StatusCode = 202, Duration = time_Sub (now 1) (now 0), ShouldRetry = False,
        FailureReason = [], ResponseBody = [], CompletedAt = now 1\<rparr>,
       wrap64 (sink + checksum),
       if hasOnCompletion client then [(CustomerID (Event job), now 1)] else []))
     (bench_checksum (bench_payload job) 0 (nat (syntheticWorkIterations client)) 0)"

lemma bench_checksum_total: "payload \<noteq> [] \<Longrightarrow> \<exists>c. bench_checksum payload i n acc = Some c"
  by (induction payload i n acc rule: bench_checksum.induct) simp_all

lemma bench_Deliver_total:
  "\<exists>sink' calls. bench_Deliver now client sink ctx job =
    Some (\<lparr>ResultJob = job, StatusCode = 202, Duration = time_Sub (now 1) (now 0), ShouldRetry = False,
        FailureReason = [], ResponseBody = [], CompletedAt = now 1\<rparr>, sink', calls)"
  using bench_checksum_total [of "bench_payload job" 0 "nat (syntheticWorkIterations client)" 0]
  by (auto simp: bench_Deliver_def bench_payload_def Let_def)

section \<open>The contract of a delivery client\<close>

text \<open>
  The worker relies on a client for two things: a result speaks of the job it was asked to deliver,
  and a delivered webhook is not one to retry.
\<close>

locale delivery_client =
  fixes deliver :: deliveryClient
  assumes result_job: "ResultJob (deliver ctx job) = job"
    and success_final: "is_2xx (StatusCode (deliver ctx job)) \<Longrightarrow> \<not> ShouldRetry (deliver ctx job)"
begin

lemma retry_not_success: "ShouldRetry (deliver ctx job) \<Longrightarrow> \<not> is_2xx (StatusCode (deliver ctx job))"
  using success_final by blast

end

interpretation http: delivery_client "Deliver env client" for env client
  by unfold_locales
     (auto simp: Deliver_def Let_def attempt_result_def split: sum.splits option.splits if_splits)

interpretation bench_client: delivery_client "\<lambda>ctx job. fst (the (bench_Deliver now client sink ctx job))"
  for now client sink
proof unfold_locales
  fix ctx job
  show "ResultJob (fst (the (bench_Deliver now client sink ctx job))) = job"
    using bench_Deliver_total [of now client sink ctx job] by auto
  show "\<not> ShouldRetry (fst (the (bench_Deliver now client sink ctx job)))"
    using bench_Deliver_total [of now client sink ctx job] by auto
qed

section \<open>Properties\<close>

text \<open>
  C28. How an attempt is classified. The result carries the job it was asked to deliver and at most
  1024 bytes of the answer. A payload that cannot be encoded or a URL that makes no request is a
  permanent failure that sends nothing. A transport error is retried exactly when it is a timeout
  or temporary (or, if it does not say, when its text mentions a timeout, a reset or a refused
  connection). An answer is a success exactly for 2xx, and is retried exactly for 429 and 5xx;
  every attempt that is not a success has a reason.
\<close>

theorem delivery_classification:
  "let r = Deliver env client ctx job
   in ResultJob r = job \<and> length (ResponseBody r) \<le> 1024 \<and>
      (case marshal env (Event job) of
         Inl e \<Rightarrow> StatusCode r = 0 \<and> \<not> ShouldRetry r \<and> FailureReason r \<noteq> []
       | Inr body \<Rightarrow>
          (if request_fault env (WebhookURL job) \<noteq> None
           then StatusCode r = 0 \<and> \<not> ShouldRetry r \<and> FailureReason r \<noteq> []
           else case http_do env (Timeout client) ctx (delivery_request job body) of
             Inl (NetError text timeout temporary) \<Rightarrow>
               StatusCode r = 0 \<and> (ShouldRetry r \<longleftrightarrow> timeout \<or> temporary) \<and> FailureReason r = text
           | Inl (OtherError text) \<Rightarrow>
               StatusCode r = 0 \<and> FailureReason r = text \<and>
               (ShouldRetry r \<longleftrightarrow> (\<exists>word \<in> {''timeout'', ''connection reset'', ''connection refused''}.
                  \<exists>us vs. ToLower text = us @ word @ vs))
           | Inr response \<Rightarrow>
               StatusCode r = resp_StatusCode response \<and>
               (FailureReason r = [] \<longleftrightarrow> is_2xx (StatusCode r)) \<and>
               (ShouldRetry r \<longleftrightarrow> StatusCode r = 429 \<or> 500 \<le> StatusCode r \<and> StatusCode r \<le> 599)))"
  by (auto simp: Deliver_def Let_def attempt_result_def isRetryableStatusCode_def Contains_iff
      split: sum.split option.split transport_error.split)

text \<open>
  The request of an attempt, as it is handed to \<open>http.Client.Do\<close>: a POST of the encoded event to the
  job's URL, with exactly the headers below (\<open>X-Trace-Id\<close> only for a job with a trace id). This is the
  header map before it is written: \<open>net/http\<close> trims the values it puts on the wire.
\<close>

lemma delivery_request_fields:
  assumes "int64 (Attempt job)"
  shows "let request = delivery_request job body; header = req_header request
   in req_method request = ''POST'' \<and> req_url request = WebhookURL job \<and> req_body request = body \<and>
      dom header = {''Content-Type'', ''X-Event-Id'', ''X-Customer-Id'', ''X-Retry-Attempt''} \<union>
        (if TraceID job = [] then {} else {''X-Trace-Id''}) \<and>
      header ''Content-Type'' = Some [''application/json''] \<and>
      header ''X-Event-Id'' = Some [EventID (Event job)] \<and>
      header ''X-Customer-Id'' = Some [CustomerID (Event job)] \<and>
      (TraceID job \<noteq> [] \<longrightarrow> header ''X-Trace-Id'' = Some [TraceID job]) \<and>
      (\<exists>v. header ''X-Retry-Attempt'' = Some [v] \<and> Atoi v = Inr (Attempt job))"
proof -
  have "canonical_key True ''X-Retry-Attempt'' = ''X-Retry-Attempt''"
    "canonical_key True ''X-Customer-ID'' = ''X-Customer-Id''"
    "canonical_key True ''X-Event-ID'' = ''X-Event-Id''"
    "canonical_key True ''Content-Type'' = ''Content-Type''"
    "canonical_key True ''X-Trace-ID'' = ''X-Trace-Id''"
    by (code_simp)+
  then show ?thesis
    using Atoi_Itoa [OF assms] by (auto simp: delivery_request_def header_set_def Let_def)
qed

end
