(* ===== verification/Retry.thy ===== *)
theory Retry
  imports Go_Prelude
begin

text \<open>
  The exponential backoff policy (\<open>internal/retry/backoff.go\<close>). The doubling loop of \<open>NextDelay\<close>
  counts with a Go \<open>int\<close> and doubles a \<open>time.Duration\<close>, so both wrap around. Its counter never
  passes the largest \<open>int\<close>, so the loop is a partial function whose value \<open>None\<close> means that it
  does not return.
\<close>

record ExponentialBackoffPolicy =
  InitialDelay :: duration
  MaxRetryAttempt :: go_int

partial_function (option) next_delay_loop :: "go_int \<Rightarrow> go_int \<Rightarrow> duration \<Rightarrow> duration option" where
  "next_delay_loop attempt retryAttempt delay =
    (if retryAttempt \<le> attempt
     then next_delay_loop attempt (wrap64 (retryAttempt + 1)) (wrap64 (delay * 2))
     else Some delay)"

definition NextDelay :: "ExponentialBackoffPolicy \<Rightarrow> go_int \<Rightarrow> duration option" where
  "NextDelay policy attempt =
    (if attempt \<le> 0 then Some (InitialDelay policy)
     else next_delay_loop attempt 1 (InitialDelay policy))"

definition CanRetry :: "ExponentialBackoffPolicy \<Rightarrow> go_int \<Rightarrow> bool" where
  "CanRetry policy attempt \<longleftrightarrow> attempt < MaxRetryAttempt policy"

declare next_delay_loop.simps [code]

lemma next_delay_loop_rounds:
  assumes "int64 attempt" and "attempt < MaxInt64" and "- (2 ^ 63) \<le> i" and "i \<le> attempt + 1"
    and "int64 delay"
  shows "next_delay_loop attempt i delay = Some (wrap64 (delay * 2 ^ nat (attempt + 1 - i)))"
  using assms(3-)
proof (induction "nat (attempt + 1 - i)" arbitrary: i delay)
  case 0
  then show ?case by (subst next_delay_loop.simps) (simp add: go_arith)
next
  case (Suc n)
  have i: "i \<le> attempt" using Suc.hyps(2) Suc.prems by linarith
  have step: "wrap64 (i + 1) = i + 1"
    using i assms(1,2) Suc.prems(1) by (simp add: wrap64_int64 int64_def)
  have rounds: "n = nat (attempt + 1 - (i + 1))" using Suc.hyps(2) by linarith
  have "next_delay_loop attempt i delay = next_delay_loop attempt (i + 1) (wrap64 (delay * 2))"
    by (subst next_delay_loop.simps) (simp add: i step)
  also have "\<dots> = Some (wrap64 (wrap64 (delay * 2) * 2 ^ nat (attempt + 1 - (i + 1))))"
    by (rule Suc.hyps(1) [OF rounds]) (use Suc.prems i in simp_all)
  also have "\<dots> = Some (wrap64 (delay * 2 ^ nat (attempt + 1 - i)))"
    using Suc.hyps(2) [symmetric] rounds [symmetric] by (simp add: mult.assoc)
  finally show ?case .
qed

lemma NextDelay_wraps:
  assumes "int64 attempt" and "attempt < MaxInt64" and "int64 (InitialDelay policy)"
  shows "NextDelay policy attempt = Some (wrap64 (InitialDelay policy * 2 ^ nat attempt))"
proof (cases "attempt \<le> 0")
  case True
  then show ?thesis using assms(3) by (simp add: NextDelay_def go_arith)
next
  case False
  then show ?thesis
    using next_delay_loop_rounds [OF assms(1,2) _ _ assms(3), of 1] by (simp add: NextDelay_def)
qed

lemma next_delay_loop_diverges:
  assumes "int64 i"
  shows "next_delay_loop MaxInt64 i delay = None"
proof (rule ccontr)
  assume "next_delay_loop MaxInt64 i delay \<noteq> None"
  then obtain d where "next_delay_loop MaxInt64 i delay = Some d" by auto
  then have "MaxInt64 = MaxInt64 \<longrightarrow> int64 i \<longrightarrow> False"
  proof (rule next_delay_loop.raw_induct [where P = "\<lambda>a i _ _. a = MaxInt64 \<longrightarrow> int64 i \<longrightarrow> False", rotated])
    fix loop attempt i delay d
    assume IH: "\<And>a i delay d. loop a i delay = Some d \<Longrightarrow> a = MaxInt64 \<longrightarrow> int64 i \<longrightarrow> False"
      and run: "(if i \<le> attempt then loop attempt (wrap64 (i + 1)) (wrap64 (delay * 2)) else Some delay) = Some d"
    show "attempt = MaxInt64 \<longrightarrow> int64 i \<longrightarrow> False"
    proof (intro impI)
      assume a: "attempt = MaxInt64" and "int64 i"
      then have "i \<le> attempt" by (simp add: int64_def)
      with run have "loop attempt (wrap64 (i + 1)) (wrap64 (delay * 2)) = Some d" by simp
      from IH [OF this] a show False by simp
    qed
  qed
  with assms show False by simp
qed

text \<open>
  C19. The backoff delay is the initial delay doubled once per attempt, with the wrap-around of
  the 64-bit duration, and \<open>NextDelay\<close> returns for every attempt number but the largest \<open>int\<close>,
  on which its loop never ends. A policy that still allows a retry therefore always gets a delay.
\<close>

theorem NextDelay_correct:
  assumes "int64 attempt" and "int64 (InitialDelay policy)" and "int64 (MaxRetryAttempt policy)"
  shows "NextDelay policy attempt =
      (if attempt = MaxInt64 then None else Some (wrap64 (InitialDelay policy * 2 ^ nat attempt)))
    \<and> (CanRetry policy attempt \<longrightarrow>
        NextDelay policy attempt = Some (wrap64 (InitialDelay policy * 2 ^ nat attempt)))"
proof (cases "attempt = MaxInt64")
  case True
  moreover have "NextDelay policy attempt = None"
    using next_delay_loop_diverges [of 1 "InitialDelay policy"] True
    by (simp add: NextDelay_def int64_def)
  moreover have "\<not> CanRetry policy attempt"
    using assms(3) True by (simp add: CanRetry_def int64_def)
  ultimately show ?thesis by (simp only: if_True simp_thms)
next
  case False
  with assms(1) have "attempt < MaxInt64" by (simp add: int64_def)
  with False show ?thesis by (simp add: NextDelay_wraps assms)
qed

theorem NextDelay_correct_witness:
  "NextDelay \<lparr>InitialDelay = Second, MaxRetryAttempt = 3\<rparr> 2 = Some (4 * Second)"
  using NextDelay_correct [of 2 "\<lparr>InitialDelay = Second, MaxRetryAttempt = 3\<rparr>"]
  by (simp add: int64_def wrap64_int64 CanRetry_def)

end
