(* ===== verification/Httpx.thy ===== *)
theory Httpx
  imports Go_Prelude
begin

text \<open>
  Answers to HTTP requests (\<open>internal/httpx/json.go\<close>) and the routing of \<open>http.ServeMux\<close> for
  patterns of an exact path with a method, as the notifier and the generator register them (the
  patterns of the mock receiver, with wildcards, are in \<open>Services\<close>). A payload is the value the
  handler passes to the JSON encoder. What \<open>json.Decoder\<close> makes of a request body is an argument of
  the handlers.
\<close>

record 'p reply =
  reply_code :: go_int
  reply_content_type :: string
  reply_body :: "'p option"

definition WriteJSON :: "go_int \<Rightarrow> 'p option \<Rightarrow> 'p reply" where
  "WriteJSON statusCode payload =
    \<lparr>reply_code = statusCode, reply_content_type = ''application/json'', reply_body = payload\<rparr>"

text \<open>The payload of an error is a map with the key \<open>error\<close>; \<open>error_payload\<close> builds it.\<close>

definition WriteError :: "(string \<Rightarrow> 'p) \<Rightarrow> go_int \<Rightarrow> string \<Rightarrow> 'p reply" where
  "WriteError error_payload statusCode message = WriteJSON statusCode (Some (error_payload message))"

abbreviation (input) StatusOK :: go_int where "StatusOK \<equiv> 200"
abbreviation (input) StatusAccepted :: go_int where "StatusAccepted \<equiv> 202"
abbreviation (input) StatusBadRequest :: go_int where "StatusBadRequest \<equiv> 400"
abbreviation (input) StatusNotFound :: go_int where "StatusNotFound \<equiv> 404"
abbreviation (input) StatusTooManyRequests :: go_int where "StatusTooManyRequests \<equiv> 429"
abbreviation (input) StatusInternalServerError :: go_int where "StatusInternalServerError \<equiv> 500"
abbreviation (input) StatusBadGateway :: go_int where "StatusBadGateway \<equiv> 502"

section \<open>Routing\<close>

datatype 'r routed = Routed 'r | PathNotFound | MethodNotAllowed

text \<open>A pattern for \<open>GET\<close> also matches \<open>HEAD\<close>; a known path with another method is answered with 405.\<close>

definition method_matches :: "string \<Rightarrow> string \<Rightarrow> bool" where
  "method_matches pattern_method method \<longleftrightarrow>
     method = pattern_method \<or> pattern_method = ''GET'' \<and> method = ''HEAD''"

definition serve_mux :: "((string \<times> string) \<times> 'r) list \<Rightarrow> string \<Rightarrow> string \<Rightarrow> 'r routed" where
  "serve_mux patterns method path =
    (case find (\<lambda>((m, p), r). p = path \<and> method_matches m method) patterns of
       Some (_, r) \<Rightarrow> Routed r
     | None \<Rightarrow> if path \<in> set (map (snd \<circ> fst) patterns) then MethodNotAllowed else PathNotFound)"

end
