(* ===== verification/Notifier.thy ===== *)
theory Notifier
  imports Config Registration Delivery Retry Scheduler Httpx
begin

text \<open>
  The notifier application (\<open>internal/notifier\<close>): its HTTP handlers, the poller that claims queued
  deliveries into the scheduler, the worker that performs one delivery attempt and records its
  outcome, and the metrics. The collaborators of the application are fields of its record, as in
  the source; the state of the work queue is the type variable \<open>'q\<close> and is passed explicitly, since
  it is shared between instances. Counters start at zero and only grow by one, so their 64-bit
  range is not exhausted and they are plain integers. The k-th call of \<open>time.Now\<close> of an
  operation is \<open>clock k\<close>. The log is the list of levels and messages written.
\<close>

section \<open>Metrics\<close>

text \<open>A labelled counter counts per list of label values; a histogram keeps what it observed.\<close>

record NotifierMetrics =
  ReceivedEventsCounter :: nat
  DeliveredEventsCounter :: "string list \<Rightarrow> nat"
  FailedDeliveriesCounter :: "string list \<Rightarrow> nat"
  RetriedDeliveriesCounter :: nat
  DeadLetterCounter :: nat
  DeliveryDurationHistogram :: "string list \<Rightarrow> duration list"
  ScheduledQueueDepthGauge :: go_int
  PendingQueueDepthGauge :: go_int
  OldestPendingAgeGauge :: duration

definition NewNotifierMetrics :: NotifierMetrics where
  "NewNotifierMetrics =
    \<lparr>ReceivedEventsCounter = 0, DeliveredEventsCounter = (\<lambda>_. 0), FailedDeliveriesCounter = (\<lambda>_. 0),
     RetriedDeliveriesCounter = 0, DeadLetterCounter = 0, DeliveryDurationHistogram = (\<lambda>_. []),
     ScheduledQueueDepthGauge = 0, PendingQueueDepthGauge = 0, OldestPendingAgeGauge = 0\<rparr>"

definition inc :: "string list \<Rightarrow> (string list \<Rightarrow> nat) \<Rightarrow> (string list \<Rightarrow> nat)" where
  "inc labels counter = counter(labels := Suc (counter labels))"

section \<open>The application\<close>

record 'q Application =
  config :: NotifierConfig
  registry :: Registry
  workQueue :: "'q Repository"
  scheduler :: RoundRobinScheduler
  deliver :: deliveryClient
  retryPolicy :: ExponentialBackoffPolicy
  notifierMetrics :: NotifierMetrics
  deadLetters :: "DeadLetterMessage list"
  receivedEvents :: int
  deliveredEvents :: int
  failedDeliveries :: int
  retriedDeliveries :: int
  deadLetterCount :: int
  logged :: "(slog_level \<times> string) list"

definition log_entry :: "slog_level \<Rightarrow> string \<Rightarrow> 'q Application \<Rightarrow> 'q Application" where
  "log_entry level message app = app\<lparr>logged := logged app @ [(level, message)]\<rparr>"

text \<open>
  \<open>NewApplication\<close> with the package variables it calls through. The registry comes with the result
  of its \<open>Ping\<close>, the queue with the result of its \<open>EnsureSchema\<close>. The panic of a channel with an
  impossible buffer is an error of that name.
\<close>

definition NewApplication ::
  "(string \<Rightarrow> string \<Rightarrow> string \<Rightarrow> go_error + (Registry \<times> go_error option)) \<Rightarrow>
   (string \<Rightarrow> go_error + ('q Repository \<times> go_error option)) \<Rightarrow>
   (go_int \<Rightarrow> RoundRobinScheduler option) \<Rightarrow> (duration \<Rightarrow> deliveryClient) \<Rightarrow>
   NotifierConfig \<Rightarrow> go_error + 'q Application" where
  "NewApplication newRegistryStore newQueueRepository newScheduler newDeliveryClientFactory cfg =
    bind_result (newRegistryStore (PostgresConnection cfg) (RegistrationResolveQuery cfg)
        (RegistrationSnapshotQuery cfg)) (\<lambda>(registryStore, pingError).
    case pingError of Some e \<Rightarrow> Inl e | None \<Rightarrow>
    bind_result (newQueueRepository (PostgresConnection cfg)) (\<lambda>(queueRepository, schemaError).
    case schemaError of Some e \<Rightarrow> Inl e | None \<Rightarrow>
    (case newScheduler (wrap64 (WorkerCount cfg * SchedulerBufferMultiplier cfg)) of
       None \<Rightarrow> Inl (Err ''panic: makechan: size out of range'')
     | Some newly \<Rightarrow> Inr
        \<lparr>config = cfg, registry = registryStore, workQueue = queueRepository, scheduler = newly,
         deliver = newDeliveryClientFactory (RequestTimeout cfg),
         retryPolicy = \<lparr>InitialDelay = InitialRetryDelay cfg, MaxRetryAttempt = MaxRetryAttempts cfg\<rparr>,
         notifierMetrics = NewNotifierMetrics, deadLetters = [], receivedEvents = 0, deliveredEvents = 0,
         failedDeliveries = 0, retriedDeliveries = 0, deadLetterCount = 0, logged = []\<rparr>)))"

section \<open>HTTP handlers\<close>

datatype notifier_payload =
    ErrorPayload string
  | StatusPayload string
  | StatsPayload "(string \<times> int) list"
  | RegistrationsPayload "string \<rightharpoonup> string list"
  | DeadLettersPayload "DeadLetterMessage list"
  | ingestResponse go_int go_int

definition validateEvent :: "SubscriberEvent \<Rightarrow> go_error option" where
  "validateEvent subscriberEvent =
    (if TrimSpace (EventID subscriberEvent) = [] then Some (Err ''eventId is required'')
     else if TrimSpace (CustomerID subscriberEvent) = [] then Some (Err ''customerId is required'')
     else if TrimSpace (SubscriberID subscriberEvent) = [] then Some (Err ''subscriberId is required'')
     else if TrimSpace (EventType subscriberEvent) = [] then Some (Err ''eventType is required'')
     else if time_IsZero (OccurredAt subscriberEvent) then Some (Err ''occurredAt is required'')
     else None)"

text \<open>The loop of \<open>enqueueEvents\<close>: jobs created so far and the error that ended it, if any.\<close>

fun enqueueEvents_from :: "(nat \<Rightarrow> time) \<Rightarrow> nat \<Rightarrow> go_int \<Rightarrow> SubscriberEvent list \<Rightarrow> 'q Application \<Rightarrow> 'q \<Rightarrow>
    (go_int \<times> go_error option) \<times> 'q Application \<times> 'q" where
  "enqueueEvents_from clock k createdJobs [] app q = ((createdJobs, None), app, q)"
| "enqueueEvents_from clock k createdJobs (subscriberEvent # rest) app q =
    (case validateEvent subscriberEvent of
       Some e \<Rightarrow> ((createdJobs, Some e), app, q)
     | None \<Rightarrow>
        (case reg_ResolveWebhookURLs (registry app) None (CustomerID subscriberEvent) of
           Inl e \<Rightarrow> ((createdJobs, Some e), app, q)
         | Inr webhookURLs \<Rightarrow>
            (let app1 = log_entry LevelInfo ''received subscriber event'' app;
                 app2 = app1\<lparr>receivedEvents := receivedEvents app1 + 1,
                   notifierMetrics := (notifierMetrics app1)\<lparr>ReceivedEventsCounter :=
                     Suc (ReceivedEventsCounter (notifierMetrics app1))\<rparr>\<rparr>
             in case repo_EnqueueDeliveries (workQueue app2) None subscriberEvent webhookURLs (clock k) q of
                  (Inl e, q') \<Rightarrow> ((createdJobs, Some e), app2, q')
                | (Inr enqueuedCount, q') \<Rightarrow>
                    enqueueEvents_from clock (Suc k) (createdJobs + enqueuedCount) rest app2 q')))"

definition enqueueEvents :: "(nat \<Rightarrow> time) \<Rightarrow> SubscriberEvent list \<Rightarrow> 'q Application \<Rightarrow> 'q \<Rightarrow>
    (go_int \<times> go_error option) \<times> 'q Application \<times> 'q" where
  "enqueueEvents clock subscriberEvents app q = enqueueEvents_from clock 0 0 subscriberEvents app q"

definition handleHealth :: "notifier_payload reply" where
  "handleHealth = WriteJSON StatusOK (Some (StatusPayload ''ok''))"

definition handleStats :: "'q Application \<Rightarrow> notifier_payload reply" where
  "handleStats app = WriteJSON StatusOK (Some (StatsPayload
    [(''receivedEvents'', receivedEvents app), (''deliveredEvents'', deliveredEvents app),
     (''failedDeliveries'', failedDeliveries app), (''retriedDeliveries'', retriedDeliveries app),
     (''deadLetterCount'', deadLetterCount app)]))"

definition handleRegistrations :: "'q Application \<Rightarrow> notifier_payload reply" where
  "handleRegistrations app =
    (case reg_Snapshot (registry app) None of
       Inl e \<Rightarrow> WriteError ErrorPayload StatusInternalServerError (error_text e)
     | Inr registrySnapshot \<Rightarrow> WriteJSON StatusOK (Some (RegistrationsPayload registrySnapshot)))"

definition handleDeadLetters :: "'q Application \<Rightarrow> 'q \<Rightarrow> notifier_payload reply" where
  "handleDeadLetters app q =
    (case repo_SnapshotDeadLetters (workQueue app) None q of
       Inl e \<Rightarrow> WriteError ErrorPayload StatusInternalServerError (error_text e)
     | Inr deadLetterSnapshot \<Rightarrow> WriteJSON StatusOK (Some (DeadLettersPayload deadLetterSnapshot)))"

definition ingest_reply :: "go_int \<Rightarrow> go_int \<times> go_error option \<Rightarrow> notifier_payload reply" where
  "ingest_reply acceptedEvents outcome =
    (case outcome of
       (createdJobs, Some e) \<Rightarrow>
         WriteError ErrorPayload (if errors_Is e ErrCustomerNotRegistered then StatusNotFound else StatusBadRequest)
           (error_text e)
     | (createdJobs, None) \<Rightarrow> WriteJSON StatusAccepted (Some (ingestResponse acceptedEvents createdJobs)))"

definition handleSingleEvent :: "(nat \<Rightarrow> time) \<Rightarrow> go_error + SubscriberEvent \<Rightarrow> 'q Application \<Rightarrow> 'q \<Rightarrow>
    notifier_payload reply \<times> 'q Application \<times> 'q" where
  "handleSingleEvent clock decoded app q =
    (case decoded of
       Inl decodeError \<Rightarrow>
         (WriteError ErrorPayload StatusBadRequest (''decode event: '' @ error_text decodeError), app, q)
     | Inr event \<Rightarrow>
        (case enqueueEvents clock [event] app q of
           (outcome, app', q') \<Rightarrow> (ingest_reply 1 outcome, app', q')))"

definition handleBatchEvents :: "(nat \<Rightarrow> time) \<Rightarrow> go_error + SubscriberEvent list \<Rightarrow> 'q Application \<Rightarrow> 'q \<Rightarrow>
    notifier_payload reply \<times> 'q Application \<times> 'q" where
  "handleBatchEvents clock decoded app q =
    (case decoded of
       Inl decodeError \<Rightarrow>
         (WriteError ErrorPayload StatusBadRequest (''decode events: '' @ error_text decodeError), app, q)
     | Inr eventsBatch \<Rightarrow>
        (case enqueueEvents clock eventsBatch app q of
           (outcome, app', q') \<Rightarrow> (ingest_reply (int (length eventsBatch)) outcome, app', q')))"

datatype notifier_route =
  HealthRoute | MetricsRoute | StatsRoute | RegistrationsRoute | DeadLettersRoute | EventRoute | BatchRoute

definition newRouter :: "string \<Rightarrow> string \<Rightarrow> notifier_route routed" where
  "newRouter = serve_mux
    [((''GET'', ''/health''), HealthRoute), ((''GET'', ''/metrics''), MetricsRoute),
     ((''GET'', ''/stats''), StatsRoute), ((''GET'', ''/registrations''), RegistrationsRoute),
     ((''GET'', ''/dlq''), DeadLettersRoute), ((''POST'', ''/events''), EventRoute),
     ((''POST'', ''/events/batch''), BatchRoute)]"

section \<open>The poller\<close>

definition scheduledQueueLimit :: "'q Application \<Rightarrow> go_int" where
  "scheduledQueueLimit app = ScheduledQueueLimit (config app)"

definition scheduledQueueIsFull :: "'q Application \<Rightarrow> bool" where
  "scheduledQueueIsFull app \<longleftrightarrow> QueueDepth (scheduler app) \<ge> scheduledQueueLimit app"

definition claimAndSchedule :: "go_context \<Rightarrow> string \<Rightarrow> time \<Rightarrow> 'q Application \<Rightarrow> 'q \<Rightarrow>
    go_error option \<times> 'q Application \<times> 'q" where
  "claimAndSchedule ctx claimOwner now app q =
    (if scheduledQueueIsFull app then (None, app, q)
     else case repo_ClaimAvailableDeliveries (workQueue app) ctx claimOwner (QueueClaimBatchSize (config app)) now q of
       (Inl claimError, q') \<Rightarrow> (Some claimError, app, q')
     | (Inr queuedDeliveries, q') \<Rightarrow>
         (None, app\<lparr>scheduler := foldl (\<lambda>s d. Enqueue (QueuedJob d) s) (scheduler app) queuedDeliveries\<rparr>, q'))"

section \<open>The worker\<close>

definition logDeliveryResult :: "DeliveryResult \<Rightarrow> 'q Application \<Rightarrow> 'q Application" where
  "logDeliveryResult result app =
    (if StatusCode result \<ge> 200 \<and> StatusCode result < 300
     then log_entry LevelInfo ''delivered webhook'' app
     else log_entry LevelWarn ''webhook delivery failed'' app)"

definition recordDeliveryMetrics :: "DeliveryResult \<Rightarrow> 'q Application \<Rightarrow> 'q Application" where
  "recordDeliveryMetrics result app =
    (let statusFamily = (if StatusCode result = 0 then ''transport''
           else Itoa (go_div (StatusCode result) 100) @ ''xx'');
         customerID = CustomerID (Event (ResultJob result));
         m = notifierMetrics app;
         m1 = m\<lparr>DeliveryDurationHistogram := (DeliveryDurationHistogram m)([customerID, statusFamily] :=
                DeliveryDurationHistogram m [customerID, statusFamily] @ [Duration result])\<rparr>;
         m2 = (if StatusCode result \<ge> 200 \<and> StatusCode result < 300
               then m1\<lparr>DeliveredEventsCounter := inc [customerID] (DeliveredEventsCounter m1)\<rparr>
               else (let m3 = m1\<lparr>FailedDeliveriesCounter :=
                           inc [customerID, if ShouldRetry result then ''true'' else ''false''] (FailedDeliveriesCounter m1)\<rparr>
                     in if ShouldRetry result \<and> CanRetry (retryPolicy app) (Attempt (ResultJob result))
                        then m3\<lparr>RetriedDeliveriesCounter := Suc (RetriedDeliveriesCounter m3)\<rparr> else m3))
     in app\<lparr>notifierMetrics := m2\<rparr>)"

definition performDeliveryAttempt :: "go_context \<Rightarrow> DeliveryJob \<Rightarrow> 'q Application \<Rightarrow> DeliveryResult \<times> 'q Application" where
  "performDeliveryAttempt ctx job app =
    (let deliveryResult = deliver app ctx job
     in (deliveryResult, recordDeliveryMetrics deliveryResult (logDeliveryResult deliveryResult app)))"

text \<open>What a failed mark leaves behind: an entry in the log.\<close>

definition log_failure :: "string \<Rightarrow> go_error option \<Rightarrow> 'q Application \<Rightarrow> 'q Application" where
  "log_failure message failure app = (if failure = None then app else log_entry LevelError message app)"

definition handleSuccessfulDelivery :: "go_context \<Rightarrow> DeliveryResult \<Rightarrow> 'q Application \<Rightarrow> 'q \<Rightarrow>
    bool \<times> 'q Application \<times> 'q" where
  "handleSuccessfulDelivery ctx result app q =
    (if StatusCode result < 200 \<or> StatusCode result \<ge> 300 then (False, app, q)
     else
       (let app1 = app\<lparr>deliveredEvents := deliveredEvents app + 1\<rparr>
        in case repo_MarkDelivered (workQueue app1) ctx (QueueItemID (ResultJob result)) (CompletedAt result) q of
          (failure, q') \<Rightarrow> (True, log_failure ''mark queue item delivered'' failure app1, q')))"

text \<open>\<open>None\<close> stands for a call that does not return (the loop of \<open>NextDelay\<close>).\<close>

definition handleRetryableFailure :: "(nat \<Rightarrow> time) \<Rightarrow> go_context \<Rightarrow> DeliveryResult \<Rightarrow> 'q Application \<Rightarrow> 'q \<Rightarrow>
    (bool \<times> 'q Application \<times> 'q) option" where
  "handleRetryableFailure clock ctx result app q =
    (let app1 = app\<lparr>failedDeliveries := failedDeliveries app + 1\<rparr>
     in if \<not> ShouldRetry result \<or> \<not> CanRetry (retryPolicy app1) (Attempt (ResultJob result))
        then Some (False, app1, q)
        else
          (let app2 = app1\<lparr>retriedDeliveries := retriedDeliveries app1 + 1\<rparr>
           in case NextDelay (retryPolicy app2) (Attempt (ResultJob result)) of
                None \<Rightarrow> None
              | Some delay \<Rightarrow>
                  (case repo_MarkRetryPending (workQueue app2) ctx (QueueItemID (ResultJob result))
                          (FailureReason result) (time_Add (clock 0) delay) (clock 1) q of
                     (failure, q') \<Rightarrow> Some (True, log_failure ''mark queue item retry pending'' failure app2, q'))))"

definition recordDeadLetter :: "time \<Rightarrow> DeliveryJob \<Rightarrow> string \<Rightarrow> 'q Application \<Rightarrow> 'q \<Rightarrow> 'q Application \<times> 'q" where
  "recordDeadLetter now job failureReason app q =
    (let m = notifierMetrics app;
         app1 = app\<lparr>deadLetterCount := deadLetterCount app + 1,
           notifierMetrics := m\<lparr>DeadLetterCounter := Suc (DeadLetterCounter m)\<rparr>,
           deadLetters := deadLetters app @
             [\<lparr>DeadJob = job, DeadFailureReason = failureReason, ExhaustedAt = now\<rparr>]\<rparr>
     in case repo_MarkDeadLetter (workQueue app1) None (QueueItemID job) failureReason now q of
          (failure, q') \<Rightarrow> (log_failure ''mark queue item dead lettered'' failure app1, q'))"

definition handlePermanentFailure :: "time \<Rightarrow> DeliveryResult \<Rightarrow> 'q Application \<Rightarrow> 'q \<Rightarrow> 'q Application \<times> 'q" where
  "handlePermanentFailure now result app q = recordDeadLetter now (ResultJob result) (FailureReason result) app q"

text \<open>One round of the loop of \<open>runWorker\<close> after a job was received from the channel.\<close>

definition runWorker_job :: "(nat \<Rightarrow> time) \<Rightarrow> go_context \<Rightarrow> DeliveryJob \<Rightarrow> 'q Application \<Rightarrow> 'q \<Rightarrow>
    ('q Application \<times> 'q) option" where
  "runWorker_job clock ctx job app q =
    (case performDeliveryAttempt ctx job app of
       (result, app1) \<Rightarrow>
        (case handleSuccessfulDelivery ctx result app1 q of
           (True, app2, q2) \<Rightarrow> Some (app2, q2)
         | (False, app2, q2) \<Rightarrow>
            (case handleRetryableFailure clock ctx result app2 q2 of
               None \<Rightarrow> None
             | Some (True, app3, q3) \<Rightarrow> Some (app3, q3)
             | Some (False, app3, q3) \<Rightarrow> Some (handlePermanentFailure (clock 0) result app3 q3))))"

section \<open>The metrics reporter\<close>

text \<open>One tick of the reporter.\<close>

definition report_metrics :: "go_context \<Rightarrow> time \<Rightarrow> 'q Application \<Rightarrow> 'q \<Rightarrow> 'q Application" where
  "report_metrics ctx now app q =
    (let app1 = app\<lparr>notifierMetrics := (notifierMetrics app)\<lparr>ScheduledQueueDepthGauge := QueueDepth (scheduler app)\<rparr>\<rparr>
     in case repo_SnapshotQueueState (workQueue app1) ctx q of
          Inl e \<Rightarrow> log_entry LevelWarn ''snapshot queue state for metrics'' app1
        | Inr queueState \<Rightarrow>
            (let m = (notifierMetrics app1)\<lparr>PendingQueueDepthGauge := PendingDeliveryCount queueState\<rparr>
             in app1\<lparr>notifierMetrics :=
                  m\<lparr>OldestPendingAgeGauge :=
                    (if time_IsZero (OldestPendingCreatedAt queueState) then 0
                     else max 0 (time_Sub now (OldestPendingCreatedAt queueState)))\<rparr>\<rparr>))"

end
