(* ===== verification/Notifier_Correct.thy ===== *)
theory Notifier_Correct
  imports Notifier
begin

text \<open>
  What the operations of the notifier do: the outcome of a delivery attempt, the relation between
  the counters, the metrics and the dead letters, what a request to enqueue events leaves behind,
  and the bound on the scheduled queue. The lemmas hold for every queue, registry and client; the
  runtime theories use them for the collaborators of the program.
\<close>

section \<open>The worker\<close>

definition attempt_delay :: "'q Application \<Rightarrow> DeliveryJob \<Rightarrow> duration" where
  "attempt_delay app job = wrap64 (InitialDelay (retryPolicy app) * 2 ^ nat (Attempt job))"

definition policy_int64 :: "'q Application \<Rightarrow> bool" where
  "policy_int64 app \<longleftrightarrow> int64 (InitialDelay (retryPolicy app)) \<and> int64 (MaxRetryAttempt (retryPolicy app))"

datatype worker_outcome = Delivered | Retried | Buried

definition outcome_of :: "'q Application \<Rightarrow> DeliveryResult \<Rightarrow> worker_outcome" where
  "outcome_of app result =
    (if is_2xx (StatusCode result) then Delivered
     else if ShouldRetry result \<and> CanRetry (retryPolicy app) (Attempt (ResultJob result)) then Retried
     else Buried)"

text \<open>The one call of the queue that belongs to each outcome.\<close>

definition outcome_mark :: "(nat \<Rightarrow> time) \<Rightarrow> go_context \<Rightarrow> 'q Application \<Rightarrow> DeliveryResult \<Rightarrow> 'q \<Rightarrow> go_error option \<times> 'q" where
  "outcome_mark clock ctx app result q =
    (let job = ResultJob result in
     case outcome_of app result of
       Delivered \<Rightarrow> repo_MarkDelivered (workQueue app) ctx (QueueItemID job) (CompletedAt result) q
     | Retried \<Rightarrow> repo_MarkRetryPending (workQueue app) ctx (QueueItemID job) (FailureReason result)
         (time_Add (clock 0) (attempt_delay app job)) (clock 1) q
     | Buried \<Rightarrow> repo_MarkDeadLetter (workQueue app) None (QueueItemID job) (FailureReason result) (clock 0) q)"

lemma frame [simp]:
  "retryPolicy (log_entry l msg app) = retryPolicy app" "workQueue (log_entry l msg app) = workQueue app"
  "scheduler (log_entry l msg app) = scheduler app" "config (log_entry l msg app) = config app"
  "registry (log_entry l msg app) = registry app" "notifierMetrics (log_entry l msg app) = notifierMetrics app"
  "deadLetters (log_entry l msg app) = deadLetters app" "receivedEvents (log_entry l msg app) = receivedEvents app"
  "deliveredEvents (log_entry l msg app) = deliveredEvents app"
  "failedDeliveries (log_entry l msg app) = failedDeliveries app"
  "retriedDeliveries (log_entry l msg app) = retriedDeliveries app"
  "deadLetterCount (log_entry l msg app) = deadLetterCount app"
  by (simp_all add: log_entry_def)

lemma frame_failure [simp]:
  "retryPolicy (log_failure msg e app) = retryPolicy app" "workQueue (log_failure msg e app) = workQueue app"
  "scheduler (log_failure msg e app) = scheduler app" "config (log_failure msg e app) = config app"
  "registry (log_failure msg e app) = registry app" "notifierMetrics (log_failure msg e app) = notifierMetrics app"
  "deadLetters (log_failure msg e app) = deadLetters app" "receivedEvents (log_failure msg e app) = receivedEvents app"
  "deliveredEvents (log_failure msg e app) = deliveredEvents app"
  "failedDeliveries (log_failure msg e app) = failedDeliveries app"
  "retriedDeliveries (log_failure msg e app) = retriedDeliveries app"
  "deadLetterCount (log_failure msg e app) = deadLetterCount app"
  by (simp_all add: log_failure_def)

lemma frame_attempt [simp]:
  "retryPolicy (recordDeliveryMetrics r app) = retryPolicy app" "workQueue (recordDeliveryMetrics r app) = workQueue app"
  "scheduler (recordDeliveryMetrics r app) = scheduler app" "config (recordDeliveryMetrics r app) = config app"
  "registry (recordDeliveryMetrics r app) = registry app" "deadLetters (recordDeliveryMetrics r app) = deadLetters app"
  "receivedEvents (recordDeliveryMetrics r app) = receivedEvents app"
  "deliveredEvents (recordDeliveryMetrics r app) = deliveredEvents app"
  "failedDeliveries (recordDeliveryMetrics r app) = failedDeliveries app"
  "retriedDeliveries (recordDeliveryMetrics r app) = retriedDeliveries app"
  "deadLetterCount (recordDeliveryMetrics r app) = deadLetterCount app"
  "retryPolicy (logDeliveryResult r app) = retryPolicy app" "workQueue (logDeliveryResult r app) = workQueue app"
  "scheduler (logDeliveryResult r app) = scheduler app" "config (logDeliveryResult r app) = config app"
  "registry (logDeliveryResult r app) = registry app" "deadLetters (logDeliveryResult r app) = deadLetters app"
  "notifierMetrics (logDeliveryResult r app) = notifierMetrics app"
  "receivedEvents (logDeliveryResult r app) = receivedEvents app"
  "deliveredEvents (logDeliveryResult r app) = deliveredEvents app"
  "failedDeliveries (logDeliveryResult r app) = failedDeliveries app"
  "retriedDeliveries (logDeliveryResult r app) = retriedDeliveries app"
  "deadLetterCount (logDeliveryResult r app) = deadLetterCount app"
  by (simp_all add: recordDeliveryMetrics_def logDeliveryResult_def Let_def)

lemma NextDelay_retried:
  assumes "policy_int64 app" and "int64 (Attempt job)" and "CanRetry (retryPolicy app) (Attempt job)"
  shows "NextDelay (retryPolicy app) (Attempt job) = Some (attempt_delay app job)"
  unfolding attempt_delay_def
  by (rule NextDelay_wraps) (use assms in \<open>auto simp: policy_int64_def CanRetry_def int64_def\<close>)

text \<open>One round of the worker: it always comes to an end, with the fields its outcome says.\<close>

lemma runWorker_job_outcome:
  assumes "policy_int64 app" and "int64 (Attempt (ResultJob (deliver app ctx job)))"
  shows "\<exists>app'. runWorker_job clock ctx job app q = Some (app', snd (outcome_mark clock ctx app (deliver app ctx job) q)) \<and>
    scheduler app' = scheduler app \<and> config app' = config app \<and> retryPolicy app' = retryPolicy app \<and>
    registry app' = registry app \<and> workQueue app' = workQueue app \<and> receivedEvents app' = receivedEvents app \<and>
    (let out = outcome_of app (deliver app ctx job) in
      deliveredEvents app' = deliveredEvents app + (if out = Delivered then 1 else 0) \<and>
      failedDeliveries app' = failedDeliveries app + (if out = Delivered then 0 else 1) \<and>
      retriedDeliveries app' = retriedDeliveries app + (if out = Retried then 1 else 0) \<and>
      deadLetterCount app' = deadLetterCount app + (if out = Buried then 1 else 0) \<and>
      deadLetters app' = deadLetters app @ (if out = Buried
        then [\<lparr>DeadJob = ResultJob (deliver app ctx job), DeadFailureReason = FailureReason (deliver app ctx job),
               ExhaustedAt = clock 0\<rparr>] else []) \<and>
      notifierMetrics app' = (let m = notifierMetrics (recordDeliveryMetrics (deliver app ctx job) app)
        in if out = Buried then m\<lparr>DeadLetterCounter := Suc (DeadLetterCounter m)\<rparr> else m))"
proof -
  let ?r = "deliver app ctx job"
  let ?app1 = "recordDeliveryMetrics ?r (logDeliveryResult ?r app)"
  have metrics: "notifierMetrics ?app1 = notifierMetrics (recordDeliveryMetrics ?r app)"
    by (simp add: recordDeliveryMetrics_def Let_def)
  have delay: "attempt_delay ?app1 j = attempt_delay app j" for j by (simp add: attempt_delay_def)
  consider (ok) "outcome_of app ?r = Delivered" "is_2xx (StatusCode ?r)"
    | (retry) "outcome_of app ?r = Retried" "\<not> is_2xx (StatusCode ?r)" "ShouldRetry ?r"
        "CanRetry (retryPolicy app) (Attempt (ResultJob ?r))"
    | (dead) "outcome_of app ?r = Buried" "\<not> is_2xx (StatusCode ?r)"
        "\<not> (ShouldRetry ?r \<and> CanRetry (retryPolicy app) (Attempt (ResultJob ?r)))"
    unfolding outcome_of_def by argo
  then show ?thesis
  proof cases
    case ok
    then show ?thesis
      by (simp add: runWorker_job_def performDeliveryAttempt_def handleSuccessfulDelivery_def outcome_mark_def
          Let_def metrics split_def not_less)
  next
    case retry
    then have fail: "StatusCode ?r < 200 \<or> 300 \<le> StatusCode ?r" by linarith
    have "NextDelay (retryPolicy app) (Attempt (ResultJob ?r)) = Some (attempt_delay app (ResultJob ?r))"
      using NextDelay_retried assms retry(4) by blast
    with retry fail show ?thesis
      by (simp add: runWorker_job_def performDeliveryAttempt_def handleSuccessfulDelivery_def
          handleRetryableFailure_def outcome_mark_def Let_def metrics split_def)
  next
    case dead
    then have fail: "StatusCode ?r < 200 \<or> 300 \<le> StatusCode ?r" by linarith
    with dead show ?thesis
      by (simp add: runWorker_job_def performDeliveryAttempt_def handleSuccessfulDelivery_def
          handleRetryableFailure_def handlePermanentFailure_def recordDeadLetter_def outcome_mark_def
          Let_def metrics split_def)
  qed
qed

lemma runWorker_frame:
  assumes "runWorker_job clock ctx job app q = Some (app', q')"
  shows "scheduler app' = scheduler app" and "config app' = config app"
  using assms
  by (auto simp: runWorker_job_def performDeliveryAttempt_def handleSuccessfulDelivery_def handleRetryableFailure_def
      handlePermanentFailure_def recordDeadLetter_def Let_def split: if_splits option.splits prod.splits bool.splits)

section \<open>The counters\<close>

definition total :: "(string list \<Rightarrow> nat) \<Rightarrow> nat" where
  "total counter = (\<Sum>labels | counter labels \<noteq> 0. counter labels)"

lemma total_inc:
  assumes "finite {l. counter l \<noteq> 0}"
  shows "total (inc labels counter) = Suc (total counter)" and "finite {l. inc labels counter l \<noteq> 0}"
proof -
  let ?S = "insert labels {l. counter l \<noteq> 0}"
  have supp: "{l. inc labels counter l \<noteq> 0} = ?S" by (auto simp: inc_def)
  show "finite {l. inc labels counter l \<noteq> 0}" unfolding supp using assms by simp
  have "total counter = sum counter ?S"
    unfolding total_def by (rule sum.mono_neutral_left) (use assms in auto)
  moreover have "sum (inc labels counter) ({l. counter l \<noteq> 0} - {labels}) = sum counter ({l. counter l \<noteq> 0} - {labels})"
    by (rule sum.cong) (auto simp: inc_def)
  then have "sum (inc labels counter) ?S = Suc (sum counter ?S)"
    unfolding sum.insert_remove [OF assms] by (simp add: inc_def)
  ultimately show "total (inc labels counter) = Suc (total counter)"
    unfolding total_def supp by simp
qed

text \<open>
  The counters of \<open>/stats\<close>, the metrics and the list of dead letters tell one story: every failed
  delivery was retried or dead-lettered, and the metrics count what the counters count.
\<close>

definition counters_inv :: "'q Application \<Rightarrow> bool" where
  "counters_inv app \<longleftrightarrow> (let m = notifierMetrics app in
     failedDeliveries app = retriedDeliveries app + deadLetterCount app \<and>
     deadLetterCount app = int (length (deadLetters app)) \<and>
     receivedEvents app = int (ReceivedEventsCounter m) \<and>
     retriedDeliveries app = int (RetriedDeliveriesCounter m) \<and>
     deadLetterCount app = int (DeadLetterCounter m) \<and>
     finite {l. DeliveredEventsCounter m l \<noteq> 0} \<and> deliveredEvents app = int (total (DeliveredEventsCounter m)) \<and>
     finite {l. FailedDeliveriesCounter m l \<noteq> 0} \<and> failedDeliveries app = int (total (FailedDeliveriesCounter m)))"

lemma counters_inv_frame [simp]:
  "counters_inv (log_entry l msg app) = counters_inv app" "counters_inv (log_failure msg e app) = counters_inv app"
  "counters_inv (app\<lparr>scheduler := s\<rparr>) = counters_inv app" "counters_inv (app\<lparr>workQueue := repo\<rparr>) = counters_inv app"
  "counters_inv (app\<lparr>deliver := d\<rparr>) = counters_inv app" "counters_inv (app\<lparr>registry := r\<rparr>) = counters_inv app"
  by (simp_all add: counters_inv_def Let_def)

lemma counters_New: "NewApplication reg queue sched client cfg = Inr app \<Longrightarrow> counters_inv app"
  by (auto simp: NewApplication_def bind_result_Inr_iff counters_inv_def NewNotifierMetrics_def total_def
      split: option.splits)

lemma recordDeliveryMetrics_fields:
  assumes "finite {l. DeliveredEventsCounter (notifierMetrics app) l \<noteq> 0}"
    and "finite {l. FailedDeliveriesCounter (notifierMetrics app) l \<noteq> 0}"
  shows "let m = notifierMetrics app; m' = notifierMetrics (recordDeliveryMetrics result app); out = outcome_of app result in
    ReceivedEventsCounter m' = ReceivedEventsCounter m \<and> DeadLetterCounter m' = DeadLetterCounter m \<and>
    RetriedDeliveriesCounter m' = RetriedDeliveriesCounter m + (if out = Retried then 1 else 0) \<and>
    finite {l. DeliveredEventsCounter m' l \<noteq> 0} \<and>
    total (DeliveredEventsCounter m') = total (DeliveredEventsCounter m) + (if out = Delivered then 1 else 0) \<and>
    finite {l. FailedDeliveriesCounter m' l \<noteq> 0} \<and>
    total (FailedDeliveriesCounter m') = total (FailedDeliveriesCounter m) + (if out = Delivered then 0 else 1)"
  using total_inc [OF assms(1)] total_inc [OF assms(2)] assms
  by (auto simp: recordDeliveryMetrics_def outcome_of_def Let_def simp del: neq0_conv)

lemma counters_runWorker:
  assumes "counters_inv app" and "policy_int64 app" and "int64 (Attempt (ResultJob (deliver app ctx job)))"
    and "runWorker_job clock ctx job app q = Some (app', q')"
  shows "counters_inv app'"
proof -
  note outcome = runWorker_job_outcome [OF assms(2,3), of clock q]
  have fin: "finite {l. DeliveredEventsCounter (notifierMetrics app) l \<noteq> 0}"
    "finite {l. FailedDeliveriesCounter (notifierMetrics app) l \<noteq> 0}"
    using assms(1) by (simp_all add: counters_inv_def Let_def)
  show ?thesis
    using outcome assms(1,4) recordDeliveryMetrics_fields [OF fin, of "deliver app ctx job"]
    by (cases "outcome_of app (deliver app ctx job)") (auto simp: counters_inv_def Let_def)
qed

text \<open>What receiving one event does to the application, and its use as an induction principle.\<close>

definition received :: "'q Application \<Rightarrow> 'q Application" where
  "received app = (let app1 = log_entry LevelInfo ''received subscriber event'' app
     in app1\<lparr>receivedEvents := receivedEvents app1 + 1,
          notifierMetrics := (notifierMetrics app1)\<lparr>ReceivedEventsCounter :=
            Suc (ReceivedEventsCounter (notifierMetrics app1))\<rparr>\<rparr>)"

lemma enqueueEvents_Cons:
  "enqueueEvents_from clock k n (ev # rest) app q =
    (case validateEvent ev of
       Some e \<Rightarrow> ((n, Some e), app, q)
     | None \<Rightarrow>
        (case reg_ResolveWebhookURLs (registry app) None (CustomerID ev) of
           Inl e \<Rightarrow> ((n, Some e), app, q)
         | Inr urls \<Rightarrow>
            (case repo_EnqueueDeliveries (workQueue app) None ev urls (clock k) q of
               (Inl e, q') \<Rightarrow> ((n, Some e), received app, q')
             | (Inr m, q') \<Rightarrow> enqueueEvents_from clock (Suc k) (n + m) rest (received app) q')))"
  by (simp add: received_def Let_def split: option.split sum.split prod.split)

lemma received_frame [simp]:
  "scheduler (received app) = scheduler app" "config (received app) = config app"
  "retryPolicy (received app) = retryPolicy app" "workQueue (received app) = workQueue app"
  "registry (received app) = registry app" "receivedEvents (received app) = receivedEvents app + 1"
  by (simp_all add: received_def Let_def)

lemma enqueueEvents_app:
  assumes "enqueueEvents_from clock k n events app q = (res, app', q')" and "P app"
    and "\<And>a. P a \<Longrightarrow> P (received a)"
  shows "P app'"
  using assms(1,2)
proof (induction events arbitrary: k n app q)
  case (Cons ev rest)
  show ?case
    using Cons.prems assms(3) [OF Cons.prems(2)] Cons.IH [of _ _ "received app"]
    unfolding enqueueEvents_Cons by (auto split: option.splits sum.splits prod.splits)
qed simp

lemma counters_enqueueEvents:
  assumes "enqueueEvents_from clock k n events app q = (res, app', q')" and "counters_inv app"
  shows "counters_inv app'"
  using assms by (rule enqueueEvents_app) (simp add: counters_inv_def received_def Let_def)

lemma enqueueEvents_frame:
  assumes "enqueueEvents_from clock k n events app q = (res, app', q')"
  shows "scheduler app' = scheduler app \<and> config app' = config app \<and> retryPolicy app' = retryPolicy app \<and>
    workQueue app' = workQueue app \<and> registry app' = registry app"
  using assms by (rule enqueueEvents_app) auto

section \<open>Scheduling claimed deliveries\<close>

lemma sched_Enqueue_all:
  assumes "sched_inv s"
  shows "sched_inv (foldl (\<lambda>s d. Enqueue (QueuedJob d) s) s ds)"
    and "mset (queued_jobs (foldl (\<lambda>s d. Enqueue (QueuedJob d) s) s ds)) = mset (queued_jobs s) + mset (map QueuedJob ds)"
    and "output_buffer (foldl (\<lambda>s d. Enqueue (QueuedJob d) s) s ds) = output_buffer s"
    and "output_capacity (foldl (\<lambda>s d. Enqueue (QueuedJob d) s) s ds) = output_capacity s"
    and "QueueDepth (foldl (\<lambda>s d. Enqueue (QueuedJob d) s) s ds) = QueueDepth s + int (length ds)"
  using assms
  by (induction ds arbitrary: s)
     (auto simp: queued_jobs_Enqueue sched_inv_Enqueue record_steps QueueDepth_def)

end
