(* ===== verification/Runtime.thy ===== *)
theory Runtime
  imports Notifier_Correct
begin

text \<open>
  Any number of notifier instances on one queue (\<open>internal/notifier/runtime.go\<close>, \<open>poller.go\<close>,
  \<open>worker.go\<close> and \<open>Start\<close> of \<open>internal/scheduler/round_robin.go\<close>). The goroutines of an instance are
  its dispatcher, its workers and its poller; each rule of \<open>step\<close> is one of their actions on what
  they share (a method under the scheduler's mutex, a channel operation, a call of the queue), and
  the rules interleave freely. A delivery begins when a worker takes a job from the channel and ends with the
  mark of its outcome, so that an instance can stop in between. Each call of the queue may meet
  other faults, locks and clocks: it is made through some member of the set \<open>repos\<close>. Each attempt
  may meet another network: it is made by the HTTP client in some \<open>http_env\<close>. \<open>cfgs\<close> are the
  configurations instances are started with.

  Three rules bundle several actions of one goroutine, which is enough for statements about rows,
  jobs and attempts. \<open>Finish\<close> is the rest of a worker's round: its only action on anything but the
  counters and the log is the call of the queue, which is its last, and no goroutine decides anything
  by a counter. What can be read from the counters while a round is under way is the subject of
  \<open>Counters\<close>, where each of its updates is a step. \<open>Ingest\<close> of a batch is a series of independent
  transactions, one for each event; what happens between two of them also happens between two
  requests with one event each. \<open>Poll\<close> looks at the depth, claims, and puts the claimed jobs into the
  scheduler one by one: until then they are in the hands of the poller, whom nobody else can take
  them from, and the dispatcher only makes the depth smaller meanwhile.
\<close>

section \<open>State\<close>

datatype dispatcher_pc = DWaiting | DSending DeliveryJob | DStopped
datatype worker_pc = WIdle | WBusy DeliveryJob | WStopped

record 'q node =
  application :: "'q Application"
  dispatcher :: dispatcher_pc
  workers :: "worker_pc list"
  poller_running :: bool
  context_done :: bool

record 'q system =
  instances :: "'q node list"
  queue :: 'q
  attempts :: "(go_int \<times> go_int) list"

abbreviation inst_scheduler :: "'q node \<Rightarrow> RoundRobinScheduler" where
  "inst_scheduler inst \<equiv> scheduler (application inst)"

definition set_scheduler :: "RoundRobinScheduler \<Rightarrow> 'q node \<Rightarrow> 'q node" where
  "set_scheduler s inst = inst\<lparr>application := (application inst)\<lparr>scheduler := s\<rparr>\<rparr>"

text \<open>The context a call starts with; a context that ends during a call is one of the call's faults.\<close>

definition inst_context :: "'q node \<Rightarrow> go_context" where
  "inst_context inst = (if context_done inst then Some Canceled else None)"

text \<open>\<open>Run\<close>: the dispatcher, as many workers as configured, and the poller.\<close>

definition start_instance :: "'q Application \<Rightarrow> 'q node" where
  "start_instance app =
    \<lparr>application = app, dispatcher = DWaiting, workers = replicate (nat (WorkerCount (config app))) WIdle,
     poller_running = True, context_done = False\<rparr>"

section \<open>The goroutines of an instance\<close>

text \<open>
  The loop of \<open>Start\<close>: take the next job or stop (the deferred \<open>close\<close> of the channel), then send
  it, into the buffer or directly to an idle worker, or give up when the context has ended.
\<close>

inductive dispatch :: "'q node \<Rightarrow> 'q node \<Rightarrow> bool" where
  dispatch_take: "dispatcher inst = DWaiting \<Longrightarrow>
    waitForNextJob (context_done inst) (inst_scheduler inst) = WaitGot job s \<Longrightarrow>
    dispatch inst ((set_scheduler s inst)\<lparr>dispatcher := DSending job\<rparr>)"
| dispatch_stop: "dispatcher inst = DWaiting \<Longrightarrow>
    waitForNextJob (context_done inst) (inst_scheduler inst) = WaitStopped \<Longrightarrow>
    dispatch inst ((set_scheduler ((inst_scheduler inst)\<lparr>output_closed := True\<rparr>) inst)\<lparr>dispatcher := DStopped\<rparr>)"
| dispatch_send: "dispatcher inst = DSending job \<Longrightarrow>
    int (length (output_buffer (inst_scheduler inst))) < output_capacity (inst_scheduler inst) \<Longrightarrow>
    dispatch inst ((set_scheduler ((inst_scheduler inst)
      \<lparr>output_buffer := output_buffer (inst_scheduler inst) @ [job]\<rparr>) inst)\<lparr>dispatcher := DWaiting\<rparr>)"
| dispatch_drop: "dispatcher inst = DSending job \<Longrightarrow> context_done inst \<Longrightarrow>
    dispatch inst ((set_scheduler ((inst_scheduler inst)\<lparr>output_closed := True\<rparr>) inst)\<lparr>dispatcher := DStopped\<rparr>)"

text \<open>A worker takes a job from the buffer, or from the dispatcher when the channel has no buffer.\<close>

inductive receive :: "'q node \<Rightarrow> nat \<Rightarrow> DeliveryJob \<Rightarrow> 'q node \<Rightarrow> bool" where
  receive_buffered: "w < length (workers inst) \<Longrightarrow> workers inst ! w = WIdle \<Longrightarrow>
    output_buffer (inst_scheduler inst) = job # rest \<Longrightarrow>
    receive inst w job ((set_scheduler ((inst_scheduler inst)\<lparr>output_buffer := rest\<rparr>) inst)
      \<lparr>workers := (workers inst)[w := WBusy job]\<rparr>)"
| receive_direct: "w < length (workers inst) \<Longrightarrow> workers inst ! w = WIdle \<Longrightarrow>
    dispatcher inst = DSending job \<Longrightarrow> output_capacity (inst_scheduler inst) = 0 \<Longrightarrow>
    receive inst w job (inst\<lparr>dispatcher := DWaiting, workers := (workers inst)[w := WBusy job]\<rparr>)"

inductive worker_stop :: "'q node \<Rightarrow> 'q node \<Rightarrow> bool" where
  stop_context: "w < length (workers inst) \<Longrightarrow> workers inst ! w = WIdle \<Longrightarrow> context_done inst \<Longrightarrow>
    worker_stop inst (inst\<lparr>workers := (workers inst)[w := WStopped]\<rparr>)"
| stop_closed: "w < length (workers inst) \<Longrightarrow> workers inst ! w = WIdle \<Longrightarrow>
    output_closed (inst_scheduler inst) \<Longrightarrow> output_buffer (inst_scheduler inst) = [] \<Longrightarrow>
    worker_stop inst (inst\<lparr>workers := (workers inst)[w := WStopped]\<rparr>)"

text \<open>
  What else touches neither the queue nor the jobs in memory. \<open>Run\<close> closes the scheduler when the
  context ends or the server or the poller fails; a server can fail at any time.
\<close>

inductive control :: "'q node \<Rightarrow> 'q node \<Rightarrow> bool" where
  close_scheduler: "control inst (set_scheduler (Close (inst_scheduler inst)) inst)"
| poller_stop: "context_done inst \<Longrightarrow> control inst (inst\<lparr>poller_running := False\<rparr>)"
| worker_done: "worker_stop inst inst' \<Longrightarrow> control inst inst'"

section \<open>Steps of the system\<close>

text \<open>The kinds of steps, so that a run can be confined to some of them.\<close>

datatype step_label = Start | Crash | Cancel | Control | Dispatch | Ingest | Report | Poll | Receive | Finish

inductive step :: "NotifierConfig set \<Rightarrow> 'q Repository set \<Rightarrow> step_label \<Rightarrow> 'q system \<Rightarrow> 'q system \<Rightarrow> bool"
  for cfgs repos where
  step_start: "cfg \<in> cfgs \<Longrightarrow>
    NewApplication newRegistry newQueue (NewRoundRobinScheduler max_buffer) client cfg = Inr app \<Longrightarrow>
    step cfgs repos Start sys (sys\<lparr>instances := instances sys @ [start_instance app]\<rparr>)"
| step_crash: "n < length (instances sys) \<Longrightarrow>
    step cfgs repos Crash sys (sys\<lparr>instances := take n (instances sys) @ drop (Suc n) (instances sys)\<rparr>)"
| step_cancel: "n < length (instances sys) \<Longrightarrow>
    step cfgs repos Cancel sys (sys\<lparr>instances := (instances sys)[n := (instances sys ! n)\<lparr>context_done := True\<rparr>]\<rparr>)"
| step_control: "n < length (instances sys) \<Longrightarrow> control (instances sys ! n) inst' \<Longrightarrow>
    step cfgs repos Control sys (sys\<lparr>instances := (instances sys)[n := inst']\<rparr>)"
| step_dispatch: "n < length (instances sys) \<Longrightarrow> dispatch (instances sys ! n) inst' \<Longrightarrow>
    step cfgs repos Dispatch sys (sys\<lparr>instances := (instances sys)[n := inst']\<rparr>)"
| step_ingest: "n < length (instances sys) \<Longrightarrow> inst = instances sys ! n \<Longrightarrow> repo \<in> repos \<Longrightarrow>
    handleBatchEvents clock decoded ((application inst)\<lparr>workQueue := repo, registry := reg\<rparr>) (queue sys) =
      (answer, app', q') \<Longrightarrow>
    step cfgs repos Ingest sys
      (sys\<lparr>instances := (instances sys)[n := inst\<lparr>application := app'\<rparr>], queue := q'\<rparr>)"
| step_ingest_one: "n < length (instances sys) \<Longrightarrow> inst = instances sys ! n \<Longrightarrow> repo \<in> repos \<Longrightarrow>
    handleSingleEvent clock decoded_one ((application inst)\<lparr>workQueue := repo, registry := reg\<rparr>) (queue sys) =
      (answer, app', q') \<Longrightarrow>
    step cfgs repos Ingest sys
      (sys\<lparr>instances := (instances sys)[n := inst\<lparr>application := app'\<rparr>], queue := q'\<rparr>)"
| step_report: "n < length (instances sys) \<Longrightarrow> inst = instances sys ! n \<Longrightarrow> repo \<in> repos \<Longrightarrow>
    step cfgs repos Report sys (sys\<lparr>instances := (instances sys)[n := inst\<lparr>application :=
      report_metrics (inst_context inst) now ((application inst)\<lparr>workQueue := repo\<rparr>) (queue sys)\<rparr>]\<rparr>)"
| step_poll: "n < length (instances sys) \<Longrightarrow> inst = instances sys ! n \<Longrightarrow> poller_running inst \<Longrightarrow> repo \<in> repos \<Longrightarrow>
    claimAndSchedule (inst_context inst) owner now ((application inst)\<lparr>workQueue := repo\<rparr>) (queue sys) =
      (failure, app', q') \<Longrightarrow>
    step cfgs repos Poll sys (sys\<lparr>instances := (instances sys)[n := inst\<lparr>application := app',
      poller_running := (failure = None)\<rparr>], queue := q'\<rparr>)"
| step_receive: "n < length (instances sys) \<Longrightarrow> receive (instances sys ! n) w job inst' \<Longrightarrow>
    step cfgs repos Receive sys (sys\<lparr>instances := (instances sys)[n := inst'],
      attempts := attempts sys @ [(QueueItemID job, Attempt job)]\<rparr>)"
| step_finish: "n < length (instances sys) \<Longrightarrow> inst = instances sys ! n \<Longrightarrow>
    w < length (workers inst) \<Longrightarrow> workers inst ! w = WBusy job \<Longrightarrow> repo \<in> repos \<Longrightarrow>
    runWorker_job clock (inst_context inst) job
      ((application inst)\<lparr>workQueue := repo, deliver := Deliver env (NewHTTPClient timeout)\<rparr>) (queue sys) =
      Some (app', q') \<Longrightarrow>
    step cfgs repos Finish sys (sys\<lparr>instances := (instances sys)[n := inst\<lparr>application := app',
      workers := (workers inst)[w := WIdle]\<rparr>], queue := q'\<rparr>)"

text \<open>The states a run of steps of the kinds \<open>kinds\<close> reaches from a queue with no instance running.\<close>

inductive reachable :: "NotifierConfig set \<Rightarrow> 'q Repository set \<Rightarrow> step_label set \<Rightarrow> 'q \<Rightarrow> 'q system \<Rightarrow> bool"
  for cfgs repos kinds q0 where
  reachable_init: "reachable cfgs repos kinds q0 \<lparr>instances = [], queue = q0, attempts = []\<rparr>"
| reachable_step: "reachable cfgs repos kinds q0 sys \<Longrightarrow> l \<in> kinds \<Longrightarrow> step cfgs repos l sys sys' \<Longrightarrow>
    reachable cfgs repos kinds q0 sys'"

inductive_cases dispatchE: "dispatch inst inst'"
inductive_cases receiveE: "receive inst w job inst'"
inductive_cases controlE: "control inst inst'"

section \<open>The jobs in memory\<close>

fun dispatcher_jobs :: "dispatcher_pc \<Rightarrow> DeliveryJob list" where
  "dispatcher_jobs (DSending job) = [job]"
| "dispatcher_jobs _ = []"

fun worker_jobs :: "worker_pc \<Rightarrow> DeliveryJob list" where
  "worker_jobs (WBusy job) = [job]"
| "worker_jobs _ = []"

text \<open>Jobs an instance holds: those waiting for a worker, and those a worker is delivering.\<close>

definition waiting_jobs :: "'q node \<Rightarrow> DeliveryJob multiset" where
  "waiting_jobs inst = mset (queued_jobs (inst_scheduler inst)) + mset (dispatcher_jobs (dispatcher inst)) +
     mset (output_buffer (inst_scheduler inst))"

definition active_jobs :: "'q node \<Rightarrow> DeliveryJob multiset" where
  "active_jobs inst = mset (concat (map worker_jobs (workers inst)))"

definition waiting :: "'q system \<Rightarrow> DeliveryJob multiset" where
  "waiting sys = sum_list (map waiting_jobs (instances sys))"

definition active :: "'q system \<Rightarrow> DeliveryJob multiset" where
  "active sys = sum_list (map active_jobs (instances sys))"

end
