(* ===== verification/Runtime_Core.thy ===== *)
theory Runtime_Core
  imports Runtime
begin

text \<open>
  The core of the argument about the running system, on three abstractions of its state: the view
  \<open>V\<close> of the queue, the multisets \<open>W\<close> and \<open>A\<close> of jobs waiting for a worker and being delivered, and
  the log \<open>L\<close> of attempts begun. \<open>core_inv\<close> says that every job in memory is the only copy of a row
  the queue has as claimed, and that no attempt in the log can be begun again. One lemma per kind
  of change.
\<close>

section \<open>The invariant\<close>

type_synonym queue_view = "go_int \<Rightarrow> queue_item option"

abbreviation job_ids :: "DeliveryJob multiset \<Rightarrow> go_int multiset" where
  "job_ids M \<equiv> image_mset QueueItemID M"

definition claimed_as :: "queue_view \<Rightarrow> DeliveryJob \<Rightarrow> bool" where
  "claimed_as V job \<longleftrightarrow> (\<exists>it. V (QueueItemID job) = Some it \<and> item_status it = Claimed \<and> item_job it = job)"

text \<open>An attempt that lies behind: the item has moved on, or it is out of the waiting jobs for good.\<close>

definition behind :: "queue_view \<Rightarrow> DeliveryJob multiset \<Rightarrow> go_int \<times> go_int \<Rightarrow> bool" where
  "behind V W a \<longleftrightarrow> (\<exists>it. V (fst a) = Some it \<and>
     (snd a < Attempt (item_job it) \<or>
      snd a = Attempt (item_job it) \<and> item_status it \<noteq> Pending \<and> fst a \<notin># job_ids W))"

definition core_inv :: "queue_view \<Rightarrow> DeliveryJob multiset \<Rightarrow> DeliveryJob multiset \<Rightarrow> (go_int \<times> go_int) list \<Rightarrow> bool" where
  "core_inv V W A L \<longleftrightarrow>
     (\<forall>i. count (job_ids (W + A)) i \<le> 1) \<and>
     (\<forall>job \<in># W + A. claimed_as V job) \<and>
     (\<forall>a \<in> set L. behind V W a) \<and>
     distinct L"

lemma core_invD:
  assumes "core_inv V W A L"
  shows "count (job_ids (W + A)) i \<le> 1" and "job \<in># W + A \<Longrightarrow> claimed_as V job"
    and "a \<in> set L \<Longrightarrow> behind V W a" and "distinct L"
  using assms by (auto simp: core_inv_def)

lemma core_inv_init: "core_inv V {#} {#} []"
  by (simp add: core_inv_def)

lemma unique_id:
  assumes "\<forall>i. count (job_ids M) i \<le> 1" and "job \<in># M" and "job' \<in># M - {#job#}"
  shows "QueueItemID job' \<noteq> QueueItemID job"
proof
  assume same: "QueueItemID job' = QueueItemID job"
  obtain N where M: "M = add_mset job N" using multi_member_split [OF assms(2)] by blast
  then have "job' \<in># N" using assms(3) by simp
  from multi_member_split [OF this] obtain K where "N = add_mset job' K" by blast
  then have "count (job_ids M) (QueueItemID job) \<ge> 2" by (simp add: M same)
  then show False using assms(1) by (metis Suc_1 not_less_eq_eq)
qed

section \<open>What changes keep it\<close>

lemma behind_mono: "behind V W a \<Longrightarrow> W' \<subseteq># W \<Longrightarrow> behind V W' a"
  by (auto simp: behind_def dest!: image_mset_subseteq_mono [where f = QueueItemID] dest: mset_subset_eqD)

text \<open>Jobs are forgotten.\<close>

lemma core_inv_shrink:
  assumes "core_inv V W A L" and "W' \<subseteq># W" and "A' \<subseteq># A"
  shows "core_inv V W' A' L"
proof -
  have sub: "W' + A' \<subseteq># W + A" using assms(2,3) by (rule subset_mset.add_mono)
  have "count (job_ids (W' + A')) i \<le> count (job_ids (W + A)) i" for i
    using image_mset_subseteq_mono [OF sub, of QueueItemID] by (rule mset_subset_eq_count)
  then show ?thesis
    using assms(1) behind_mono [OF _ assms(2)] mset_subset_eqD [OF sub]
    unfolding core_inv_def by (meson le_trans)
qed

text \<open>Items are added to the queue.\<close>

lemma core_inv_extend:
  assumes "core_inv V W A L" and "\<And>i it. V i = Some it \<Longrightarrow> V' i = Some it"
  shows "core_inv V' W A L"
  using assms unfolding core_inv_def claimed_as_def behind_def by blast

text \<open>A worker takes a waiting job.\<close>

lemma core_inv_receive:
  assumes core: "core_inv V W A L" and job: "job \<in># W"
  shows "core_inv V (W - {#job#}) (add_mset job A) (L @ [(QueueItemID job, Attempt job)])"
proof -
  let ?a = "(QueueItemID job, Attempt job)"
  have same: "W - {#job#} + add_mset job A = W + A" using job by simp
  have "claimed_as V job" using core_invD(2) [OF core] job by simp
  then obtain it where it: "V (QueueItemID job) = Some it" "item_status it = Claimed" "item_job it = job"
    by (auto simp: claimed_as_def)
  have "?a \<notin> set L"
  proof
    assume "?a \<in> set L"
    then have "behind V W ?a" by (rule core_invD(3) [OF core])
    then show False using it job by (auto simp: behind_def)
  qed
  moreover have "QueueItemID job \<notin># job_ids (W - {#job#})"
  proof
    assume "QueueItemID job \<in># job_ids (W - {#job#})"
    then obtain j where "j \<in># W - {#job#}" and j: "QueueItemID j = QueueItemID job" by auto
    then have "j \<in># W + A - {#job#}" using job by (auto dest!: multi_member_split)
    then show False using unique_id [of "W + A" job j] core_invD(1) [OF core] job j by simp
  qed
  then have "behind V (W - {#job#}) ?a" using it by (simp add: behind_def)
  ultimately show ?thesis
    using core behind_mono [of V W _ "W - {#job#}"] unfolding core_inv_def same by auto
qed

text \<open>Pending items are claimed, and some or all of them are scheduled.\<close>

lemma core_inv_claim:
  assumes core: "core_inv V W A L"
    and pending: "\<And>i. i \<in> ids \<Longrightarrow> \<exists>it. V i = Some it \<and> item_status it = Pending"
    and V': "\<And>i. V' i = (if i \<in> ids then map_option (\<lambda>it. it\<lparr>item_status := Claimed\<rparr>) (V i) else V i)"
    and jobs: "\<And>job. job \<in># J \<Longrightarrow> QueueItemID job \<in> ids \<and> (\<exists>it. V (QueueItemID job) = Some it \<and> item_job it = job)"
    and distinct: "\<And>i. count (job_ids J) i \<le> 1"
  shows "core_inv V' (W + J) A L"
proof -
  have old: "QueueItemID job \<notin> ids" if "job \<in># W + A" for job
    using core_invD(2) [OF core that] pending [of "QueueItemID job"] by (auto simp: claimed_as_def)
  have "count (job_ids (W + J + A)) i \<le> 1" for i
  proof (cases "i \<in> ids")
    case True
    then have "i \<notin># job_ids (W + A)" using old by auto
    then have "count (job_ids (W + A)) i = 0" by (simp only: count_eq_zero_iff not_False_eq_True)
    then show ?thesis using distinct [of i] by simp
  next
    case False
    then have "i \<notin># job_ids J" using jobs by auto
    then have "count (job_ids J) i = 0" by (simp only: count_eq_zero_iff not_False_eq_True)
    then show ?thesis using core_invD(1) [OF core, of i] by simp
  qed
  moreover have "claimed_as V' job" if "job \<in># W + J + A" for job
  proof (cases "job \<in># W + A")
    case True
    then show ?thesis using core_invD(2) [OF core True] old [OF True] by (auto simp: claimed_as_def V')
  next
    case False
    then have "job \<in># J" using that by auto
    then show ?thesis using jobs by (fastforce simp: claimed_as_def V')
  qed
  moreover have "behind V' (W + J) a" if "a \<in> set L" for a
    using core_invD(3) [OF core that] pending [of "fst a"] jobs by (fastforce simp: behind_def V')
  ultimately show ?thesis using core_invD(4) [OF core] by (auto simp: core_inv_def)
qed

text \<open>
  A worker is done with its job: its item was not touched, or is out of the claimed state with the
  attempt counted.
\<close>

definition settled :: "queue_view \<Rightarrow> go_int \<Rightarrow> queue_view \<Rightarrow> bool" where
  "settled V i V' \<longleftrightarrow> V' = V \<or> (\<exists>it it'. V i = Some it \<and> V' = V(i \<mapsto> it') \<and>
     (item_status it' \<noteq> Pending \<and> Attempt (item_job it') = Attempt (item_job it) \<or>
      Attempt (item_job it') = Attempt (item_job it) + 1))"

lemma core_inv_finish:
  assumes core: "core_inv V W A L" and job: "job \<in># A" and settled: "settled V (QueueItemID job) V'"
  shows "core_inv V' W (A - {#job#}) L"
proof -
  have shrunk: "core_inv V W (A - {#job#}) L" by (rule core_inv_shrink [OF core]) simp_all
  show ?thesis
  proof (cases "V' = V")
    case False
    then obtain it it' where it: "V (QueueItemID job) = Some it" "V' = V(QueueItemID job \<mapsto> it')"
      and cases: "item_status it' \<noteq> Pending \<and> Attempt (item_job it') = Attempt (item_job it) \<or>
        Attempt (item_job it') = Attempt (item_job it) + 1"
      using settled unfolding settled_def by blast
    have other: "QueueItemID j \<noteq> QueueItemID job" if "j \<in># W + (A - {#job#})" for j
      using unique_id [of "W + A" job j] core_invD(1) [OF core] job that by simp
    have "claimed_as V' j" if "j \<in># W + (A - {#job#})" for j
      using core_invD(2) [OF shrunk that] other [OF that] by (simp add: claimed_as_def it(2))
    moreover have "behind V' W a" if "a \<in> set L" for a
    proof (cases "fst a = QueueItemID job")
      case True
      have "QueueItemID job \<notin># job_ids W" using other by fastforce
      then show ?thesis
        using core_invD(3) [OF core that] cases True by (auto simp: behind_def it)
    next
      case False
      then show ?thesis using core_invD(3) [OF core that] by (simp add: behind_def it(2))
    qed
    ultimately show ?thesis using shrunk by (simp add: core_inv_def)
  qed (use shrunk in simp)
qed

section \<open>The jobs of a list of instances\<close>

lemma sum_list_update_mset:
  fixes f :: "'a \<Rightarrow> 'b multiset"
  assumes "n < length xs"
  shows "sum_list (map f (xs[n := y])) + f (xs ! n) = sum_list (map f xs) + f y"
  using assms
proof (induction xs arbitrary: n)
  case (Cons x xs)
  then show ?case by (cases n) (auto simp: ac_simps)
qed simp

lemma jobs_update:
  assumes "n < length (instances sys)"
  shows "waiting (sys\<lparr>instances := (instances sys)[n := inst]\<rparr>) + waiting_jobs (instances sys ! n) =
      waiting sys + waiting_jobs inst"
    and "active (sys\<lparr>instances := (instances sys)[n := inst]\<rparr>) + active_jobs (instances sys ! n) =
      active sys + active_jobs inst"
  using sum_list_update_mset [OF assms] by (simp_all add: waiting_def active_def)

lemma jobs_same:
  assumes "n < length (instances sys)" and "waiting_jobs inst = waiting_jobs (instances sys ! n)"
    and "active_jobs inst = active_jobs (instances sys ! n)"
  shows "waiting (sys\<lparr>instances := (instances sys)[n := inst]\<rparr>) = waiting sys"
    and "active (sys\<lparr>instances := (instances sys)[n := inst]\<rparr>) = active sys"
  using jobs_update [OF assms(1), of inst] assms(2,3) by simp_all

lemma jobs_frame [simp]:
  "waiting (sys\<lparr>queue := q\<rparr>) = waiting sys" "active (sys\<lparr>queue := q\<rparr>) = active sys"
  "waiting (sys\<lparr>attempts := L\<rparr>) = waiting sys" "active (sys\<lparr>attempts := L\<rparr>) = active sys"
  by (simp_all add: waiting_def active_def)

lemma active_jobs_update:
  assumes "w < length (workers inst)"
  shows "active_jobs (inst\<lparr>workers := (workers inst)[w := pc]\<rparr>) + mset (worker_jobs (workers inst ! w)) =
    active_jobs inst + mset (worker_jobs pc)"
proof -
  have "mset (concat (map worker_jobs xs)) = sum_list (map (mset \<circ> worker_jobs) xs)" for xs
    by (induction xs) auto
  then show ?thesis
    using sum_list_update_mset [OF assms, of "mset \<circ> worker_jobs" pc] by (simp add: active_jobs_def)
qed

end
