(* ===== verification/Runtime_Laws.thy ===== *)
theory Runtime_Laws
  imports Runtime_Core
begin

text \<open>
  What every step of the running system keeps, for every queue that meets the contract
  \<open>shared_queue\<close>: the laws of a work queue that hold whatever goes wrong inside a call (a failing
  statement, a lost acknowledgement, a context that ends), as the instances experience it.
\<close>

section \<open>Steps of one instance\<close>

definition node_inv :: "NotifierConfig set \<Rightarrow> 'q node \<Rightarrow> bool" where
  "node_inv cfgs inst \<longleftrightarrow> (let app = application inst in
     sched_inv (scheduler app) \<and> policy_int64 app \<and> counters_inv app \<and> config app \<in> cfgs \<and>
     retryPolicy app = \<lparr>InitialDelay = InitialRetryDelay (config app), MaxRetryAttempt = MaxRetryAttempts (config app)\<rparr>)"

lemma waitForNextJob_output:
  assumes "sched_inv s" and "waitForNextJob b s = WaitGot job s'"
  shows "output_buffer s' = output_buffer s" and "output_capacity s' = output_capacity s"
    and "QueueDepth s' = QueueDepth s - 1"
proof -
  obtain t where deq: "dequeueNextJobLocked s = Some (job, t)"
    and s': "s' = t\<lparr>queuedJobCount := queuedJobCount t - 1\<rparr>"
    using assms(2) by (auto simp: waitForNextJob_def split: if_splits option.splits)
  obtain i where "i < length (customerOrder s)" "t = served_at i s"
    using deq by (auto simp: dequeueNextJobLocked_def dequeue_from_find find_Some_iff split: if_splits option.splits)
  then show "output_buffer s' = output_buffer s" "output_capacity s' = output_capacity s"
    "QueueDepth s' = QueueDepth s - 1"
    by (simp_all add: s' record_steps QueueDepth_def)
qed

lemma node_fields [simp]:
  "application (set_scheduler s inst) = (application inst)\<lparr>scheduler := s\<rparr>"
  "dispatcher (set_scheduler s inst) = dispatcher inst" "workers (set_scheduler s inst) = workers inst"
  "context_done (set_scheduler s inst) = context_done inst"
  "active_jobs (set_scheduler s inst) = active_jobs inst"
  "active_jobs (inst\<lparr>application := app\<rparr>) = active_jobs inst"
  "active_jobs (inst\<lparr>dispatcher := pc\<rparr>) = active_jobs inst"
  "active_jobs (inst\<lparr>poller_running := b\<rparr>) = active_jobs inst"
  "active_jobs (inst\<lparr>context_done := b\<rparr>) = active_jobs inst"
  "waiting_jobs (inst\<lparr>workers := ws\<rparr>) = waiting_jobs inst"
  "waiting_jobs (inst\<lparr>poller_running := b\<rparr>) = waiting_jobs inst"
  "waiting_jobs (inst\<lparr>context_done := b\<rparr>) = waiting_jobs inst"
  by (simp_all add: set_scheduler_def active_jobs_def waiting_jobs_def)

lemma node_inv_frame [simp]:
  "node_inv cfgs (inst\<lparr>workers := ws\<rparr>) = node_inv cfgs inst"
  "node_inv cfgs (inst\<lparr>dispatcher := pc\<rparr>) = node_inv cfgs inst"
  "node_inv cfgs (inst\<lparr>poller_running := b\<rparr>) = node_inv cfgs inst"
  "node_inv cfgs (inst\<lparr>context_done := b\<rparr>) = node_inv cfgs inst"
  by (simp_all add: node_inv_def)

lemma node_inv_scheduler [simp]:
  "node_inv cfgs (set_scheduler s inst) \<longleftrightarrow> node_inv cfgs (inst\<lparr>application := (application inst)\<lparr>scheduler := s\<rparr>\<rparr>)"
  by (simp add: set_scheduler_def)

lemma node_inv_sched: "node_inv cfgs inst \<Longrightarrow> sched_inv (inst_scheduler inst)"
  by (simp add: node_inv_def Let_def)

lemma node_inv_set_sched:
  "node_inv cfgs inst \<Longrightarrow> sched_inv s \<Longrightarrow> node_inv cfgs (inst\<lparr>application := (application inst)\<lparr>scheduler := s\<rparr>\<rparr>)"
  by (auto simp: node_inv_def Let_def policy_int64_def)

lemma dispatch_effect:
  assumes "dispatch inst inst'" and "node_inv cfgs inst"
  shows "waiting_jobs inst' \<subseteq># waiting_jobs inst \<and> active_jobs inst' = active_jobs inst \<and> node_inv cfgs inst'"
  using assms
proof cases
  case (dispatch_take job s)
  note got = sched_inv_waitForNextJob [OF node_inv_sched [OF assms(2)] dispatch_take(3)]
  show ?thesis
    using got waitForNextJob_output [OF node_inv_sched [OF assms(2)] dispatch_take(3)]
      dispatch_take node_inv_set_sched [OF assms(2)]
    by (auto simp: waiting_jobs_def)
qed (use node_inv_set_sched [OF assms(2)] node_inv_sched [OF assms(2)] in
    \<open>auto simp: waiting_jobs_def queued_jobs_def\<close>)

lemma control_effect:
  assumes "control inst inst'" and "node_inv cfgs inst"
  shows "waiting_jobs inst' = waiting_jobs inst \<and> active_jobs inst' = active_jobs inst \<and> node_inv cfgs inst'"
  using assms
proof cases
  case close_scheduler
  then show ?thesis
    using node_inv_set_sched [OF assms(2) sched_inv_Close [OF node_inv_sched [OF assms(2)]]]
    by (simp add: waiting_jobs_def Close_def queued_jobs_def)
next
  case worker_done
  then obtain w where w: "w < length (workers inst)" "workers inst ! w = WIdle"
    "inst' = inst\<lparr>workers := (workers inst)[w := WStopped]\<rparr>"
    by (auto elim: worker_stop.cases)
  then show ?thesis using active_jobs_update [OF w(1), of WStopped] assms(2) by simp
qed (use assms(2) in simp)

lemma receive_effect:
  assumes "receive inst w job inst'" and "node_inv cfgs inst"
  shows "job \<in># waiting_jobs inst \<and> waiting_jobs inst' = waiting_jobs inst - {#job#} \<and>
    active_jobs inst' = add_mset job (active_jobs inst) \<and> node_inv cfgs inst'"
  using assms
proof cases
  case (receive_buffered rest)
  then show ?thesis
    using active_jobs_update [of w inst "WBusy job"] node_inv_set_sched [OF assms(2)] node_inv_sched [OF assms(2)]
    by (auto simp: waiting_jobs_def queued_jobs_def active_jobs_def)
next
  case receive_direct
  then show ?thesis
    using active_jobs_update [of w inst "WBusy job"] assms(2) by (auto simp: waiting_jobs_def active_jobs_def)
qed

section \<open>A queue shared by instances\<close>

text \<open>
  What instances can rely on in every call, whatever fails: items are only ever added; a claim
  marks some pending items and, when it reports success, hands out exactly those; a mark leaves the
  queue as it was or puts its own item into the state it is named after.
\<close>

definition marks :: "queue_view \<Rightarrow> go_int \<Rightarrow> (queue_item \<Rightarrow> queue_item \<Rightarrow> bool) \<Rightarrow> queue_view \<Rightarrow> bool" where
  "marks V i R V' \<longleftrightarrow> V' = V \<or> (\<exists>it it'. V i = Some it \<and> V' = V(i \<mapsto> it') \<and> R it it')"

definition claims :: "queue_view \<Rightarrow> go_int set \<Rightarrow> queue_view \<Rightarrow> bool" where
  "claims V ids V' \<longleftrightarrow> (\<forall>i \<in> ids. \<exists>it. V i = Some it \<and> item_status it = Pending) \<and>
     (\<forall>i. V' i = (if i \<in> ids then map_option (\<lambda>it. it\<lparr>item_status := Claimed\<rparr>) (V i) else V i))"

definition hands_out :: "queue_view \<Rightarrow> go_int set \<Rightarrow> QueuedDelivery list \<Rightarrow> bool" where
  "hands_out V ids ds \<longleftrightarrow> distinct (handed_ids ds) \<and> set (handed_ids ds) = ids \<and>
     (\<forall>d \<in> set ds. \<exists>it. V (DeliveryQueueItemID d) = Some it \<and> QueuedJob d = item_job it)"

text \<open>What the mark of an outcome does to the item of the delivered job.\<close>

definition outcome_effect :: "'q Application \<Rightarrow> DeliveryResult \<Rightarrow> queue_item \<Rightarrow> queue_item \<Rightarrow> bool" where
  "outcome_effect app result it it' \<longleftrightarrow>
    (case outcome_of app result of
       Delivered \<Rightarrow> item_status it' = Completed \<and> Attempt (item_job it') = Attempt (item_job it)
     | Retried \<Rightarrow> item_status it' = Pending \<and>
         (Attempt (item_job it) < MaxInt64 \<longrightarrow> Attempt (item_job it') = Attempt (item_job it) + 1)
     | Buried \<Rightarrow> item_status it' = DeadLettered \<and> Attempt (item_job it') = Attempt (item_job it))"

lemma marks_mono: "marks V i R V' \<Longrightarrow> (\<And>it it'. R it it' \<Longrightarrow> S it it') \<Longrightarrow> marks V i S V'"
  unfolding marks_def by blast

locale shared_queue =
  fixes repos :: "'q Repository set"
    and invar :: "'q \<Rightarrow> bool"
    and view :: "'q \<Rightarrow> queue_view"
  assumes view_job: "invar q \<Longrightarrow> view q i = Some it \<Longrightarrow> QueueItemID (item_job it) = i \<and> int64 (Attempt (item_job it))"
    and enqueue_law: "repo \<in> repos \<Longrightarrow> invar q \<Longrightarrow>
      repo_EnqueueDeliveries repo ctx ev urls t q = (res, q') \<Longrightarrow>
      invar q' \<and> (\<forall>i it. view q i = Some it \<longrightarrow> view q' i = Some it) \<and>
      (\<forall>i it. view q i = None \<longrightarrow> view q' i = Some it \<longrightarrow> item_status it = Pending \<and> Attempt (item_job it) = 0)"
    and claim_law: "repo \<in> repos \<Longrightarrow> invar q \<Longrightarrow>
      repo_ClaimAvailableDeliveries repo ctx owner limit t q = (out, q') \<Longrightarrow>
      invar q' \<and> (\<exists>ids. claims (view q) ids (view q') \<and> (\<forall>ds. out = Inr ds \<longrightarrow> hands_out (view q) ids ds))"
    and claim_bound: "repo \<in> repos \<Longrightarrow> invar q \<Longrightarrow>
      repo_ClaimAvailableDeliveries repo ctx owner limit t q = (Inr ds, q') \<Longrightarrow> 0 < limit \<Longrightarrow>
      int (length ds) \<le> limit"
    and delivered_law: "repo \<in> repos \<Longrightarrow> invar q \<Longrightarrow> repo_MarkDelivered repo ctx i t q = (e, q') \<Longrightarrow>
      invar q' \<and> marks (view q) i (\<lambda>it it'. item_status it' = Completed \<and> item_job it' = item_job it) (view q')"
    and retry_law: "repo \<in> repos \<Longrightarrow> invar q \<Longrightarrow> repo_MarkRetryPending repo ctx i msg t u q = (e, q') \<Longrightarrow>
      invar q' \<and> marks (view q) i (\<lambda>it it'. item_status it' = Pending \<and>
        (Attempt (item_job it) < MaxInt64 \<longrightarrow> Attempt (item_job it') = Attempt (item_job it) + 1)) (view q')"
    and dead_law: "repo \<in> repos \<Longrightarrow> invar q \<Longrightarrow> repo_MarkDeadLetter repo ctx i msg t q = (e, q') \<Longrightarrow>
      invar q' \<and> marks (view q) i (\<lambda>it it'. item_status it' = DeadLettered \<and>
        Attempt (item_job it') = Attempt (item_job it)) (view q')"
begin

lemma enqueueEvents_law:
  assumes "enqueueEvents_from clock k n events app q = (res, app', q')" and "invar q" and "workQueue app \<in> repos"
  shows "invar q' \<and> (\<forall>i it. view q i = Some it \<longrightarrow> view q' i = Some it) \<and>
    (\<forall>i it. view q i = None \<longrightarrow> view q' i = Some it \<longrightarrow> item_status it = Pending \<and> Attempt (item_job it) = 0)"
  using assms
proof (induction events arbitrary: k n app q)
  case (Cons ev rest)
  show ?case
  proof (cases "\<exists>urls. validateEvent ev = None \<and> reg_ResolveWebhookURLs (registry app) None (CustomerID ev) = Inr urls")
    case False
    then show ?thesis using Cons.prems unfolding enqueueEvents_Cons by (auto split: option.splits sum.splits)
  next
    case True
    then obtain urls where ev: "validateEvent ev = None"
      "reg_ResolveWebhookURLs (registry app) None (CustomerID ev) = Inr urls" by blast
    obtain out q1 where call: "repo_EnqueueDeliveries (workQueue app) None ev urls (clock k) q = (out, q1)" by fastforce
    note law = enqueue_law [OF Cons.prems(3,2) call]
    show ?thesis
    proof (cases out)
      case (Inl e)
      then show ?thesis using law Cons.prems(1) unfolding enqueueEvents_Cons by (simp add: ev call)
    next
      case (Inr m)
      then have "enqueueEvents_from clock (Suc k) (n + m) rest (received app) q1 = (res, app', q')"
        using Cons.prems(1) unfolding enqueueEvents_Cons by (simp add: ev call)
      from Cons.IH [OF this] have "invar q' \<and> (\<forall>i it. view q1 i = Some it \<longrightarrow> view q' i = Some it) \<and>
          (\<forall>i it. view q1 i = None \<longrightarrow> view q' i = Some it \<longrightarrow> item_status it = Pending \<and> Attempt (item_job it) = 0)"
        using law Cons.prems(3) by simp
      then show ?thesis using law by (metis not_None_eq option.inject)
    qed
  qed
qed simp

lemma outcome_mark_law:
  assumes "invar q" and "workQueue app \<in> repos"
  shows "invar (snd (outcome_mark clock ctx app result q)) \<and>
    marks (view q) (QueueItemID (ResultJob result)) (outcome_effect app result)
      (view (snd (outcome_mark clock ctx app result q)))"
proof (cases "outcome_of app result")
  case Delivered
  note law = delivered_law [OF assms(2,1) surjective_pairing, of ctx "QueueItemID (ResultJob result)" "CompletedAt result"]
  have "marks (view q) (QueueItemID (ResultJob result)) (outcome_effect app result)
      (view (snd (repo_MarkDelivered (workQueue app) ctx (QueueItemID (ResultJob result)) (CompletedAt result) q)))"
    by (rule marks_mono [OF conjunct2 [OF law]]) (simp add: outcome_effect_def Delivered)
  then show ?thesis using law by (simp add: outcome_mark_def Let_def Delivered)
next
  case Retried
  then show ?thesis
    using retry_law [OF assms(2,1) surjective_pairing]
    by (simp add: outcome_mark_def Let_def outcome_effect_def [abs_def])
next
  case Buried
  then show ?thesis
    using dead_law [OF assms(2,1) surjective_pairing]
    by (simp add: outcome_mark_def Let_def outcome_effect_def [abs_def])
qed

end

section \<open>The invariant of the system\<close>

definition configs_int64 :: "NotifierConfig set \<Rightarrow> bool" where
  "configs_int64 cfgs \<longleftrightarrow> (\<forall>cfg \<in> cfgs. int64 (InitialRetryDelay cfg) \<and> int64 (MaxRetryAttempts cfg))"

lemma start_node:
  assumes "NewApplication reg newQueue (NewRoundRobinScheduler m) client cfg = Inr app"
    and "cfg \<in> cfgs" and "configs_int64 cfgs"
  shows "node_inv cfgs (start_instance app)" and "waiting_jobs (start_instance app) = {#}"
    and "active_jobs (start_instance app) = {#}" and "QueueDepth (scheduler app) = 0" and "config app = cfg"
proof -
  obtain s where s: "NewRoundRobinScheduler m (wrap64 (WorkerCount cfg * SchedulerBufferMultiplier cfg)) = Some s"
    and app: "scheduler app = s" "config app = cfg"
      "retryPolicy app = \<lparr>InitialDelay = InitialRetryDelay cfg, MaxRetryAttempt = MaxRetryAttempts cfg\<rparr>"
    using assms(1) by (auto simp: NewApplication_def bind_result_Inr_iff split: option.splits)
  show "node_inv cfgs (start_instance app)"
    using sched_inv_New [OF s] counters_New [OF assms(1)] assms(2,3)
    by (simp add: node_inv_def start_instance_def app policy_int64_def configs_int64_def)
  have "output_buffer s = []" "queuedJobCount s = 0"
    using s by (auto simp: NewRoundRobinScheduler_def split: if_splits)
  then show "waiting_jobs (start_instance app) = {#}" "QueueDepth (scheduler app) = 0"
    using sched_inv_New [OF s] by (simp_all add: waiting_jobs_def start_instance_def app QueueDepth_def)
  show "active_jobs (start_instance app) = {#}"
    by (simp add: active_jobs_def start_instance_def map_replicate concat_replicate_trivial)
  show "config app = cfg" by (rule app)
qed

lemma subset_mset_cancel:
  fixes a b c d :: "'a multiset"
  assumes "a + b = c + d" and "d \<subseteq># b"
  shows "a \<subseteq># c"
  using assms by (metis add.commute add.left_commute add_left_imp_eq mset_subset_eq_add_left mset_subset_eq_exists_conv)

lemma node_inv_app:
  assumes "node_inv cfgs inst" and "scheduler app = inst_scheduler inst" and "counters_inv app"
    and "config app = config (application inst)" and "retryPolicy app = retryPolicy (application inst)"
  shows "node_inv cfgs (inst\<lparr>application := app\<rparr>)" and "waiting_jobs (inst\<lparr>application := app\<rparr>) = waiting_jobs inst"
  using assms by (auto simp: node_inv_def Let_def policy_int64_def waiting_jobs_def)

lemma report_frame:
  "scheduler (report_metrics ctx now app q) = scheduler app" "config (report_metrics ctx now app q) = config app"
  "retryPolicy (report_metrics ctx now app q) = retryPolicy app"
  "counters_inv app \<Longrightarrow> counters_inv (report_metrics ctx now app q)"
  by (auto simp: report_metrics_def Let_def counters_inv_def split: sum.split)

text \<open>A batch and a single event are one and the same loop.\<close>

lemma handlers_enqueue:
  "handleBatchEvents clock decoded app q = (answer, app', q') \<Longrightarrow>
    app' = app \<and> q' = q \<or> (\<exists>events res. enqueueEvents_from clock 0 0 events app q = (res, app', q'))"
  "handleSingleEvent clock decoded_one app q = (answer, app', q') \<Longrightarrow>
    app' = app \<and> q' = q \<or> (\<exists>events res. enqueueEvents_from clock 0 0 events app q = (res, app', q'))"
  by (auto simp: handleBatchEvents_def handleSingleEvent_def enqueueEvents_def
      simp del: enqueueEvents_from.simps split: sum.splits prod.splits)

lemma nodes_update:
  "\<forall>inst \<in> set xs. P inst \<Longrightarrow> P y \<Longrightarrow> \<forall>inst \<in> set (xs[n := y]). P inst"
  using set_update_subset_insert [of xs n y] by blast

context shared_queue
begin

definition sys_inv :: "NotifierConfig set \<Rightarrow> 'q system \<Rightarrow> bool" where
  "sys_inv cfgs sys \<longleftrightarrow> invar (queue sys) \<and> (\<forall>inst \<in> set (instances sys). node_inv cfgs inst) \<and>
     core_inv (view (queue sys)) (waiting sys) (active sys) (attempts sys)"

lemma ingest_inv:
  assumes inv: "sys_inv cfgs sys" and n: "n < length (instances sys)" and repo: "repo \<in> repos"
    and eff: "app' = (application (instances sys ! n))\<lparr>workQueue := repo, registry := reg\<rparr> \<and> q' = queue sys \<or>
      (\<exists>events res. enqueueEvents_from clock 0 0 events
        ((application (instances sys ! n))\<lparr>workQueue := repo, registry := reg\<rparr>) (queue sys) = (res, app', q'))"
  shows "sys_inv cfgs (sys\<lparr>instances := (instances sys)[n := (instances sys ! n)\<lparr>application := app'\<rparr>], queue := q'\<rparr>)"
proof -
  let ?inst = "instances sys ! n" and ?app = "(application (instances sys ! n))\<lparr>workQueue := repo, registry := reg\<rparr>"
  have node: "node_inv cfgs ?inst" using inv n by (simp add: sys_inv_def)
  have "counters_inv ?app" using node by (simp add: node_inv_def Let_def)
  then have "counters_inv app' \<and> scheduler app' = scheduler ?app \<and> config app' = config ?app \<and>
      retryPolicy app' = retryPolicy ?app"
    using eff
  proof (elim disjE exE)
    fix events res
    assume "enqueueEvents_from clock 0 0 events ?app (queue sys) = (res, app', q')"
    from counters_enqueueEvents [OF this \<open>counters_inv ?app\<close>] enqueueEvents_frame [OF this]
    show ?thesis by simp
  qed (simp add: \<open>counters_inv ?app\<close>)
  then have app': "counters_inv app'" "scheduler app' = inst_scheduler ?inst"
    "config app' = config (application ?inst)" "retryPolicy app' = retryPolicy (application ?inst)" by simp_all
  note node' = node_inv_app [OF node app'(2) app'(1) app'(3,4)]
  have q': "invar q' \<and> (\<forall>i it. view (queue sys) i = Some it \<longrightarrow> view q' i = Some it)"
    using eff enqueueEvents_law [where app = ?app and q = "queue sys"] inv repo by (auto simp: sys_inv_def)
  have "core_inv (view q') (waiting sys) (active sys) (attempts sys)"
    by (rule core_inv_extend [where V = "view (queue sys)"]) (use inv q' in \<open>auto simp: sys_inv_def\<close>)
  then show ?thesis
    using inv q' node' jobs_same [OF n node'(2)] nodes_update [of "instances sys" "node_inv cfgs"]
    by (simp add: sys_inv_def)
qed

text \<open>A poll claims some items and schedules all of them, or none when the claim reports an error.\<close>

lemma poll_effect:
  assumes q: "invar q" and repo: "repo \<in> repos" and app: "workQueue app = repo"
    and call: "claimAndSchedule ctx owner now app q = (failure, app', q')"
  obtains ds ids where "app' = app\<lparr>scheduler := foldl (\<lambda>s d. Enqueue (QueuedJob d) s) (scheduler app) ds\<rparr>"
    and "invar q'" and "claims (view q) ids (view q')" and "ds = [] \<and> (failure = None \<longrightarrow> ids = {}) \<or> hands_out (view q) ids ds"
    and "ds = [] \<or> \<not> scheduledQueueIsFull app \<and>
      repo_ClaimAvailableDeliveries repo ctx owner (QueueClaimBatchSize (config app)) now q = (Inr ds, q')"
    and "failure = None \<or> (\<exists>e. repo_ClaimAvailableDeliveries repo ctx owner (QueueClaimBatchSize (config app)) now q = (Inl e, q'))"
proof (cases "scheduledQueueIsFull app")
  case True
  then show ?thesis
    using that [of "[]" "{}"] call q by (simp add: claimAndSchedule_def claims_def)
next
  case False
  obtain res q1 where res: "repo_ClaimAvailableDeliveries repo ctx owner (QueueClaimBatchSize (config app)) now q = (res, q1)"
    by fastforce
  show ?thesis
  proof (cases res)
    case (Inl e)
    then show ?thesis
      using claim_law [OF repo q res] that [of "[]"] call False res by (auto simp: claimAndSchedule_def app)
  next
    case (Inr ds)
    obtain ids where "claims (view q) ids (view q1)" "hands_out (view q) ids ds" "invar q1"
      using claim_law [OF repo q res] Inr by auto
    then show ?thesis
      using that [of ds ids] call False res Inr by (auto simp: claimAndSchedule_def app)
  qed
qed

text \<open>The jobs a claim hands out are the claimed items, each once.\<close>

lemma handed_jobs:
  assumes q: "invar q" and out: "ds = [] \<or> hands_out (view q) ids ds"
  shows "job \<in> set (map QueuedJob ds) \<Longrightarrow> QueueItemID job \<in> ids \<and> (\<exists>it. view q (QueueItemID job) = Some it \<and> item_job it = job)"
    and "count (job_ids (mset (map QueuedJob ds))) i \<le> 1"
    and "set_mset (job_ids (mset (map QueuedJob ds))) = set (handed_ids ds)"
proof -
  show "QueueItemID job \<in> ids \<and> (\<exists>it. view q (QueueItemID job) = Some it \<and> item_job it = job)"
    if "job \<in> set (map QueuedJob ds)"
    using that out view_job [OF q] by (fastforce simp: hands_out_def)
  have same_ids: "map (QueueItemID \<circ> QueuedJob) ds = handed_ids ds"
    using out view_job [OF q] by (fastforce simp: hands_out_def)
  have ids: "job_ids (mset (map QueuedJob ds)) = mset (handed_ids ds)"
    by (simp add: multiset.map_comp flip: mset_map same_ids)
  moreover have "distinct (handed_ids ds)" using out by (auto simp: hands_out_def)
  ultimately show "count (job_ids (mset (map QueuedJob ds))) i \<le> 1"
    using distinct_count_atmost_1 [of "handed_ids ds"] by simp
  show "set_mset (job_ids (mset (map QueuedJob ds))) = set (handed_ids ds)" unfolding ids by simp
qed

text \<open>The jobs in memory after a poll.\<close>

lemma poll_jobs:
  assumes n: "n < length (instances sys)" and node: "node_inv cfgs (instances sys ! n)"
    and app': "app' = (application (instances sys ! n))
      \<lparr>workQueue := repo, scheduler := foldl (\<lambda>s d. Enqueue (QueuedJob d) s) (inst_scheduler (instances sys ! n)) ds\<rparr>"
    and new: "inst' = (instances sys ! n)\<lparr>application := app', poller_running := b\<rparr>"
  shows "waiting (sys\<lparr>instances := (instances sys)[n := inst']\<rparr>) = waiting sys + mset (map QueuedJob ds)"
    and "active (sys\<lparr>instances := (instances sys)[n := inst']\<rparr>) = active sys"
    and "node_inv cfgs inst'"
proof -
  note sched = sched_Enqueue_all [OF node_inv_sched [OF node], of ds]
  have "waiting_jobs inst' = waiting_jobs (instances sys ! n) + mset (map QueuedJob ds)"
    using sched by (simp add: waiting_jobs_def new app' ac_simps)
  then show "waiting (sys\<lparr>instances := (instances sys)[n := inst']\<rparr>) = waiting sys + mset (map QueuedJob ds)"
    using jobs_update(1) [OF n, of inst']
    by (simp add: add.left_commute [of "waiting sys"] add.commute [of _ "waiting_jobs (instances sys ! n)"])
  show "active (sys\<lparr>instances := (instances sys)[n := inst']\<rparr>) = active sys"
    using jobs_update(2) [OF n, of inst'] by (simp add: new)
  show "node_inv cfgs inst'"
    using node sched(1) by (auto simp: node_inv_def Let_def new app' policy_int64_def)
qed

lemma poll_inv:
  assumes inv: "sys_inv cfgs sys" and n: "n < length (instances sys)" and repo: "repo \<in> repos"
    and call: "claimAndSchedule ctx owner now ((application (instances sys ! n))\<lparr>workQueue := repo\<rparr>) (queue sys) =
      (failure, app', q')"
  shows "sys_inv cfgs (sys\<lparr>instances := (instances sys)[n := (instances sys ! n)\<lparr>application := app',
    poller_running := b\<rparr>], queue := q'\<rparr>)"
proof -
  let ?new = "(instances sys ! n)\<lparr>application := app', poller_running := b\<rparr>"
  have node: "node_inv cfgs (instances sys ! n)" and q: "invar (queue sys)"
    and core: "core_inv (view (queue sys)) (waiting sys) (active sys) (attempts sys)"
    using inv n by (simp_all add: sys_inv_def)
  obtain ds ids where app': "app' = (application (instances sys ! n))\<lparr>workQueue := repo,
      scheduler := foldl (\<lambda>s d. Enqueue (QueuedJob d) s) (inst_scheduler (instances sys ! n)) ds\<rparr>"
    and q': "invar q'" and ids: "claims (view (queue sys)) ids (view q')"
    and out: "ds = [] \<or> hands_out (view (queue sys)) ids ds"
    by (rule poll_effect [OF q repo _ call]) auto
  note jobs = poll_jobs [OF n node app' refl, of b]
  have "core_inv (view q') (waiting sys + mset (map QueuedJob ds)) (active sys) (attempts sys)"
    by (rule core_inv_claim [OF core _ _ _ handed_jobs(2) [OF q out]])
       (use ids handed_jobs(1) [OF q out] in \<open>auto simp: claims_def\<close>)
  moreover have "\<forall>inst \<in> set ((instances sys)[n := ?new]). node_inv cfgs inst"
    by (rule nodes_update) (use inv jobs(3) in \<open>simp_all add: sys_inv_def\<close>)
  ultimately show ?thesis using q' jobs by (simp add: sys_inv_def)
qed

lemma finish_inv:
  assumes inv: "sys_inv cfgs sys" and n: "n < length (instances sys)" and repo: "repo \<in> repos"
    and w: "w < length (workers (instances sys ! n))" "workers (instances sys ! n) ! w = WBusy job"
    and call: "runWorker_job clock ctx job
      ((application (instances sys ! n))\<lparr>workQueue := repo, deliver := Deliver env (NewHTTPClient timeout)\<rparr>) (queue sys) =
      Some (app', q')"
  shows "sys_inv cfgs (sys\<lparr>instances := (instances sys)[n := (instances sys ! n)\<lparr>application := app',
      workers := (workers (instances sys ! n))[w := WIdle]\<rparr>], queue := q'\<rparr>)"
    and "marks (view (queue sys)) (QueueItemID job)
      (outcome_effect (application (instances sys ! n)) (Deliver env (NewHTTPClient timeout) ctx job)) (view q')"
proof -
  let ?inst = "instances sys ! n" and ?V = "view (queue sys)"
  let ?app = "(application ?inst)\<lparr>workQueue := repo, deliver := Deliver env (NewHTTPClient timeout)\<rparr>"
  let ?r = "Deliver env (NewHTTPClient timeout) ctx job"
  let ?new = "?inst\<lparr>application := app', workers := (workers ?inst)[w := WIdle]\<rparr>"
  have node: "node_inv cfgs ?inst" and core: "core_inv ?V (waiting sys) (active sys) (attempts sys)"
    and q: "invar (queue sys)" using inv n by (simp_all add: sys_inv_def)
  have [simp]: "ResultJob ?r = job" by (rule http.result_job)
  have one: "active_jobs ?inst = add_mset job (active_jobs ?new)"
    using active_jobs_update [OF w(1), of WIdle] by (simp add: w(2) active_jobs_def)
  have less: "active sys = add_mset job (active (sys\<lparr>instances := (instances sys)[n := ?new]\<rparr>))"
    using jobs_update(2) [OF n, of ?new] by (simp add: one)
  then have "claimed_as ?V job" using core_invD(2) [OF core, of job] by simp
  then obtain it where it: "?V (QueueItemID job) = Some it" "item_job it = job" by (auto simp: claimed_as_def)
  have "int64 (Attempt job)" using view_job [OF q it(1)] it(2) by simp
  moreover have policy: "policy_int64 ?app" using node by (auto simp: node_inv_def policy_int64_def Let_def)
  ultimately obtain app1 where run: "runWorker_job clock ctx job ?app (queue sys) =
      Some (app1, snd (outcome_mark clock ctx ?app ?r (queue sys)))"
    and app1: "scheduler app1 = scheduler ?app" "config app1 = config ?app" "retryPolicy app1 = retryPolicy ?app"
    using runWorker_job_outcome [of ?app ctx job clock "queue sys"] by auto
  then have [simp]: "app1 = app'" and q': "q' = snd (outcome_mark clock ctx ?app ?r (queue sys))"
    using call by simp_all
  have "outcome_effect ?app ?r = outcome_effect (application ?inst) ?r"
    by (simp add: outcome_effect_def outcome_of_def fun_eq_iff)
  then show mark: "marks ?V (QueueItemID job) (outcome_effect (application ?inst) ?r) (view q')"
    using outcome_mark_law [OF q, of ?app clock ctx ?r] repo by (simp add: q')
  have "counters_inv app'"
    using counters_runWorker [OF _ policy _ call] node \<open>int64 (Attempt job)\<close> by (simp add: node_inv_def Let_def)
  note node' = node_inv_app [OF node, of app'] app1 this
  have "Attempt job < MaxInt64" if "outcome_of (application ?inst) ?r = Retried"
    using that policy by (auto simp: outcome_of_def CanRetry_def policy_int64_def int64_def split: if_splits)
  then have "settled ?V (QueueItemID job) (view q')"
    using mark it unfolding marks_def settled_def outcome_effect_def
    by (cases "outcome_of (application ?inst) ?r") auto
  from core_inv_finish [OF core _ this]
  have "core_inv (view q') (waiting sys) (active (sys\<lparr>instances := (instances sys)[n := ?new]\<rparr>)) (attempts sys)"
    unfolding less by simp
  moreover have "waiting (sys\<lparr>instances := (instances sys)[n := ?new]\<rparr>) = waiting sys"
    using jobs_update(1) [OF n, of ?new] node' by simp
  moreover have "\<forall>inst \<in> set ((instances sys)[n := ?new]). node_inv cfgs inst"
    by (rule nodes_update) (use inv node' in \<open>simp_all add: sys_inv_def\<close>)
  moreover have "invar q'" using outcome_mark_law [OF q, of ?app clock ctx ?r] repo by (simp add: q')
  ultimately show "sys_inv cfgs (sys\<lparr>instances := (instances sys)[n := ?new], queue := q'\<rparr>)"
    by (simp add: sys_inv_def)
qed

text \<open>A step inside one instance that touches neither queue nor log.\<close>

lemma local_inv:
  assumes inv: "sys_inv cfgs sys" and n: "n < length (instances sys)"
    and "waiting_jobs inst' \<subseteq># waiting_jobs (instances sys ! n)" and "active_jobs inst' = active_jobs (instances sys ! n)"
    and "node_inv cfgs inst'"
  shows "sys_inv cfgs (sys\<lparr>instances := (instances sys)[n := inst']\<rparr>)"
proof -
  have "waiting (sys\<lparr>instances := (instances sys)[n := inst']\<rparr>) \<subseteq># waiting sys"
    by (rule subset_mset_cancel [OF jobs_update(1) [OF n] assms(3)])
  moreover have "active (sys\<lparr>instances := (instances sys)[n := inst']\<rparr>) = active sys"
    using jobs_update(2) [OF n, of inst'] assms(4) by simp
  moreover have "\<forall>inst \<in> set ((instances sys)[n := inst']). node_inv cfgs inst"
    by (rule nodes_update) (use inv assms(5) in \<open>simp_all add: sys_inv_def\<close>)
  ultimately show ?thesis using inv core_inv_shrink by (auto simp: sys_inv_def)
qed

lemma receive_inv:
  assumes inv: "sys_inv cfgs sys" and n: "n < length (instances sys)" and "receive (instances sys ! n) w job inst'"
  shows "sys_inv cfgs (sys\<lparr>instances := (instances sys)[n := inst'],
    attempts := attempts sys @ [(QueueItemID job, Attempt job)]\<rparr>)"
proof -
  have node: "node_inv cfgs (instances sys ! n)" using inv n by (simp add: sys_inv_def)
  note eff = receive_effect [OF assms(3) node]
  from multi_member_split [OF conjunct1 [OF eff]]
  obtain J where J: "waiting_jobs (instances sys ! n) = add_mset job J" by blast
  have W: "waiting sys = add_mset job (waiting (sys\<lparr>instances := (instances sys)[n := inst']\<rparr>))"
    using jobs_update(1) [OF n, of inst'] eff by (simp add: J)
  have A: "active (sys\<lparr>instances := (instances sys)[n := inst']\<rparr>) = add_mset job (active sys)"
    using jobs_update(2) [OF n, of inst'] eff by simp
  have "core_inv (view (queue sys)) (waiting sys - {#job#}) (add_mset job (active sys))
      (attempts sys @ [(QueueItemID job, Attempt job)])"
    by (rule core_inv_receive) (use inv W in \<open>simp_all add: sys_inv_def\<close>)
  moreover have "\<forall>inst \<in> set ((instances sys)[n := inst']). node_inv cfgs inst"
    by (rule nodes_update) (use inv eff in \<open>simp_all add: sys_inv_def\<close>)
  ultimately show ?thesis using inv by (simp add: sys_inv_def A) (simp add: W)
qed

lemma crash_jobs:
  assumes n: "n < length (instances sys)"
  shows "waiting (sys\<lparr>instances := take n (instances sys) @ drop (Suc n) (instances sys)\<rparr>) \<subseteq># waiting sys"
    and "active (sys\<lparr>instances := take n (instances sys) @ drop (Suc n) (instances sys)\<rparr>) \<subseteq># active sys"
proof -
  let ?sys = "sys\<lparr>instances := take n (instances sys) @ drop (Suc n) (instances sys)\<rparr>"
  have split: "instances sys = take n (instances sys) @ instances sys ! n # drop (Suc n) (instances sys)"
    using n by (rule id_take_nth_drop)
  have "waiting ?sys + waiting_jobs (instances sys ! n) = waiting sys"
    unfolding waiting_def by (subst (4) split) (simp add: ac_simps)
  then show "waiting ?sys \<subseteq># waiting sys" by (metis mset_subset_eq_add_left)
  have "active ?sys + active_jobs (instances sys ! n) = active sys"
    unfolding active_def by (subst (4) split) (simp add: ac_simps)
  then show "active ?sys \<subseteq># active sys" by (metis mset_subset_eq_add_left)
qed

lemma crash_inv:
  assumes inv: "sys_inv cfgs sys" and n: "n < length (instances sys)"
  shows "sys_inv cfgs (sys\<lparr>instances := take n (instances sys) @ drop (Suc n) (instances sys)\<rparr>)"
proof -
  have "set (take n (instances sys) @ drop (Suc n) (instances sys)) \<subseteq> set (instances sys)"
    by (auto dest: in_set_takeD in_set_dropD)
  then show ?thesis using inv core_inv_shrink [OF _ crash_jobs [OF n]] unfolding sys_inv_def by auto
qed

lemma step_inv:
  assumes "step cfgs repos l sys sys'" and inv: "sys_inv cfgs sys" and "configs_int64 cfgs"
  shows "sys_inv cfgs sys'"
proof -
  have node: "node_inv cfgs (instances sys ! n)" if "n < length (instances sys)" for n
    using inv that by (simp add: sys_inv_def)
  from assms(1) show ?thesis
  proof cases
  case (step_start cfg newRegistry newQueue max_buffer client app)
  note node = start_node [OF step_start(4) step_start(3) assms(3)]
  then show ?thesis using inv step_start by (simp add: sys_inv_def waiting_def active_def)
next
  case (step_crash n)
  then show ?thesis using crash_inv [OF inv] by simp
next
  case (step_cancel n)
  then show ?thesis using local_inv [OF inv step_cancel(3)] node [OF step_cancel(3)] by simp
next
  case (step_control n inst')
  then show ?thesis
    using local_inv [OF inv step_control(3)] control_effect [OF step_control(4) node [OF step_control(3)]] by simp
next
  case (step_dispatch n inst')
  then show ?thesis
    using local_inv [OF inv step_dispatch(3)] dispatch_effect [OF step_dispatch(4) node [OF step_dispatch(3)]] by simp
next
  case (step_ingest n inst repo clock decoded reg answer app' q')
  from ingest_inv [OF inv step_ingest(3,5) handlers_enqueue(1) [OF step_ingest(6) [unfolded step_ingest(4)]]]
  show ?thesis by (simp add: step_ingest(2,4))
next
  case (step_ingest_one n inst repo clock decoded_one reg answer app' q')
  from ingest_inv [OF inv step_ingest_one(3,5) handlers_enqueue(2) [OF step_ingest_one(6) [unfolded step_ingest_one(4)]]]
  show ?thesis by (simp add: step_ingest_one(2,4))
next
  case (step_report n inst repo now)
  have "node_inv cfgs inst" using node step_report by simp
  then have "node_inv cfgs (inst\<lparr>application := report_metrics (inst_context inst) now ((application inst)\<lparr>workQueue := repo\<rparr>) (queue sys)\<rparr>) \<and>
      waiting_jobs (inst\<lparr>application := report_metrics (inst_context inst) now ((application inst)\<lparr>workQueue := repo\<rparr>) (queue sys)\<rparr>) =
      waiting_jobs inst"
    by (intro conjI node_inv_app) (auto simp: report_frame node_inv_def Let_def)
  then show ?thesis using local_inv [OF inv] step_report by simp
next
  case (step_poll n inst repo owner now failure app' q')
  then show ?thesis using poll_inv [OF inv] by blast
next
  case (step_receive n w job inst')
  then show ?thesis using receive_inv [OF inv] by blast
next
  case (step_finish n inst w job repo clock env timeout app' q')
  then show ?thesis using finish_inv(1) [OF inv] by blast
  qed
qed

lemma reachable_inv:
  assumes "reachable cfgs repos kinds q0 sys" and "configs_int64 cfgs" and "invar q0"
  shows "sys_inv cfgs sys"
  using assms(1)
proof induction
  case reachable_init
  then show ?case using assms(3) by (simp add: sys_inv_def waiting_def active_def core_inv_init)
next
  case (reachable_step sys l sys')
  then show ?case using step_inv assms(2) by blast
qed

end

end
