(* ===== verification/Runtime_Safety.thy ===== *)
theory Runtime_Safety
  imports Runtime_Laws
begin

text \<open>
  Consequences of the invariant of the running system, for every queue that meets \<open>shared_queue\<close>:
  how a step changes the queue and the log, that an item nobody holds and that is not pending stays
  as it is for ever, how many attempts an item can get, how deep the scheduled queue can become;
  and, for queues without faults (\<open>reliable_queue\<close>), that a run without crashes and cancellation
  keeps every claimed item in the memory of an instance.
\<close>

section \<open>What a step does to the queue and the log\<close>

definition held_ids :: "'q system \<Rightarrow> go_int set" where
  "held_ids sys = set_mset (job_ids (waiting sys + active sys))"

context shared_queue
begin

text \<open>The four ways in which a step can touch the queue or the log.\<close>

definition local_step :: "'q system \<Rightarrow> 'q system \<Rightarrow> bool" where
  "local_step sys sys' \<longleftrightarrow> queue sys' = queue sys \<and> attempts sys' = attempts sys \<and> held_ids sys' \<subseteq> held_ids sys"

definition enqueue_step :: "'q system \<Rightarrow> 'q system \<Rightarrow> bool" where
  "enqueue_step sys sys' \<longleftrightarrow> attempts sys' = attempts sys \<and> held_ids sys' = held_ids sys \<and>
     (\<forall>i it. view (queue sys) i = Some it \<longrightarrow> view (queue sys') i = Some it) \<and>
     (\<forall>i it. view (queue sys) i = None \<longrightarrow> view (queue sys') i = Some it \<longrightarrow>
        item_status it = Pending \<and> Attempt (item_job it) = 0)"

definition claim_step :: "'q system \<Rightarrow> 'q system \<Rightarrow> bool" where
  "claim_step sys sys' \<longleftrightarrow> attempts sys' = attempts sys \<and>
     (\<exists>ids. claims (view (queue sys)) ids (view (queue sys')) \<and>
        held_ids sys \<subseteq> held_ids sys' \<and> held_ids sys' \<subseteq> held_ids sys \<union> ids)"

definition receive_step :: "'q system \<Rightarrow> 'q system \<Rightarrow> bool" where
  "receive_step sys sys' \<longleftrightarrow> queue sys' = queue sys \<and> held_ids sys' = held_ids sys \<and>
     (\<exists>job. job \<in># waiting sys \<and> attempts sys' = attempts sys @ [(QueueItemID job, Attempt job)])"

definition finish_step :: "NotifierConfig set \<Rightarrow> 'q system \<Rightarrow> 'q system \<Rightarrow> bool" where
  "finish_step cfgs sys sys' \<longleftrightarrow> attempts sys' = attempts sys \<and>
     (\<exists>job app result. job \<in># active sys \<and> held_ids sys' = held_ids sys - {QueueItemID job} \<and>
        ResultJob result = job \<and> config app \<in> cfgs \<and>
        MaxRetryAttempt (retryPolicy app) = MaxRetryAttempts (config app) \<and> policy_int64 (app :: 'q Application) \<and>
        marks (view (queue sys)) (QueueItemID job) (outcome_effect app result) (view (queue sys')))"

lemma held_ids_mono: "waiting sys' \<subseteq># waiting sys \<Longrightarrow> active sys' \<subseteq># active sys \<Longrightarrow> held_ids sys' \<subseteq> held_ids sys"
  unfolding held_ids_def
  by (rule set_mset_mono) (rule image_mset_subseteq_mono, rule subset_mset.add_mono)

lemma held_ids_local:
  assumes "n < length (instances sys)"
    and "waiting_jobs inst' \<subseteq># waiting_jobs (instances sys ! n)" and "active_jobs inst' = active_jobs (instances sys ! n)"
  shows "held_ids (sys\<lparr>instances := (instances sys)[n := inst']\<rparr>) \<subseteq> held_ids sys"
  by (rule held_ids_mono)
     (use subset_mset_cancel [OF jobs_update(1) [OF assms(1)] assms(2)] jobs_update(2) [OF assms(1), of inst'] assms(3)
      in simp_all)

lemma held_ids_frame [simp]:
  "held_ids (sys\<lparr>queue := q\<rparr>) = held_ids sys" "held_ids (sys\<lparr>attempts := L\<rparr>) = held_ids sys"
  by (simp_all add: held_ids_def)

lemma held_ids_same:
  assumes "n < length (instances sys)" and "waiting_jobs inst' = waiting_jobs (instances sys ! n)"
    and "active_jobs inst' = active_jobs (instances sys ! n)"
  shows "held_ids (sys\<lparr>instances := (instances sys)[n := inst']\<rparr>) = held_ids sys"
  using jobs_same [OF assms] by (simp add: held_ids_def)

lemma ingest_step:
  assumes inv: "sys_inv cfgs sys" and n: "n < length (instances sys)" and repo: "repo \<in> repos"
    and eff: "app' = (application (instances sys ! n))\<lparr>workQueue := repo, registry := reg\<rparr> \<and> q' = queue sys \<or>
      (\<exists>events res. enqueueEvents_from clock 0 0 events
        ((application (instances sys ! n))\<lparr>workQueue := repo, registry := reg\<rparr>) (queue sys) = (res, app', q'))"
  shows "enqueue_step sys (sys\<lparr>instances := (instances sys)[n := (instances sys ! n)\<lparr>application := app'\<rparr>], queue := q'\<rparr>)"
proof -
  let ?app = "(application (instances sys ! n))\<lparr>workQueue := repo, registry := reg\<rparr>"
  have "scheduler app' = scheduler ?app" using eff enqueueEvents_frame by metis
  then have "held_ids (sys\<lparr>instances := (instances sys)[n := (instances sys ! n)\<lparr>application := app'\<rparr>]\<rparr>) = held_ids sys"
    by (intro held_ids_same [OF n]) (simp_all add: waiting_jobs_def)
  moreover have "(\<forall>i it. view (queue sys) i = Some it \<longrightarrow> view q' i = Some it) \<and>
     (\<forall>i it. view (queue sys) i = None \<longrightarrow> view q' i = Some it \<longrightarrow> item_status it = Pending \<and> Attempt (item_job it) = 0)"
    using eff enqueueEvents_law [where app = ?app and q = "queue sys"] inv repo by (auto simp: sys_inv_def)
  ultimately show ?thesis by (simp add: enqueue_step_def)
qed

lemma poll_step:
  assumes inv: "sys_inv cfgs sys" and n: "n < length (instances sys)" and repo: "repo \<in> repos"
    and call: "claimAndSchedule ctx owner now ((application (instances sys ! n))\<lparr>workQueue := repo\<rparr>) (queue sys) =
      (failure, app', q')"
  shows "claim_step sys (sys\<lparr>instances := (instances sys)[n := (instances sys ! n)\<lparr>application := app',
    poller_running := b\<rparr>], queue := q'\<rparr>)"
proof -
  have node: "node_inv cfgs (instances sys ! n)" and q: "invar (queue sys)" using inv n by (simp_all add: sys_inv_def)
  obtain ds ids where app': "app' = (application (instances sys ! n))\<lparr>workQueue := repo,
      scheduler := foldl (\<lambda>s d. Enqueue (QueuedJob d) s) (inst_scheduler (instances sys ! n)) ds\<rparr>"
    and ids: "claims (view (queue sys)) ids (view q')"
    and out: "ds = [] \<or> hands_out (view (queue sys)) ids ds"
    by (rule poll_effect [OF q repo _ call]) auto
  note jobs = poll_jobs [OF n node app' refl, of b]
  have "set (handed_ids ds) \<subseteq> ids" using out by (auto simp: hands_out_def)
  moreover have "held_ids (sys\<lparr>instances := (instances sys)[n := (instances sys ! n)
      \<lparr>application := app', poller_running := b\<rparr>]\<rparr>) = held_ids sys \<union> set (handed_ids ds)"
    using handed_jobs(3) [OF q out] unfolding held_ids_def jobs(1,2) by auto
  ultimately show ?thesis using ids by (auto simp: claim_step_def simp del: set_map)
qed

lemma recv_step:
  assumes inv: "sys_inv cfgs sys" and n: "n < length (instances sys)" and "receive (instances sys ! n) w job inst'"
  shows "receive_step sys (sys\<lparr>instances := (instances sys)[n := inst'],
    attempts := attempts sys @ [(QueueItemID job, Attempt job)]\<rparr>)"
proof -
  have node: "node_inv cfgs (instances sys ! n)" using inv n by (simp add: sys_inv_def)
  note eff = receive_effect [OF assms(3) node]
  from multi_member_split [OF conjunct1 [OF eff]]
  obtain J where J: "waiting_jobs (instances sys ! n) = add_mset job J" by blast
  have W: "waiting sys = add_mset job (waiting (sys\<lparr>instances := (instances sys)[n := inst']\<rparr>))"
    using jobs_update(1) [OF n, of inst'] eff by (simp add: J)
  have A: "active (sys\<lparr>instances := (instances sys)[n := inst']\<rparr>) = add_mset job (active sys)"
    using jobs_update(2) [OF n, of inst'] eff by simp
  have "held_ids (sys\<lparr>instances := (instances sys)[n := inst']\<rparr>) = held_ids sys"
    unfolding held_ids_def A W by auto
  then show ?thesis using W by (auto simp: receive_step_def)
qed

lemma finish_held:
  assumes inv: "sys_inv cfgs sys" and n: "n < length (instances sys)" and repo: "repo \<in> repos"
    and w: "w < length (workers (instances sys ! n))" "workers (instances sys ! n) ! w = WBusy job"
    and call: "runWorker_job clock ctx job
      ((application (instances sys ! n))\<lparr>workQueue := repo, deliver := Deliver env (NewHTTPClient timeout)\<rparr>) (queue sys) =
      Some (app', q')"
  shows "held_ids (sys\<lparr>instances := (instances sys)[n := (instances sys ! n)\<lparr>application := app',
      workers := (workers (instances sys ! n))[w := WIdle]\<rparr>], queue := q'\<rparr>) = held_ids sys - {QueueItemID job}"
    and "job \<in># active sys"
proof -
  let ?inst = "instances sys ! n"
  let ?new = "?inst\<lparr>application := app', workers := (workers ?inst)[w := WIdle]\<rparr>"
  have core: "core_inv (view (queue sys)) (waiting sys) (active sys) (attempts sys)"
    using inv n by (simp_all add: sys_inv_def)
  have one: "active_jobs ?inst = add_mset job (active_jobs ?new)"
    using active_jobs_update [OF w(1), of WIdle] by (simp add: w(2) active_jobs_def)
  define sys1 where "sys1 = sys\<lparr>instances := (instances sys)[n := ?new]\<rparr>"
  have A: "active sys = add_mset job (active sys1)"
    using jobs_update(2) [OF n, of ?new] by (simp add: one sys1_def)
  then show "job \<in># active sys" by simp
  have W: "waiting sys1 = waiting sys"
    using jobs_update(1) [OF n, of ?new] runWorker_frame(1) [OF call] by (simp add: waiting_jobs_def sys1_def)
  have "QueueItemID j \<noteq> QueueItemID job" if "j \<in># waiting sys + active sys1" for j
    using unique_id [of "waiting sys + active sys" job j] core_invD(1) [OF core] that by (simp add: A)
  then have "QueueItemID job \<notin> held_ids sys1" unfolding held_ids_def W by fastforce
  then have "held_ids sys1 = held_ids sys - {QueueItemID job}"
    by (auto simp: held_ids_def A W)
  then show "held_ids (sys\<lparr>instances := (instances sys)[n := ?new], queue := q'\<rparr>) = held_ids sys - {QueueItemID job}"
    by (simp add: sys1_def)
qed

lemma fin_step:
  assumes inv: "sys_inv cfgs sys" and n: "n < length (instances sys)" and repo: "repo \<in> repos"
    and w: "w < length (workers (instances sys ! n))" "workers (instances sys ! n) ! w = WBusy job"
    and call: "runWorker_job clock ctx job
      ((application (instances sys ! n))\<lparr>workQueue := repo, deliver := Deliver env (NewHTTPClient timeout)\<rparr>) (queue sys) =
      Some (app', q')"
  shows "finish_step cfgs sys (sys\<lparr>instances := (instances sys)[n := (instances sys ! n)\<lparr>application := app',
      workers := (workers (instances sys ! n))[w := WIdle]\<rparr>], queue := q'\<rparr>)"
proof -
  let ?app = "application (instances sys ! n)" and ?r = "Deliver env (NewHTTPClient timeout) ctx job"
  have "node_inv cfgs (instances sys ! n)" using inv n by (simp add: sys_inv_def)
  then have "config ?app \<in> cfgs \<and> policy_int64 ?app \<and> MaxRetryAttempt (retryPolicy ?app) = MaxRetryAttempts (config ?app)"
    by (simp add: node_inv_def Let_def)
  then show ?thesis
    using finish_inv(2) [OF inv n repo w call] finish_held [OF inv n repo w call] http.result_job
    unfolding finish_step_def by (intro conjI exI [of _ job] exI [of _ ?app] exI [of _ ?r]) simp_all
qed

lemma step_kinds:
  assumes "step cfgs repos l sys sys'" and inv: "sys_inv cfgs sys" and "configs_int64 cfgs"
  shows "local_step sys sys' \<or> enqueue_step sys sys' \<or> claim_step sys sys' \<or> receive_step sys sys' \<or>
    finish_step cfgs sys sys'"
proof -
  have node: "node_inv cfgs (instances sys ! n)" if "n < length (instances sys)" for n
    using inv that by (simp add: sys_inv_def)
  from assms(1) show ?thesis
  proof cases
    case (step_start cfg newRegistry newQueue max_buffer client app)
    note start = start_node [OF step_start(4) step_start(3) assms(3)]
    then show ?thesis using step_start by (simp add: local_step_def held_ids_def waiting_def active_def)
  next
    case (step_crash n)
    have "held_ids sys' \<subseteq> held_ids sys"
      unfolding step_crash(2) by (rule held_ids_mono [OF crash_jobs [OF step_crash(3)]])
    then show ?thesis using step_crash by (simp add: local_step_def)
  next
    case (step_cancel n)
    then show ?thesis using held_ids_local [OF step_cancel(3)] by (simp add: local_step_def)
  next
    case (step_control n inst')
    then show ?thesis
      using held_ids_local [OF step_control(3)] control_effect [OF step_control(4) node [OF step_control(3)]]
      by (simp add: local_step_def)
  next
    case (step_dispatch n inst')
    then show ?thesis
      using held_ids_local [OF step_dispatch(3)] dispatch_effect [OF step_dispatch(4) node [OF step_dispatch(3)]]
      by (simp add: local_step_def)
  next
    case (step_ingest n inst repo clock decoded reg answer app' q')
    from ingest_step [OF inv step_ingest(3,5) handlers_enqueue(1) [OF step_ingest(6) [unfolded step_ingest(4)]]]
    show ?thesis by (simp add: step_ingest(2,4))
  next
    case (step_ingest_one n inst repo clock decoded_one reg answer app' q')
    from ingest_step [OF inv step_ingest_one(3,5) handlers_enqueue(2) [OF step_ingest_one(6) [unfolded step_ingest_one(4)]]]
    show ?thesis by (simp add: step_ingest_one(2,4))
  next
    case (step_report n inst repo now)
    then show ?thesis using held_ids_local [OF step_report(3)] by (simp add: local_step_def waiting_jobs_def report_frame)
  next
    case (step_poll n inst repo owner now failure app' q')
    then show ?thesis using poll_step [OF inv step_poll(3,6)] by simp
  next
    case (step_receive n w job inst')
    then show ?thesis using recv_step [OF inv step_receive(3,4)] by simp
  next
    case (step_finish n inst w job repo clock env timeout app' q')
    then show ?thesis using fin_step [OF inv step_finish(3,7)] by simp
  qed
qed

section \<open>Items that are put to rest\<close>

text \<open>
  An item that is not pending and that no instance holds: it was completed, dead-lettered, or lost
  by the instance that had claimed it.
\<close>

definition at_rest :: "go_int \<Rightarrow> queue_item \<Rightarrow> 'q system \<Rightarrow> bool" where
  "at_rest i it sys \<longleftrightarrow> view (queue sys) i = Some it \<and> item_status it \<noteq> Pending \<and> i \<notin> held_ids sys"

definition attempts_of :: "go_int \<Rightarrow> 'q system \<Rightarrow> (go_int \<times> go_int) list" where
  "attempts_of i sys = filter (\<lambda>a. fst a = i) (attempts sys)"

lemma terminal_at_rest:
  assumes "sys_inv cfgs sys" and "view (queue sys) i = Some it" and "item_status it \<in> {Completed, DeadLettered}"
  shows "at_rest i it sys"
proof -
  have "i \<notin> held_ids sys"
  proof
    assume "i \<in> held_ids sys"
    then obtain job where "job \<in># waiting sys + active sys" "QueueItemID job = i" by (auto simp: held_ids_def)
    then show False using assms core_invD(2) by (fastforce simp: sys_inv_def claimed_as_def)
  qed
  then show ?thesis using assms by (auto simp: at_rest_def)
qed

lemma at_rest_step:
  assumes inv: "sys_inv cfgs sys" and rest: "at_rest i it sys" and "step cfgs repos l sys sys'" and "configs_int64 cfgs"
  shows "at_rest i it sys' \<and> attempts_of i sys' = attempts_of i sys"
  using step_kinds [OF assms(3) inv assms(4)]
proof (elim disjE)
  assume "local_step sys sys'"
  then show ?thesis using rest by (auto simp: local_step_def at_rest_def attempts_of_def)
next
  assume "enqueue_step sys sys'"
  then show ?thesis using rest by (auto simp: enqueue_step_def at_rest_def attempts_of_def)
next
  assume "claim_step sys sys'"
  then show ?thesis using rest by (fastforce simp: claim_step_def claims_def at_rest_def attempts_of_def)
next
  assume "receive_step sys sys'"
  then show ?thesis using rest by (auto simp: receive_step_def at_rest_def attempts_of_def held_ids_def)
next
  assume "finish_step cfgs sys sys'"
  then show ?thesis using rest by (auto simp: finish_step_def at_rest_def attempts_of_def held_ids_def marks_def)
qed

section \<open>Attempts are bounded\<close>

definition attempts_within :: "go_int \<Rightarrow> 'q system \<Rightarrow> bool" where
  "attempts_within M sys \<longleftrightarrow>
     (\<forall>i it. view (queue sys) i = Some it \<longrightarrow> 0 \<le> Attempt (item_job it) \<and> Attempt (item_job it) \<le> M) \<and>
     (\<forall>a \<in> set (attempts sys). 0 \<le> snd a \<and> snd a \<le> M)"

lemma attempts_within_step:
  assumes inv: "sys_inv cfgs sys" and within: "attempts_within M sys" and "step cfgs repos l sys sys'"
    and "configs_int64 cfgs" and "0 \<le> M" and "\<forall>cfg \<in> cfgs. MaxRetryAttempts cfg \<le> M"
  shows "attempts_within M sys'"
  using step_kinds [OF assms(3) inv assms(4)]
proof (elim disjE)
  assume "local_step sys sys'"
  then show ?thesis using within by (simp add: local_step_def attempts_within_def)
next
  assume "enqueue_step sys sys'"
  then have "0 \<le> Attempt (item_job it) \<and> Attempt (item_job it) \<le> M" if "view (queue sys') i = Some it" for i it
    using that within \<open>0 \<le> M\<close> by (cases "view (queue sys) i") (auto simp: enqueue_step_def attempts_within_def)
  then show ?thesis using within \<open>enqueue_step sys sys'\<close> by (simp add: enqueue_step_def attempts_within_def)
next
  assume "claim_step sys sys'"
  then show ?thesis
    using within unfolding claim_step_def claims_def attempts_within_def by (fastforce split: if_splits)
next
  assume step: "receive_step sys sys'"
  then obtain job where job: "job \<in># waiting sys" "attempts sys' = attempts sys @ [(QueueItemID job, Attempt job)]"
    by (auto simp: receive_step_def)
  have "claimed_as (view (queue sys)) job" using inv job core_invD(2) by (auto simp: sys_inv_def)
  then show ?thesis using within step job by (auto simp: receive_step_def attempts_within_def claimed_as_def)
next
  assume "finish_step cfgs sys sys'"
  then obtain job app result where job: "job \<in># active sys" "ResultJob result = job" "config app \<in> cfgs"
    and max: "MaxRetryAttempt (retryPolicy app) = MaxRetryAttempts (config app)" and pol: "policy_int64 (app :: 'q Application)"
    and mark: "marks (view (queue sys)) (QueueItemID job) (outcome_effect app result) (view (queue sys'))"
    and log: "attempts sys' = attempts sys" by (auto simp: finish_step_def)
  have claimed: "claimed_as (view (queue sys)) job" using inv job core_invD(2) by (auto simp: sys_inv_def)
  have "0 \<le> Attempt (item_job it') \<and> Attempt (item_job it') \<le> M"
    if "view (queue sys) (QueueItemID job) = Some it" "outcome_effect app result it it'" for it it'
  proof -
    have it: "item_job it = job" using claimed that(1) by (simp add: claimed_as_def)
    have "0 \<le> Attempt job \<and> Attempt job \<le> M" using within that(1) it by (auto simp: attempts_within_def)
    moreover have "Attempt job < MaxRetryAttempts (config app) \<and> Attempt job < MaxInt64" if "outcome_of app result = Retried"
      using that max pol job(2)
      by (auto simp: outcome_of_def CanRetry_def policy_int64_def int64_def split: if_splits)
    ultimately show ?thesis
      using that(2) it job(3) assms(6) by (cases "outcome_of app result") (auto simp: outcome_effect_def)
  qed
  then show ?thesis
    using mark within log unfolding marks_def attempts_within_def by (auto split: if_splits)
qed

lemma reachable_within:
  assumes "reachable cfgs repos kinds q0 sys" and "configs_int64 cfgs" and "invar q0"
    and "0 \<le> M" and "\<forall>cfg \<in> cfgs. MaxRetryAttempts cfg \<le> M"
    and "\<forall>i it. view q0 i = Some it \<longrightarrow> 0 \<le> Attempt (item_job it) \<and> Attempt (item_job it) \<le> M"
  shows "attempts_within M sys"
  using assms(1)
proof induction
  case reachable_init
  then show ?case using assms(6) by (simp add: attempts_within_def)
next
  case (reachable_step sys l sys')
  then show ?case using attempts_within_step reachable_inv assms(2-5) by blast
qed

text \<open>No item is attempted more often than its attempt numbers can count.\<close>

lemma attempts_count:
  assumes "attempts_within M sys" and "distinct (attempts sys)" and "0 \<le> M"
  shows "int (length (attempts_of i sys)) \<le> M + 1"
proof -
  let ?L = "attempts_of i sys"
  have "distinct (map snd ?L)"
    using assms(2) by (auto simp: attempts_of_def distinct_map inj_on_def prod_eq_iff)
  moreover have "set (map snd ?L) \<subseteq> {0..M}"
    using assms(1) by (auto simp: attempts_within_def attempts_of_def)
  ultimately have "card (set (map snd ?L)) = length ?L \<and> card (set (map snd ?L)) \<le> card {0..M}"
    using distinct_card card_mono by (metis finite_atLeastAtMost_int length_map)
  then have "length ?L \<le> nat (M + 1)" by simp
  then show ?thesis using assms(3) by linarith
qed

end

section \<open>The scheduled queue is bounded\<close>

definition depth_bound :: "'q node \<Rightarrow> bool" where
  "depth_bound inst \<longleftrightarrow> (let cfg = config (application inst) in
     0 < ScheduledQueueLimit cfg \<longrightarrow> 0 < QueueClaimBatchSize cfg \<longrightarrow>
     QueueDepth (inst_scheduler inst) < ScheduledQueueLimit cfg + QueueClaimBatchSize cfg)"

lemma depth_bound_mono:
  "depth_bound inst \<Longrightarrow> config (application inst') = config (application inst) \<Longrightarrow>
    QueueDepth (inst_scheduler inst') \<le> QueueDepth (inst_scheduler inst) \<Longrightarrow> depth_bound inst'"
  by (auto simp: depth_bound_def Let_def)

lemma dispatch_depth:
  assumes "dispatch inst inst'" and "node_inv cfgs inst"
  shows "config (application inst') = config (application inst) \<and>
    QueueDepth (inst_scheduler inst') \<le> QueueDepth (inst_scheduler inst)"
  using assms(1)
proof cases
  case (dispatch_take job s)
  then show ?thesis using waitForNextJob_output(3) [OF node_inv_sched [OF assms(2)] dispatch_take(3)] by simp
qed (simp_all add: QueueDepth_def)

lemma quiet_depth:
  "control inst inst' \<Longrightarrow> config (application inst') = config (application inst) \<and>
    QueueDepth (inst_scheduler inst') \<le> QueueDepth (inst_scheduler inst)"
  "receive inst w job inst' \<Longrightarrow> config (application inst') = config (application inst) \<and>
    QueueDepth (inst_scheduler inst') \<le> QueueDepth (inst_scheduler inst)"
  by (auto simp: QueueDepth_def Close_def elim!: controlE receiveE worker_stop.cases)

context shared_queue
begin

lemma poll_depth:
  assumes "invar q" and "repo \<in> repos" and "workQueue app = repo" and "sched_inv (scheduler app)"
    and "claimAndSchedule ctx owner now app q = (failure, app', q')"
    and "depth_bound (inst\<lparr>application := app\<rparr>)"
  shows "depth_bound (inst\<lparr>application := app', poller_running := b\<rparr>)"
proof -
  obtain ds where app': "app' = app\<lparr>scheduler := foldl (\<lambda>s d. Enqueue (QueuedJob d) s) (scheduler app) ds\<rparr>"
    and ds: "ds = [] \<or> \<not> scheduledQueueIsFull app \<and>
      repo_ClaimAvailableDeliveries repo ctx owner (QueueClaimBatchSize (config app)) now q = (Inr ds, q')"
    by (rule poll_effect [OF assms(1,2,3,5)]) blast
  have depth: "QueueDepth (scheduler app') = QueueDepth (scheduler app) + int (length ds)"
    using sched_Enqueue_all(5) [OF assms(4)] by (simp add: app')
  show ?thesis
  proof (cases "ds = []")
    case True
    then show ?thesis using assms(6) by (simp add: depth_bound_def app')
  next
    case False
    then show ?thesis
      using ds depth claim_bound [OF assms(2,1), of ctx owner "QueueClaimBatchSize (config app)" now ds q']
      by (auto simp: depth_bound_def Let_def app' scheduledQueueIsFull_def scheduledQueueLimit_def)
  qed
qed

lemma depth_step:
  assumes "step cfgs repos l sys sys'" and inv: "sys_inv cfgs sys" and "configs_int64 cfgs"
    and depth: "\<forall>inst \<in> set (instances sys). depth_bound inst"
  shows "\<forall>inst \<in> set (instances sys'). depth_bound inst"
proof -
  have node: "node_inv cfgs (instances sys ! n) \<and> depth_bound (instances sys ! n)" if "n < length (instances sys)" for n
    using inv depth that by (simp add: sys_inv_def)
  define ok where "ok xs \<longleftrightarrow> (\<forall>inst \<in> set xs. depth_bound inst)" for xs :: "'q node list"
  have upd: "ok ((instances sys)[n := inst'])"
    if "n < length (instances sys)" "config (application inst') = config (application (instances sys ! n))"
      "QueueDepth (inst_scheduler inst') \<le> QueueDepth (inst_scheduler (instances sys ! n))" for n and inst' :: "'q node"
    unfolding ok_def by (rule nodes_update [OF depth]) (use depth_bound_mono that node in blast)
  from assms(1) have "ok (instances sys')"
  proof cases
    case (step_start cfg newRegistry newQueue max_buffer client app)
    then show ?thesis
      using depth start_node(4,5) [OF step_start(4) step_start(3) assms(3)]
      by (auto simp: ok_def depth_bound_def start_instance_def Let_def)
  next
    case (step_crash n)
    then show ?thesis using depth by (auto simp: ok_def dest: in_set_takeD in_set_dropD)
  next
    case (step_cancel n)
    then show ?thesis using upd by simp
  next
    case (step_control n inst')
    then show ?thesis using upd quiet_depth(1) [OF step_control(4)] by simp
  next
    case (step_dispatch n inst')
    then show ?thesis using upd dispatch_depth [OF step_dispatch(4) conjunct1 [OF node [OF step_dispatch(3)]]] by simp
  next
    case (step_ingest n inst repo clock decoded reg answer app' q')
    then have "scheduler app' = inst_scheduler inst \<and> config app' = config (application inst)"
      using handlers_enqueue(1) [OF step_ingest(6)] enqueueEvents_frame by fastforce
    then show ?thesis using upd step_ingest by simp
  next
    case (step_ingest_one n inst repo clock decoded_one reg answer app' q')
    then have "scheduler app' = inst_scheduler inst \<and> config app' = config (application inst)"
      using handlers_enqueue(2) [OF step_ingest_one(6)] enqueueEvents_frame by fastforce
    then show ?thesis using upd step_ingest_one by simp
  next
    case (step_report n inst repo now)
    then show ?thesis using upd by (simp add: report_frame)
  next
    case (step_poll n inst repo owner now failure app' q')
    have "depth_bound (inst\<lparr>application := app', poller_running := (failure = None)\<rparr>)"
      by (rule poll_depth [OF _ step_poll(6) _ _ step_poll(7)])
         (use inv node step_poll node_inv_sched [OF conjunct1 [OF node [OF step_poll(3)]]] in
          \<open>auto simp: sys_inv_def depth_bound_def Let_def\<close>)
    then have "ok ((instances sys)[n := inst\<lparr>application := app', poller_running := (failure = None)\<rparr>])"
      unfolding ok_def by (rule nodes_update [OF depth])
    then show ?thesis using step_poll by simp
  next
    case (step_receive n w job inst')
    then show ?thesis using upd quiet_depth(2) [OF step_receive(4)] by simp
  next
    case (step_finish n inst w job repo clock env timeout app' q')
    then show ?thesis using upd runWorker_frame [OF step_finish(8)] by simp
  qed
  then show ?thesis by (simp add: ok_def)
qed

lemma reachable_depth:
  assumes "reachable cfgs repos kinds q0 sys" and "configs_int64 cfgs" and "invar q0"
  shows "\<forall>inst \<in> set (instances sys). depth_bound inst"
  using assms(1)
proof induction
  case (reachable_step sys l sys')
  then show ?case using depth_step reachable_inv assms(2,3) by blast
qed simp

end

section \<open>Runs without faults, crashes and cancellation\<close>

text \<open>The kinds of steps of such a run.\<close>

definition calm_kinds :: "step_label set" where
  "calm_kinds = - {Crash, Cancel}"

text \<open>
  The laws of a queue on which every call with a live context takes effect; a retry is counted up
  to \<open>cap\<close> attempts.
\<close>

definition marks_surely :: "queue_view \<Rightarrow> go_int \<Rightarrow> row_status \<Rightarrow> queue_view \<Rightarrow> bool" where
  "marks_surely V i st V' \<longleftrightarrow> (\<exists>it'. V' i = Some it' \<and> item_status it' = st)"

locale reliable_queue = shared_queue repos invar view
  for repos :: "'q Repository set" and invar :: "'q \<Rightarrow> bool" and view :: "'q \<Rightarrow> queue_view" +
  fixes cap :: go_int
  assumes claim_failed: "repo \<in> repos \<Longrightarrow> invar q \<Longrightarrow>
      repo_ClaimAvailableDeliveries repo None owner limit t q = (Inl e, q') \<Longrightarrow> view q' = view q"
    and delivered_sure: "repo \<in> repos \<Longrightarrow> invar q \<Longrightarrow> view q i = Some it \<Longrightarrow>
      repo_MarkDelivered repo None i t q = (out, q') \<Longrightarrow> marks_surely (view q) i Completed (view q')"
    and retry_sure: "repo \<in> repos \<Longrightarrow> invar q \<Longrightarrow> view q i = Some it \<Longrightarrow> Attempt (item_job it) < cap \<Longrightarrow>
      repo_MarkRetryPending repo None i msg t u q = (out, q') \<Longrightarrow> marks_surely (view q) i Pending (view q')"
    and dead_sure: "repo \<in> repos \<Longrightarrow> invar q \<Longrightarrow> view q i = Some it \<Longrightarrow>
      repo_MarkDeadLetter repo None i msg t q = (out, q') \<Longrightarrow> marks_surely (view q) i DeadLettered (view q')"
begin

text \<open>Every claimed item is in the memory of an instance, and no instance has been told to stop.\<close>

definition calm :: "'q system \<Rightarrow> bool" where
  "calm sys \<longleftrightarrow> (\<forall>inst \<in> set (instances sys). \<not> context_done inst) \<and>
     (\<forall>i it. view (queue sys) i = Some it \<longrightarrow> item_status it = Claimed \<longrightarrow> i \<in> held_ids sys)"

lemma calm_same_queue:
  assumes "calm sys" and "queue sys' = queue sys" and "held_ids sys \<subseteq> held_ids sys'"
    and "\<forall>inst \<in> set (instances sys'). \<not> context_done inst"
  shows "calm sys'"
  using assms by (auto simp: calm_def)

lemma calm_update:
  assumes "calm sys" and "n < length (instances sys)" and "\<not> context_done inst'"
  shows "\<forall>inst \<in> set ((instances sys)[n := inst']). \<not> context_done inst"
  by (rule nodes_update) (use assms in \<open>auto simp: calm_def\<close>)

lemma dispatch_calm:
  assumes "dispatch inst inst'" and "node_inv cfgs inst" and "\<not> context_done inst"
  shows "waiting_jobs inst' = waiting_jobs inst \<and> \<not> context_done inst'"
  using assms(1)
proof cases
  case (dispatch_take job s)
  then show ?thesis
    using sched_inv_waitForNextJob [OF node_inv_sched [OF assms(2)] dispatch_take(3)]
      waitForNextJob_output [OF node_inv_sched [OF assms(2)] dispatch_take(3)] assms(3)
    by (simp add: waiting_jobs_def)
qed (use assms(3) in \<open>auto simp: waiting_jobs_def queued_jobs_def\<close>)

lemma control_context: "control inst inst' \<Longrightarrow> \<not> context_done inst \<Longrightarrow> \<not> context_done inst'"
  by (auto elim!: controlE worker_stop.cases)

lemma receive_context: "receive inst w job inst' \<Longrightarrow> \<not> context_done inst \<Longrightarrow> \<not> context_done inst'"
  by (auto elim!: receiveE)

lemma poll_calm:
  assumes inv: "sys_inv cfgs sys" and calm: "calm sys" and n: "n < length (instances sys)" and repo: "repo \<in> repos"
    and call: "claimAndSchedule None owner now ((application (instances sys ! n))\<lparr>workQueue := repo\<rparr>) (queue sys) =
      (failure, app', q')"
  shows "calm (sys\<lparr>instances := (instances sys)[n := (instances sys ! n)\<lparr>application := app',
    poller_running := b\<rparr>], queue := q'\<rparr>)"
proof -
  let ?new = "(instances sys ! n)\<lparr>application := app', poller_running := b\<rparr>"
  have node: "node_inv cfgs (instances sys ! n)" and q: "invar (queue sys)" using inv n by (simp_all add: sys_inv_def)
  obtain ds ids where app': "app' = (application (instances sys ! n))\<lparr>workQueue := repo,
      scheduler := foldl (\<lambda>s d. Enqueue (QueuedJob d) s) (inst_scheduler (instances sys ! n)) ds\<rparr>"
    and ids: "claims (view (queue sys)) ids (view q')"
    and out: "ds = [] \<and> (failure = None \<longrightarrow> ids = {}) \<or> hands_out (view (queue sys)) ids ds"
    and fail: "failure = None \<or> (\<exists>e. repo_ClaimAvailableDeliveries repo None owner
      (QueueClaimBatchSize (config (application (instances sys ! n)))) now (queue sys) = (Inl e, q'))"
    by (rule poll_effect [OF q repo _ call]) auto
  have out': "ds = [] \<or> hands_out (view (queue sys)) ids ds" using out by blast
  note jobs = poll_jobs [OF n node app' refl, of b]
  have held: "held_ids (sys\<lparr>instances := (instances sys)[n := ?new]\<rparr>) = held_ids sys \<union> set (handed_ids ds)"
    using handed_jobs(3) [OF q out'] unfolding held_ids_def jobs(1,2) by auto
  have "i \<in> held_ids sys \<union> set (handed_ids ds)" if i: "view q' i = Some it" "item_status it = Claimed" for i it
  proof (cases "i \<in> set (handed_ids ds)")
    case False
    have "view q' i = view (queue sys) i"
    proof (cases "failure = None")
      case True
      then have "ids = set (handed_ids ds)" using out by (auto simp: hands_out_def)
      then show ?thesis using ids False by (simp add: claims_def)
    next
      case failed: False
      then obtain e where "repo_ClaimAvailableDeliveries repo None owner
        (QueueClaimBatchSize (config (application (instances sys ! n)))) now (queue sys) = (Inl e, q')"
        using fail by blast
      from claim_failed [OF repo q this] show ?thesis by simp
    qed
    then have "view (queue sys) i = Some it" using i(1) by simp
    then show ?thesis using calm i(2) by (auto simp: calm_def)
  qed simp
  then show ?thesis
    using calm_update [OF calm n, of ?new] calm n held by (auto simp: calm_def simp del: set_map)
qed

lemma finish_calm:
  assumes inv: "sys_inv cfgs sys" and calm: "calm sys" and n: "n < length (instances sys)" and repo: "repo \<in> repos"
    and w: "w < length (workers (instances sys ! n))" "workers (instances sys ! n) ! w = WBusy job"
    and call: "runWorker_job clock None job
      ((application (instances sys ! n))\<lparr>workQueue := repo, deliver := Deliver env (NewHTTPClient timeout)\<rparr>) (queue sys) =
      Some (app', q')"
    and cap: "\<forall>cfg \<in> cfgs. MaxRetryAttempts cfg \<le> cap"
  shows "calm (sys\<lparr>instances := (instances sys)[n := (instances sys ! n)\<lparr>application := app',
      workers := (workers (instances sys ! n))[w := WIdle]\<rparr>], queue := q'\<rparr>)"
proof -
  let ?inst = "instances sys ! n" and ?r = "Deliver env (NewHTTPClient timeout) None job"
  let ?app = "(application ?inst)\<lparr>workQueue := repo, deliver := Deliver env (NewHTTPClient timeout)\<rparr>"
  let ?new = "?inst\<lparr>application := app', workers := (workers ?inst)[w := WIdle]\<rparr>"
  let ?sys = "sys\<lparr>instances := (instances sys)[n := ?new], queue := q'\<rparr>"
  have node: "node_inv cfgs ?inst" and q: "invar (queue sys)"
    and core: "core_inv (view (queue sys)) (waiting sys) (active sys) (attempts sys)"
    using inv n by (simp_all add: sys_inv_def)
  have [simp]: "ResultJob ?r = job" by (rule http.result_job)
  note fin = fin_step [OF inv n repo w call] finish_inv(2) [OF inv n repo w call]
  have "claimed_as (view (queue sys)) job" using core_invD(2) [OF core] finish_held(2) [OF inv n repo w call] by simp
  then obtain it where it: "view (queue sys) (QueueItemID job) = Some it" "item_job it = job" by (auto simp: claimed_as_def)
  have "int64 (Attempt job)" using view_job [OF q it(1)] it(2) by simp
  moreover have "policy_int64 ?app" using node by (auto simp: node_inv_def policy_int64_def Let_def)
  ultimately have q': "q' = snd (outcome_mark clock None ?app ?r (queue sys))"
    using runWorker_job_outcome [of ?app None job clock "queue sys"] call by auto
  have retry: "Attempt job < cap" if "outcome_of ?app ?r = Retried"
    using that node cap by (auto simp: outcome_of_def CanRetry_def node_inv_def Let_def split: if_splits)
  have "\<exists>it'. view q' (QueueItemID job) = Some it' \<and> item_status it' \<noteq> Claimed"
  proof (cases "outcome_of ?app ?r")
    case Delivered
    then show ?thesis
      using delivered_sure [OF repo q it(1) surjective_pairing, of "CompletedAt ?r"]
      by (auto simp: q' outcome_mark_def marks_surely_def)
  next
    case Retried
    then obtain msg t u where u: "q' = snd (repo_MarkRetryPending repo None (QueueItemID job) msg t u (queue sys))"
      by (auto simp: q' outcome_mark_def Let_def)
    have "Attempt (item_job it) < cap" using retry [OF Retried] it(2) by simp
    from retry_sure [OF repo q it(1) this surjective_pairing, of msg t u] show ?thesis
      by (auto simp: marks_surely_def u)
  next
    case Buried
    then show ?thesis
      using dead_sure [OF repo q it(1) surjective_pairing, of "FailureReason ?r" "clock 0"]
      by (auto simp: q' outcome_mark_def marks_surely_def)
  qed
  moreover have "view q' i = view (queue sys) i" if "i \<noteq> QueueItemID job" for i
    using fin(2) that by (auto simp: marks_def)
  moreover have "held_ids ?sys = held_ids sys - {QueueItemID job}"
    by (rule finish_held(1) [OF inv n repo w call])
  ultimately have "i \<in> held_ids ?sys" if "view q' i = Some it'" "item_status it' = Claimed" for i it'
    using calm that by (cases "i = QueueItemID job") (auto simp: calm_def)
  then show ?thesis using calm_update [OF calm n, of ?new] calm n by (auto simp: calm_def)
qed

lemma calm_enqueue:
  assumes "calm sys" and "enqueue_step sys sys'" and "\<forall>inst \<in> set (instances sys'). \<not> context_done inst"
  shows "calm sys'"
  unfolding calm_def
proof (intro conjI allI impI)
  fix i it
  assume it: "view (queue sys') i = Some it" "item_status it = Claimed"
  show "i \<in> held_ids sys'"
  proof (cases "view (queue sys) i")
    case None
    then have "item_status it = Pending" using assms(2) it(1) by (simp add: enqueue_step_def)
    then show ?thesis using it(2) by simp
  next
    case (Some it0)
    then have "view (queue sys') i = Some it0" using assms(2) by (simp add: enqueue_step_def)
    then have "it0 = it" using it(1) by simp
    then have "i \<in> held_ids sys" using assms(1) Some it(2) by (simp add: calm_def)
    then show ?thesis using assms(2) by (simp add: enqueue_step_def)
  qed
qed (use assms(3) in blast)

lemma calm_local:
  assumes "calm sys" and "n < length (instances sys)" and "\<not> context_done inst'"
    and "waiting_jobs inst' = waiting_jobs (instances sys ! n)" and "active_jobs inst' = active_jobs (instances sys ! n)"
  shows "calm (sys\<lparr>instances := (instances sys)[n := inst']\<rparr>)"
  by (rule calm_same_queue [OF assms(1)])
     (use calm_update [OF assms(1-3)] held_ids_same [OF assms(2,4,5)] in simp_all)

lemma calm_ingest:
  assumes "sys_inv cfgs sys" and calm: "calm sys" and n: "n < length (instances sys)" and "repo \<in> repos"
    and "app' = (application (instances sys ! n))\<lparr>workQueue := repo, registry := reg\<rparr> \<and> q' = queue sys \<or>
      (\<exists>events res. enqueueEvents_from clock 0 0 events
        ((application (instances sys ! n))\<lparr>workQueue := repo, registry := reg\<rparr>) (queue sys) = (res, app', q'))"
  shows "calm (sys\<lparr>instances := (instances sys)[n := (instances sys ! n)\<lparr>application := app'\<rparr>], queue := q'\<rparr>)"
  by (rule calm_enqueue [OF calm ingest_step [OF assms(1,3,4,5)]])
     (use calm_update [OF calm n, of "(instances sys ! n)\<lparr>application := app'\<rparr>"] calm n in \<open>simp add: calm_def\<close>)

lemma calm_step:
  assumes "step cfgs repos l sys sys'" and inv: "sys_inv cfgs sys" and "configs_int64 cfgs" and "l \<in> calm_kinds"
    and calm: "calm sys" and cap: "\<forall>cfg \<in> cfgs. MaxRetryAttempts cfg \<le> cap"
  shows "calm sys'"
proof -
  have node: "node_inv cfgs (instances sys ! n)" and live: "\<not> context_done (instances sys ! n)"
    if "n < length (instances sys)" for n
    using inv calm that by (simp_all add: sys_inv_def calm_def)
  have ctx: "inst_context (instances sys ! n) = None" if "n < length (instances sys)" for n
    using live [OF that] by (simp add: inst_context_def)
  from assms(1) show ?thesis
  proof cases
    case (step_start cfg newRegistry newQueue max_buffer client app)
    note start = start_node [OF step_start(4) step_start(3) assms(3)]
    show ?thesis
      by (rule calm_same_queue [OF calm])
         (use start calm in \<open>auto simp: step_start(2) held_ids_def waiting_def active_def calm_def start_instance_def\<close>)
  next
    case (step_control n inst')
    show ?thesis
      using calm_local [OF calm step_control(3) control_context [OF step_control(4) live [OF step_control(3)]]]
        control_effect [OF step_control(4) node [OF step_control(3)]] by (simp add: step_control(2))
  next
    case (step_dispatch n inst')
    show ?thesis
      using calm_local [OF calm step_dispatch(3)] dispatch_effect [OF step_dispatch(4) node [OF step_dispatch(3)]]
        dispatch_calm [OF step_dispatch(4) node [OF step_dispatch(3)] live [OF step_dispatch(3)]]
      by (simp add: step_dispatch(2))
  next
    case (step_ingest n inst repo clock decoded reg answer app' q')
    from calm_ingest [OF inv calm step_ingest(3,5) handlers_enqueue(1) [OF step_ingest(6) [unfolded step_ingest(4)]]]
    show ?thesis by (simp add: step_ingest(2,4))
  next
    case (step_ingest_one n inst repo clock decoded_one reg answer app' q')
    from calm_ingest [OF inv calm step_ingest_one(3,5) handlers_enqueue(2) [OF step_ingest_one(6) [unfolded step_ingest_one(4)]]]
    show ?thesis by (simp add: step_ingest_one(2,4))
  next
    case (step_report n inst repo now)
    then show ?thesis using calm_local [OF calm] live by (simp add: waiting_jobs_def report_frame)
  next
    case (step_poll n inst repo owner now failure app' q')
    then show ?thesis using poll_calm [OF inv calm step_poll(3,6)] ctx by simp
  next
    case (step_receive n w job inst')
    from recv_step [OF inv step_receive(3,4)]
    have "held_ids sys' = held_ids sys" by (simp add: receive_step_def step_receive(2))
    moreover have "\<not> context_done inst'" by (rule receive_context [OF step_receive(4) live [OF step_receive(3)]])
    ultimately show ?thesis
      using calm_same_queue [OF calm, of sys'] calm_update [OF calm step_receive(3), of inst'] by (simp add: step_receive(2))
  next
    case (step_finish n inst w job repo clock env timeout app' q')
    then show ?thesis using finish_calm [OF inv calm step_finish(3,7) _ _ _ cap] ctx by simp
  qed (use assms(4) in \<open>simp_all add: calm_kinds_def\<close>)
qed

lemma reachable_calm:
  assumes "reachable cfgs repos calm_kinds q0 sys" and "configs_int64 cfgs" and "invar q0"
    and "\<forall>cfg \<in> cfgs. MaxRetryAttempts cfg \<le> cap"
    and "\<forall>i it. view q0 i = Some it \<longrightarrow> item_status it \<noteq> Claimed"
  shows "calm sys"
  using assms(1)
proof induction
  case reachable_init
  then show ?case using assms(5) by (auto simp: calm_def)
next
  case (reachable_step sys l sys')
  then show ?case using calm_step reachable_inv assms(2-4) by blast
qed

end

end
