(* ===== verification/WorkQueue.thy ===== *)
theory WorkQueue
  imports Contracts Go_Strings
begin

text \<open>
  The PostgreSQL work queue (\<open>internal/workqueue/postgres.go\<close>). The table
  \<open>webhook_delivery_queue\<close> is a list of rows with the columns of its schema, and each SQL statement
  of the source is translated into its effect on the rows. What the source leaves to the server and
  the driver is an argument:
  \<^item> \<open>ts\<close>: the precision at which a \<open>TIMESTAMPTZ\<close> keeps an instant;
  \<^item> \<open>locked\<close>: the ids of the rows another transaction has locked, which \<open>SKIP LOCKED\<close> passes over;
  \<^item> \<open>returning\<close>: the order in which \<open>UPDATE ... RETURNING\<close> lists the rows, which SQL does not fix;
  \<^item> \<open>db_faults\<close>: the errors the driver reports, and for a failed commit or a failed statement
    outside a transaction whether the server had carried it out all the same.
  Conversions to UTC do not change an instant. A sequence value taken by a transaction that is
  rolled back is not given back.
\<close>

section \<open>Rows, tables, faults\<close>

record queue_row =
  row_id :: go_int
  event_id :: string
  customer_id :: string
  subscriber_id :: string
  event_type :: string
  occurred_at :: time
  webhook_url :: string
  status :: row_status
  available_at :: time
  claimed_at :: "time option"
  claim_owner :: "string option"
  retry_count :: int
  last_error :: "string option"
  dead_lettered_at :: "time option"
  completed_at :: "time option"
  created_at :: time
  updated_at :: time

record queue_db =
  rows :: "queue_row list"
  next_id :: go_int

record db_faults =
  begin_fault :: "go_error option"
  stmt_fault :: "nat \<Rightarrow> go_error option"
  scan_fault :: "nat \<Rightarrow> go_error option"
  rows_fault :: "go_error option"
  commit_fault :: "(go_error \<times> bool) option"
  exec_fault :: "(go_error \<times> bool) option"
  affected_fault :: "go_error option"

definition no_faults :: db_faults where
  "no_faults = \<lparr>begin_fault = None, stmt_fault = (\<lambda>_. None), scan_fault = (\<lambda>_. None),
     rows_fault = None, commit_fault = None, exec_fault = None, affected_fault = None\<rparr>"

text \<open>\<open>database/sql\<close> refuses to start a call whose context has already ended.\<close>

definition context_fault :: "go_context \<Rightarrow> 'a option \<Rightarrow> (go_error \<Rightarrow> 'a) \<Rightarrow> 'a option" where
  "context_fault ctx fault wrap = (case ctx of Some e \<Rightarrow> Some (wrap e) | None \<Rightarrow> fault)"

lemma no_faults_sel [simp]:
  "begin_fault no_faults = None" "stmt_fault no_faults k = None" "scan_fault no_faults k = None"
  "rows_fault no_faults = None" "commit_fault no_faults = None" "exec_fault no_faults = None"
  "affected_fault no_faults = None"
  by (simp_all add: no_faults_def)

lemma context_fault_simps [simp]:
  "context_fault (Some e) fault wrap = Some (wrap e)" "context_fault None fault wrap = fault"
  by (simp_all add: context_fault_def)

section \<open>Schema and enqueue\<close>

text \<open>The table may not exist yet: \<open>CREATE TABLE IF NOT EXISTS\<close> leaves an existing one alone.\<close>

definition EnsureSchema :: "db_faults \<Rightarrow> go_context \<Rightarrow> queue_db option \<Rightarrow> go_error option \<times> queue_db option" where
  "EnsureSchema faults ctx table =
    (case context_fault ctx (exec_fault faults) (\<lambda>e. (e, False)) of
       Some (e, _) \<Rightarrow> (Some (Wrap ''ensure queue schema'' e), table)
     | None \<Rightarrow> (None, case table of None \<Rightarrow> Some \<lparr>rows = [], next_id = 1\<rparr> | Some db \<Rightarrow> Some db))"

definition new_row :: "(time \<Rightarrow> time) \<Rightarrow> SubscriberEvent \<Rightarrow> time \<Rightarrow> time \<Rightarrow> go_int \<Rightarrow> string \<Rightarrow> queue_row" where
  "new_row ts subscriberEvent availableAt createdAt i webhookURL =
    \<lparr>row_id = i, event_id = EventID subscriberEvent, customer_id = CustomerID subscriberEvent,
     subscriber_id = SubscriberID subscriberEvent, event_type = EventType subscriberEvent,
     occurred_at = ts (OccurredAt subscriberEvent), webhook_url = webhookURL, status = Pending,
     available_at = ts availableAt, claimed_at = None, claim_owner = None, retry_count = 0,
     last_error = None, dead_lettered_at = None, completed_at = None,
     created_at = ts createdAt, updated_at = ts createdAt\<rparr>"

text \<open>The sequence of \<open>BIGSERIAL\<close> is taken as endless.\<close>

definition insert_row :: "(time \<Rightarrow> time) \<Rightarrow> SubscriberEvent \<Rightarrow> string \<Rightarrow> time \<Rightarrow> time \<Rightarrow> queue_db \<Rightarrow> queue_db" where
  "insert_row ts subscriberEvent webhookURL availableAt createdAt db =
    db\<lparr>rows := rows db @ [new_row ts subscriberEvent availableAt createdAt (next_id db) webhookURL],
      next_id := next_id db + 1\<rparr>"

text \<open>The loop over the URLs inside the transaction; the counter numbers the statements.\<close>

fun insert_rows :: "(time \<Rightarrow> time) \<Rightarrow> db_faults \<Rightarrow> nat \<Rightarrow> SubscriberEvent \<Rightarrow> string list \<Rightarrow> time \<Rightarrow> time \<Rightarrow>
    queue_db \<Rightarrow> go_error option \<times> queue_db" where
  "insert_rows ts faults k subscriberEvent [] availableAt createdAt db = (None, db)"
| "insert_rows ts faults k subscriberEvent (webhookURL # webhookURLs) availableAt createdAt db =
    (case stmt_fault faults k of
       Some e \<Rightarrow> (Some (Wrap ''insert queued delivery'' e), db)
     | None \<Rightarrow> insert_rows ts faults (Suc k) subscriberEvent webhookURLs availableAt createdAt
         (insert_row ts subscriberEvent webhookURL availableAt createdAt db))"

text \<open>The deferred \<open>Rollback\<close>: the rows are as before, the sequence stays where it is.\<close>

definition rollback :: "queue_db \<Rightarrow> queue_db \<Rightarrow> queue_db" where
  "rollback db tx = tx\<lparr>rows := rows db\<rparr>"

definition commit :: "db_faults \<Rightarrow> string \<Rightarrow> 'a \<Rightarrow> queue_db \<Rightarrow> queue_db \<Rightarrow> (go_error + 'a) \<times> queue_db" where
  "commit faults prefix result db tx =
    (case commit_fault faults of
       None \<Rightarrow> (Inr result, tx)
     | Some (e, applied) \<Rightarrow> (Inl (Wrap prefix e), if applied then tx else rollback db tx))"

definition EnqueueDeliveries :: "(time \<Rightarrow> time) \<Rightarrow> db_faults \<Rightarrow> time \<Rightarrow> go_context \<Rightarrow> SubscriberEvent \<Rightarrow>
    string list \<Rightarrow> time \<Rightarrow> queue_db \<Rightarrow> (go_error + go_int) \<times> queue_db" where
  "EnqueueDeliveries ts faults createdAt ctx subscriberEvent webhookURLs availableAt db =
    (if webhookURLs = [] then (Inr 0, db)
     else case context_fault ctx (begin_fault faults) id of
       Some e \<Rightarrow> (Inl (Wrap ''begin enqueue transaction'' e), db)
     | None \<Rightarrow>
        (case insert_rows ts faults 0 subscriberEvent webhookURLs availableAt createdAt db of
           (Some e, tx) \<Rightarrow> (Inl e, rollback db tx)
         | (None, tx) \<Rightarrow>
             commit faults ''commit enqueue transaction'' (int (length webhookURLs)) db tx))"

section \<open>Claim\<close>

text \<open>What \<open>rows.Scan\<close> and the two assignments after it make of a returned row.\<close>

definition scan_job :: "queue_row \<Rightarrow> DeliveryJob" where
  "scan_job r =
    \<lparr>QueueItemID = row_id r,
     Event = \<lparr>EventID = event_id r, CustomerID = customer_id r, SubscriberID = subscriber_id r,
              EventType = event_type r, OccurredAt = occurred_at r\<rparr>,
     WebhookURL = webhook_url r, Attempt = retry_count r, EnqueuedAt = created_at r,
     LastError = (case last_error r of None \<Rightarrow> [] | Some e \<Rightarrow> e), TraceID = event_id r\<rparr>"

definition claim_key :: "queue_row \<Rightarrow> time \<times> go_int" where
  "claim_key r = (available_at r, row_id r)"

definition candidate_rows :: "go_int set \<Rightarrow> go_int \<Rightarrow> time \<Rightarrow> queue_row list \<Rightarrow> queue_row list" where
  "candidate_rows locked limit claimedAt table =
    take (nat limit) (sort_key claim_key
      (filter (\<lambda>r. status r = Pending \<and> available_at r \<le> claimedAt \<and> row_id r \<notin> locked) table))"

definition claim_row :: "string \<Rightarrow> time \<Rightarrow> queue_row \<Rightarrow> queue_row" where
  "claim_row claimOwner claimedAt r =
    r\<lparr>status := Claimed, claimed_at := Some claimedAt, claim_owner := Some claimOwner,
      updated_at := claimedAt\<rparr>"

fun scan_rows :: "db_faults \<Rightarrow> nat \<Rightarrow> queue_row list \<Rightarrow> go_error + QueuedDelivery list" where
  "scan_rows faults k [] =
    (case rows_fault faults of
       Some e \<Rightarrow> Inl (Wrap ''iterate claimed queued deliveries'' e) | None \<Rightarrow> Inr [])"
| "scan_rows faults k (r # rs) =
    (case scan_fault faults k of
       Some e \<Rightarrow> Inl (Wrap ''scan claimed queued delivery'' e)
     | None \<Rightarrow> map_sum id ((#) \<lparr>DeliveryQueueItemID = row_id r, QueuedJob = scan_job r\<rparr>)
         (scan_rows faults (Suc k) rs))"

text \<open>The statement of the claim: its effect on the table, and the rows it returns.\<close>

definition claim_statement :: "go_int set \<Rightarrow> string \<Rightarrow> go_int \<Rightarrow> time \<Rightarrow> queue_db \<Rightarrow> queue_db \<times> queue_row list" where
  "claim_statement locked claimOwner limit claimedAt db =
    (let ids = set (map row_id (candidate_rows locked limit claimedAt (rows db)));
         rows' = map (\<lambda>r. if row_id r \<in> ids then claim_row claimOwner claimedAt r else r) (rows db)
     in (db\<lparr>rows := rows'\<rparr>, filter (\<lambda>r. row_id r \<in> ids) rows'))"

text \<open>
  PostgreSQL rejects a negative \<open>LIMIT\<close>. A limit so large that \<open>make\<close> cannot allocate the slice makes the
  caller panic; a panic ends the process and is not a result of the call.
\<close>

definition ClaimAvailableDeliveries :: "(time \<Rightarrow> time) \<Rightarrow> go_int set \<Rightarrow> (queue_row list \<Rightarrow> queue_row list) \<Rightarrow>
    db_faults \<Rightarrow> go_context \<Rightarrow> string \<Rightarrow> go_int \<Rightarrow> time \<Rightarrow> queue_db \<Rightarrow>
    (go_error + QueuedDelivery list) \<times> queue_db" where
  "ClaimAvailableDeliveries ts locked returning faults ctx claimOwner limit claimedAt db =
    (case context_fault ctx (begin_fault faults) id of
       Some e \<Rightarrow> (Inl (Wrap ''begin claim transaction'' e), db)
     | None \<Rightarrow>
        (case (if limit < 0 then Some (Err ''LIMIT must not be negative'') else stmt_fault faults 0) of
           Some e \<Rightarrow> (Inl (Wrap ''claim queued deliveries'' e), db)
         | None \<Rightarrow>
            (case claim_statement locked claimOwner limit (ts claimedAt) db of
               (tx, returned) \<Rightarrow>
                 (case scan_rows faults 0 (returning returned) of
                    Inl e \<Rightarrow> (Inl e, rollback db tx)
                  | Inr queuedDeliveries \<Rightarrow>
                      commit faults ''commit claim transaction'' queuedDeliveries db tx))))"

section \<open>Marks\<close>

text \<open>
  \<open>updateQueueItem\<close> runs one \<open>UPDATE ... WHERE id = $1\<close> outside a transaction. The statement fails
  when an assignment leaves the range of its column (\<open>legal\<close>).
\<close>

definition updateQueueItem :: "db_faults \<Rightarrow> go_context \<Rightarrow> (queue_row \<Rightarrow> bool) \<Rightarrow> (queue_row \<Rightarrow> queue_row) \<Rightarrow>
    go_int \<Rightarrow> queue_db \<Rightarrow> go_error option \<times> queue_db" where
  "updateQueueItem faults ctx legal update queueItemID db =
    (let affectedRows = length (filter (\<lambda>r. row_id r = queueItemID) (rows db));
         done = db\<lparr>rows := map (\<lambda>r. if row_id r = queueItemID then update r else r) (rows db)\<rparr>
     in case context_fault ctx (exec_fault faults) (\<lambda>e. (e, False)) of
          Some (e, applied) \<Rightarrow>
            (Some e, if applied \<and> (\<forall>r \<in> set (rows db). row_id r = queueItemID \<longrightarrow> legal r)
                     then done else db)
        | None \<Rightarrow>
           if \<not> (\<forall>r \<in> set (rows db). row_id r = queueItemID \<longrightarrow> legal r)
           then (Some (Err ''integer out of range''), db)
           else case affected_fault faults of
             Some e \<Rightarrow> (Some e, done)
           | None \<Rightarrow>
              if affectedRows \<noteq> 1
              then (Some (Err (''expected 1 affected queue row, got '' @ Itoa (int affectedRows))), done)
              else (None, done))"

definition complete_row :: "time \<Rightarrow> queue_row \<Rightarrow> queue_row" where
  "complete_row completedAt r =
    r\<lparr>status := Completed, completed_at := Some completedAt, updated_at := completedAt\<rparr>"

definition MarkDelivered :: "(time \<Rightarrow> time) \<Rightarrow> db_faults \<Rightarrow> go_context \<Rightarrow> go_int \<Rightarrow> time \<Rightarrow> queue_db \<Rightarrow>
    go_error option \<times> queue_db" where
  "MarkDelivered ts faults ctx queueItemID completedAt db =
    updateQueueItem faults ctx (\<lambda>_. True) (complete_row (ts completedAt)) queueItemID db"

definition max_int4 :: int where "max_int4 = 2 ^ 31 - 1"

definition retry_row :: "string \<Rightarrow> time \<Rightarrow> time \<Rightarrow> queue_row \<Rightarrow> queue_row" where
  "retry_row lastError nextAvailableAt updatedAt r =
    r\<lparr>status := Pending, available_at := nextAvailableAt, retry_count := retry_count r + 1,
      last_error := Some lastError, claimed_at := None, claim_owner := None, updated_at := updatedAt\<rparr>"

definition MarkRetryPending :: "(time \<Rightarrow> time) \<Rightarrow> db_faults \<Rightarrow> go_context \<Rightarrow> go_int \<Rightarrow> string \<Rightarrow> time \<Rightarrow> time \<Rightarrow>
    queue_db \<Rightarrow> go_error option \<times> queue_db" where
  "MarkRetryPending ts faults ctx queueItemID lastError nextAvailableAt updatedAt db =
    updateQueueItem faults ctx (\<lambda>r. retry_count r < max_int4)
      (retry_row lastError (ts nextAvailableAt) (ts updatedAt)) queueItemID db"

definition dead_row :: "string \<Rightarrow> time \<Rightarrow> queue_row \<Rightarrow> queue_row" where
  "dead_row lastError deadLetteredAt r =
    r\<lparr>status := DeadLettered, dead_lettered_at := Some deadLetteredAt, last_error := Some lastError,
      claimed_at := None, claim_owner := None, updated_at := deadLetteredAt\<rparr>"

definition MarkDeadLetter :: "(time \<Rightarrow> time) \<Rightarrow> db_faults \<Rightarrow> go_context \<Rightarrow> go_int \<Rightarrow> string \<Rightarrow> time \<Rightarrow> queue_db \<Rightarrow>
    go_error option \<times> queue_db" where
  "MarkDeadLetter ts faults ctx queueItemID lastError deadLetteredAt db =
    updateQueueItem faults ctx (\<lambda>_. True) (dead_row lastError (ts deadLetteredAt)) queueItemID db"

section \<open>Snapshots and close\<close>

definition SnapshotQueueState :: "db_faults \<Rightarrow> go_context \<Rightarrow> queue_db \<Rightarrow> go_error + QueueStateSnapshot" where
  "SnapshotQueueState faults ctx db =
    (case context_fault ctx (stmt_fault faults 0) id of
       Some e \<Rightarrow> Inl (Wrap ''query queue state snapshot'' e)
     | None \<Rightarrow>
        (let pending = filter (\<lambda>r. status r = Pending) (rows db)
         in Inr \<lparr>PendingDeliveryCount = int (length pending),
                 OldestPendingCreatedAt =
                   (if pending = [] then 0 else Min (set (map created_at pending)))\<rparr>))"

text \<open>Descending order puts \<open>NULL\<close> first; scanning a \<open>NULL\<close> into a \<open>time.Time\<close> fails.\<close>

definition dead_letter_key :: "queue_row \<Rightarrow> nat \<times> time \<times> go_int" where
  "dead_letter_key r =
    (case dead_lettered_at r of None \<Rightarrow> (0, 0, - row_id r) | Some t \<Rightarrow> (1, - t, - row_id r))"

fun scan_dead_letters :: "db_faults \<Rightarrow> nat \<Rightarrow> queue_row list \<Rightarrow> go_error + DeadLetterMessage list" where
  "scan_dead_letters faults k [] =
    (case rows_fault faults of
       Some e \<Rightarrow> Inl (Wrap ''iterate dead-letter deliveries'' e) | None \<Rightarrow> Inr [])"
| "scan_dead_letters faults k (r # rs) =
    (case (scan_fault faults k, dead_lettered_at r) of
       (Some e, _) \<Rightarrow> Inl (Wrap ''scan dead-letter delivery'' e)
     | (None, None) \<Rightarrow> Inl (Wrap ''scan dead-letter delivery'' (Err ''cannot scan NULL into *time.Time''))
     | (None, Some exhaustedAt) \<Rightarrow>
         map_sum id ((#) \<lparr>DeadJob = (scan_job r)\<lparr>QueueItemID := 0, LastError := []\<rparr>,
             DeadFailureReason = LastError (scan_job r), ExhaustedAt = exhaustedAt\<rparr>)
           (scan_dead_letters faults (Suc k) rs))"

definition SnapshotDeadLetters :: "db_faults \<Rightarrow> go_context \<Rightarrow> queue_db \<Rightarrow> go_error + DeadLetterMessage list" where
  "SnapshotDeadLetters faults ctx db =
    (case context_fault ctx (stmt_fault faults 0) id of
       Some e \<Rightarrow> Inl (Wrap ''query dead-letter deliveries'' e)
     | None \<Rightarrow> scan_dead_letters faults 0
         (sort_key dead_letter_key (filter (\<lambda>r. status r = DeadLettered) (rows db))))"

text \<open>Closing: a missing connection and one that is already closed are not errors.\<close>

definition CloseRepository :: "bool \<Rightarrow> go_error option \<Rightarrow> go_error option" where
  "CloseRepository connected closeError =
    (if \<not> connected then None
     else case closeError of
       None \<Rightarrow> None | Some e \<Rightarrow> if errors_Is e ErrConnDone then None else Some e)"

text \<open>The repository as the notifier sees it through its interface.\<close>

definition PostgresRepository :: "(time \<Rightarrow> time) \<Rightarrow> go_int set \<Rightarrow> (queue_row list \<Rightarrow> queue_row list) \<Rightarrow>
    db_faults \<Rightarrow> time \<Rightarrow> queue_db Repository" where
  "PostgresRepository ts locked returning faults createdAt =
    \<lparr>repo_EnqueueDeliveries = EnqueueDeliveries ts faults createdAt,
     repo_ClaimAvailableDeliveries = ClaimAvailableDeliveries ts locked returning faults,
     repo_MarkDelivered = MarkDelivered ts faults,
     repo_MarkRetryPending = MarkRetryPending ts faults,
     repo_MarkDeadLetter = MarkDeadLetter ts faults,
     repo_SnapshotQueueState = SnapshotQueueState faults,
     repo_SnapshotDeadLetters = SnapshotDeadLetters faults\<rparr>"

text \<open>
  The constructors. A connection brings with it how its calls behave; \<open>openQueueConnection\<close> is
  \<open>sql.Open\<close>.
\<close>

record queue_connection =
  conn_rounding :: "time \<Rightarrow> time"
  conn_locked :: "go_int set"
  conn_returning :: "queue_row list \<Rightarrow> queue_row list"
  conn_faults :: db_faults
  conn_created :: time

definition NewPostgresRepositoryWithDatabaseConnection :: "queue_connection \<Rightarrow> queue_db Repository" where
  "NewPostgresRepositoryWithDatabaseConnection conn =
    PostgresRepository (conn_rounding conn) (conn_locked conn) (conn_returning conn) (conn_faults conn) (conn_created conn)"

definition NewPostgresRepository :: "(string \<Rightarrow> go_error + queue_connection) \<Rightarrow> string \<Rightarrow> go_error + queue_db Repository" where
  "NewPostgresRepository openQueueConnection connectionString =
    (case openQueueConnection connectionString of
       Inl openError \<Rightarrow> Inl (Wrap ''open postgres queue connection'' openError)
     | Inr conn \<Rightarrow> Inr (NewPostgresRepositoryWithDatabaseConnection conn))"

end
