(* ===== verification/WorkQueue_Laws.thy ===== *)
theory WorkQueue_Laws
  imports WorkQueue
begin

text \<open>
  The PostgreSQL queue meets the contract of \<open>Contracts\<close>. The invariant \<open>table_inv\<close> relates the
  columns of each row (unique ids below the sequence, claim columns set exactly while a row is
  claimed, a retry count in the range of its column) and every operation keeps it, failing calls
  included. The locale \<open>postgres\<close> fixes what the server is free to choose; its \<open>sublocale\<close> proof
  discharges the laws of \<open>work_queue\<close>, and the properties rest on the interpretation.
\<close>

section \<open>The invariant of the table\<close>

definition row_inv :: "queue_row \<Rightarrow> bool" where
  "row_inv r \<longleftrightarrow>
     0 \<le> retry_count r \<and> retry_count r \<le> max_int4 \<and>
     (status r = Pending \<longrightarrow> claimed_at r = None \<and> claim_owner r = None) \<and>
     (status r = Claimed \<longrightarrow> claimed_at r \<noteq> None \<and> claim_owner r \<noteq> None) \<and>
     (status r = Completed \<longrightarrow> completed_at r \<noteq> None) \<and>
     (status r = DeadLettered \<longrightarrow> dead_lettered_at r \<noteq> None \<and> last_error r \<noteq> None)"

definition table_inv :: "queue_db \<Rightarrow> bool" where
  "table_inv db \<longleftrightarrow> distinct (map row_id (rows db)) \<and>
     (\<forall>r \<in> set (rows db). row_id r < next_id db \<and> row_inv r)"

lemma row_update_fields [simp]:
  "row_id (claim_row owner t r) = row_id r" "row_id (complete_row t r) = row_id r"
  "row_id (retry_row e t u r) = row_id r" "row_id (dead_row e t r) = row_id r"
  "status (claim_row owner t r) = Claimed" "status (complete_row t r) = Completed"
  "status (retry_row e t u r) = Pending" "status (dead_row e t r) = DeadLettered"
  "available_at (claim_row owner t r) = available_at r" "available_at (complete_row t r) = available_at r"
  "available_at (retry_row e t u r) = t" "available_at (dead_row e t r) = available_at r"
  by (simp_all add: claim_row_def complete_row_def retry_row_def dead_row_def)

lemma row_inv_updates [intro]:
  "row_inv r \<Longrightarrow> row_inv (claim_row owner t r)"
  "row_inv r \<Longrightarrow> row_inv (complete_row t r)"
  "row_inv r \<Longrightarrow> retry_count r < max_int4 \<Longrightarrow> row_inv (retry_row e t u r)"
  "row_inv r \<Longrightarrow> row_inv (dead_row e t r)"
  by (auto simp: row_inv_def claim_row_def complete_row_def retry_row_def dead_row_def)

text \<open>An update of single rows that keeps their ids and their row invariant keeps the table's.\<close>

lemma table_inv_update:
  assumes "table_inv db" and "\<And>r. row_id (f r) = row_id r"
    and "\<And>r. r \<in> set (rows db) \<Longrightarrow> row_inv r \<Longrightarrow> row_inv (f r)"
  shows "table_inv (db\<lparr>rows := map f (rows db)\<rparr>)"
  using assms by (auto simp: table_inv_def o_def)

lemma table_inv_insert:
  assumes "table_inv db"
  shows "table_inv (insert_row ts ev url t u db)"
  using assms by (auto simp: table_inv_def insert_row_def new_row_def row_inv_def max_int4_def)

lemma insert_rows_inv:
  assumes "table_inv db" and "insert_rows ts faults k ev urls t u db = (e, tx)"
  shows "table_inv tx" and "next_id db \<le> next_id tx"
proof -
  have "table_inv tx \<and> next_id db \<le> next_id tx"
    using assms
  proof (induction ts faults k ev urls t u db rule: insert_rows.induct)
    case (2 ts faults k ev url urls t u db)
    then show ?case
      using table_inv_insert [OF "2.prems"(1), of ts ev url t u]
      by (fastforce split: option.splits simp: insert_row_def)
  qed auto
  then show "table_inv tx" "next_id db \<le> next_id tx" by auto
qed

lemma table_inv_rollback: "table_inv db \<Longrightarrow> next_id db \<le> next_id tx \<Longrightarrow> table_inv (rollback db tx)"
  by (fastforce simp: table_inv_def rollback_def)

lemma table_inv_commit:
  assumes "table_inv db" and "table_inv tx" and "next_id db \<le> next_id tx"
    and "commit faults prefix result db tx = (res, db')"
  shows "table_inv db'"
  using assms by (auto simp: commit_def table_inv_rollback split: option.splits if_splits)

lemma table_inv_updateQueueItem:
  assumes "table_inv db" and "\<And>r. row_id (update r) = row_id r"
    and "\<And>r. row_inv r \<Longrightarrow> legal r \<Longrightarrow> row_inv (update r)"
    and "updateQueueItem faults ctx legal update i db = (e, db')"
  shows "table_inv db'"
proof -
  let ?f = "\<lambda>r. if row_id r = i then update r else r"
  have "db' = db \<or> (\<forall>r \<in> set (rows db). row_id r = i \<longrightarrow> legal r) \<and> db' = db\<lparr>rows := map ?f (rows db)\<rparr>"
    using assms(4) by (auto simp: updateQueueItem_def Let_def split: option.splits if_splits)
  then show ?thesis
    using table_inv_update [OF assms(1), of ?f] assms(1,2,3) by auto
qed

lemma table_inv_Enqueue:
  assumes "table_inv db" and "EnqueueDeliveries ts faults now ctx ev urls t db = (res, db')"
  shows "table_inv db'"
proof -
  obtain e tx where ins: "insert_rows ts faults 0 ev urls t now db = (e, tx)" by fastforce
  note tx = insert_rows_inv [OF assms(1) ins]
  show ?thesis
    using assms tx
    by (auto simp: EnqueueDeliveries_def ins table_inv_rollback
        split: option.splits if_splits dest: table_inv_commit)
qed

lemma table_inv_claim_statement:
  assumes "table_inv db" and "claim_statement locked owner limit t db = (tx, returned)"
  shows "table_inv tx" and "next_id tx = next_id db"
proof -
  let ?f = "\<lambda>r. if row_id r \<in> set (map row_id (candidate_rows locked limit t (rows db)))
    then claim_row owner t r else r"
  have tx: "tx = db\<lparr>rows := map ?f (rows db)\<rparr>"
    using assms(2) by (simp add: claim_statement_def Let_def)
  show "table_inv tx" unfolding tx by (rule table_inv_update [OF assms(1)]) auto
  show "next_id tx = next_id db" by (simp add: tx)
qed

lemma table_inv_Claim:
  assumes "table_inv db"
    and "ClaimAvailableDeliveries ts locked returning faults ctx owner limit t db = (res, db')"
  shows "table_inv db'"
proof -
  obtain tx returned where st: "claim_statement locked owner limit (ts t) db = (tx, returned)" by fastforce
  note tx = table_inv_claim_statement [OF assms(1) st]
  show ?thesis
    using assms tx
    by (auto simp: ClaimAvailableDeliveries_def st table_inv_rollback
        split: option.splits if_splits sum.splits dest: table_inv_commit)
qed

lemma table_inv_MarkDelivered:
  "table_inv db \<Longrightarrow> MarkDelivered ts faults ctx i t db = (e, db') \<Longrightarrow> table_inv db'"
  unfolding MarkDelivered_def by (erule table_inv_updateQueueItem [rotated 3]) auto

lemma table_inv_MarkRetryPending:
  "table_inv db \<Longrightarrow> MarkRetryPending ts faults ctx i msg t u db = (e, db') \<Longrightarrow> table_inv db'"
  unfolding MarkRetryPending_def by (erule table_inv_updateQueueItem [rotated 3]) auto

lemma table_inv_MarkDeadLetter:
  "table_inv db \<Longrightarrow> MarkDeadLetter ts faults ctx i msg t db = (e, db') \<Longrightarrow> table_inv db'"
  unfolding MarkDeadLetter_def by (erule table_inv_updateQueueItem [rotated 3]) auto

lemmas table_inv_ops = table_inv_Enqueue table_inv_Claim table_inv_MarkDelivered
  table_inv_MarkRetryPending table_inv_MarkDeadLetter

lemma table_inv_snd:
  assumes "table_inv db"
  shows "table_inv (snd (EnqueueDeliveries ts faults now ctx ev urls t db))"
    and "table_inv (snd (ClaimAvailableDeliveries ts locked returning faults ctx owner limit t db))"
    and "table_inv (snd (MarkDelivered ts faults ctx i t db))"
    and "table_inv (snd (MarkRetryPending ts faults ctx i msg t u db))"
    and "table_inv (snd (MarkDeadLetter ts faults ctx i msg t db))"
  using table_inv_ops [OF assms] by (metis surjective_pairing)+

lemma run_claim_snd:
  "snd (run_repo_op repo (RepoClaim owner limit t) q) = snd (repo_ClaimAvailableDeliveries repo None owner limit t q)"
  by (simp split: prod.split sum.split)

lemma table_inv_run_op:
  "table_inv db \<Longrightarrow> table_inv (snd (run_repo_op (PostgresRepository ts locked returning faults now) op db))"
  by (cases op) (simp_all add: run_claim_snd table_inv_snd PostgresRepository_def del: run_repo_op.simps(2))

section \<open>The table as a map of items\<close>

definition row_item :: "queue_row \<Rightarrow> queue_item" where
  "row_item r = \<lparr>item_job = scan_job r, item_status = status r, item_available = available_at r\<rparr>"

definition row_view :: "queue_db \<Rightarrow> go_int \<Rightarrow> queue_item option" where
  "row_view db = map_of (map (\<lambda>r. (row_id r, row_item r)) (rows db))"

lemma row_item_fields [simp]:
  "item_status (row_item r) = status r" "item_available (row_item r) = available_at r"
  "item_job (row_item r) = scan_job r"
  by (simp_all add: row_item_def)

lemma scan_job_fields [simp]:
  "QueueItemID (scan_job r) = row_id r" "Attempt (scan_job r) = retry_count r"
  "WebhookURL (scan_job r) = webhook_url r" "job_customer (scan_job r) = customer_id r"
  by (simp_all add: scan_job_def)

lemma row_item_updates [queue_laws]:
  "row_item (claim_row owner t r) = (row_item r)\<lparr>item_status := Claimed\<rparr>"
  "row_item (complete_row t r) = (row_item r)\<lparr>item_status := Completed\<rparr>"
  "row_item (retry_row msg t u r) = (row_item r)\<lparr>item_status := Pending, item_available := t,
     item_job := (item_job (row_item r))\<lparr>Attempt := Attempt (item_job (row_item r)) + 1, LastError := msg\<rparr>\<rparr>"
  "row_item (dead_row msg t r) = (row_item r)\<lparr>item_status := DeadLettered,
     item_job := (item_job (row_item r))\<lparr>LastError := msg\<rparr>\<rparr>"
  by (simp_all add: row_item_def scan_job_def claim_row_def complete_row_def retry_row_def dead_row_def)

lemma row_view_Some_iff:
  assumes "table_inv db"
  shows "row_view db i = Some it \<longleftrightarrow> (\<exists>r \<in> set (rows db). row_id r = i \<and> it = row_item r)"
  using assms by (auto simp: row_view_def table_inv_def map_of_eq_Some_iff o_def)

lemma row_view_None_iff: "row_view db i = None \<longleftrightarrow> i \<notin> row_id ` set (rows db)"
  by (auto simp: row_view_def map_of_eq_None_iff image_image)

lemma row_view_map:
  assumes "\<And>r. r \<in> set (rows db) \<Longrightarrow> row_id (f r) = row_id r \<and> row_item (f r) = g (row_id r) (row_item r)"
  shows "row_view (db\<lparr>rows := map f (rows db)\<rparr>) i = map_option (g i) (row_view db i)"
proof -
  have "map_of (map (\<lambda>r. (row_id (f r), row_item (f r))) rs) i =
      map_option (g i) (map_of (map (\<lambda>r. (row_id r, row_item r)) rs) i)"
    if "set rs \<subseteq> set (rows db)" for rs
    using that assms by (induction rs) auto
  then show ?thesis by (simp add: row_view_def o_def)
qed

lemma row_view_updateQueueItem:
  assumes inv: "table_inv db" and call: "updateQueueItem no_faults None legal update i db = (e, db')"
    and item: "\<And>r. row_id (update r) = row_id r \<and> row_item (update r) = g (row_item r)"
    and keeps: "\<And>r. legal r \<longleftrightarrow> keeps (row_item r)"
  shows "row_view db' = (row_view db)(i := map_option (\<lambda>it. if keeps it then g it else it) (row_view db i))"
    and "e = None \<longleftrightarrow> (\<exists>it. row_view db i = Some it \<and> keeps it)"
proof -
  let ?f = "\<lambda>r. if row_id r = i then update r else r"
  let ?ok = "\<forall>r \<in> set (rows db). row_id r = i \<longrightarrow> legal r"
  let ?done = "db\<lparr>rows := map ?f (rows db)\<rparr>"
  have ok: "?ok \<longleftrightarrow> (\<forall>it. row_view db i = Some it \<longrightarrow> keeps it)"
    using row_view_Some_iff [OF inv] keeps by auto
  have new: "row_view ?done j = map_option (if j = i then g else id) (row_view db j)" for j
    by (rule row_view_map) (auto simp: item)
  have count: "length (filter (\<lambda>r. row_id r = i) (rows db)) = (if row_view db i = None then 0 else 1)"
    using inv length_filter_key [of row_id "rows db" i] by (simp add: table_inv_def row_view_None_iff)
  have db': "db' = (if ?ok then ?done else db)" and e: "e = None \<longleftrightarrow> ?ok \<and> row_view db i \<noteq> None"
    using call count
    by (auto simp: updateQueueItem_def Let_def split: if_splits)
  show "row_view db' = (row_view db)(i := map_option (\<lambda>it. if keeps it then g it else it) (row_view db i))"
  proof
    fix j
    show "row_view db' j = ((row_view db)(i := map_option (\<lambda>it. if keeps it then g it else it) (row_view db i))) j"
      using ok new [of j] by (cases "row_view db i") (auto simp: db' option.map_id)
  qed
  show "e = None \<longleftrightarrow> (\<exists>it. row_view db i = Some it \<and> keeps it)"
    using ok e by auto
qed

lemma mark_view:
  assumes "table_inv db" and "\<And>r. row_id (update r) = row_id r"
    and "\<And>r. row_item (update r) = g (row_item r)" and "\<And>r. legal r \<longleftrightarrow> keeps (row_item r)"
  shows "row_view (snd (updateQueueItem no_faults None legal update i db)) =
    (row_view db)(i := map_option (\<lambda>it. if keeps it then g it else it) (row_view db i))"
  using row_view_updateQueueItem(1) [OF assms(1) surjective_pairing, of update g legal keeps] assms(2-4) by blast

section \<open>Enqueue and claim without faults\<close>

lemma insert_rows_no_faults:
  "insert_rows ts no_faults k ev urls t u db =
    (None, db\<lparr>rows := rows db @ map2 (new_row ts ev t u) [next_id db .. next_id db + int (length urls) - 1] urls,
              next_id := next_id db + int (length urls)\<rparr>)"
proof (induction urls arbitrary: k db)
  case Nil
  then show ?case by simp
next
  case (Cons url urls)
  have "[next_id db .. next_id db + int (length (url # urls)) - 1] =
      next_id db # [next_id db + 1 .. next_id db + 1 + int (length urls) - 1]"
    by (subst upto_rec1) (simp_all add: algebra_simps)
  then show ?case
    using Cons.IH [of "Suc k" "insert_row ts ev url t u db"]
    by (simp add: insert_row_def algebra_simps)
qed

lemma row_view_append:
  "row_view (db\<lparr>rows := rows db @ rs, next_id := n\<rparr>) i =
    (case row_view db i of
       Some it \<Rightarrow> Some it | None \<Rightarrow> map_of (map (\<lambda>r. (row_id r, row_item r)) rs) i)"
  by (simp add: row_view_def map_add_def)

lemma map_of_new_rows:
  assumes "length ids = length urls" and "distinct ids" and "k < length urls"
  shows "map_of (map (\<lambda>r. (row_id r, row_item r)) (map2 (new_row ts ev t u) ids urls)) (ids ! k) =
    Some (row_item (new_row ts ev t u (ids ! k) (urls ! k)))"
proof -
  have "map (\<lambda>r. (row_id r, row_item r)) (map2 (new_row ts ev t u) ids urls) =
      zip ids (map2 (\<lambda>i url. row_item (new_row ts ev t u i url)) ids urls)"
    using assms(1) by (intro nth_equalityI) (auto simp: new_row_def)
  then show ?thesis using assms by (simp add: map_of_zip_nth)
qed

lemma row_item_new_row:
  "item_status (row_item (new_row ts ev t u i url)) = Pending"
  "item_available (row_item (new_row ts ev t u i url)) = ts t"
  "QueueItemID (item_job (row_item (new_row ts ev t u i url))) = i"
  "Event (item_job (row_item (new_row ts ev t u i url))) = ev\<lparr>OccurredAt := ts (OccurredAt ev)\<rparr>"
  "WebhookURL (item_job (row_item (new_row ts ev t u i url))) = url"
  "Attempt (item_job (row_item (new_row ts ev t u i url))) = 0"
  by (simp_all add: new_row_def scan_job_def)

lemma Enqueue_no_faults:
  assumes inv: "table_inv db" and call: "EnqueueDeliveries ts no_faults now None ev urls t db = (res, db')"
  shows "res = Inr (int (length urls)) \<and> (\<exists>ids. distinct ids \<and> length ids = length urls \<and>
    (\<forall>i \<in> set ids. row_view db i = None) \<and> (\<forall>i. i \<notin> set ids \<longrightarrow> row_view db' i = row_view db i) \<and>
    (\<forall>k < length urls. row_view db' (ids ! k) = Some (row_item (new_row ts ev t now (ids ! k) (urls ! k)))))"
proof (cases "urls = []")
  case True
  then show ?thesis using call by (auto simp: EnqueueDeliveries_def)
next
  case False
  let ?ids = "[next_id db .. next_id db + int (length urls) - 1]"
  let ?new = "map2 (new_row ts ev t now) ?ids urls"
  have db': "db' = db\<lparr>rows := rows db @ ?new, next_id := next_id db + int (length urls)\<rparr>"
    and res: "res = Inr (int (length urls))"
    using call False
    by (auto simp: EnqueueDeliveries_def insert_rows_no_faults commit_def)
  have len: "length ?ids = length urls" by simp
  have fresh: "row_view db i = None" if "i \<in> set ?ids" for i
    using that inv by (auto simp: row_view_None_iff table_inv_def)
  moreover have "row_view db' i = row_view db i" if "i \<notin> set ?ids" for i
  proof -
    have "row_id ` set ?new \<subseteq> set ?ids"
      by (auto simp: new_row_def simp del: set_upto dest: set_zip_leftD)
    then have "map_of (map (\<lambda>r. (row_id r, row_item r)) ?new) i = None"
      using that unfolding map_of_eq_None_iff by (auto simp: image_image simp del: set_upto)
    then show ?thesis unfolding db' row_view_append by (cases "row_view db i") simp_all
  qed
  moreover have "row_view db' (?ids ! k) = Some (row_item (new_row ts ev t now (?ids ! k) (urls ! k)))"
    if "k < length urls" for k
    using fresh [of "?ids ! k"] map_of_new_rows [OF len _ that, of ts ev t now] that len
    by (simp add: db' row_view_append del: map_map)
  ultimately show ?thesis using res len distinct_upto by blast
qed

definition due :: "go_int set \<Rightarrow> time \<Rightarrow> queue_row \<Rightarrow> bool" where
  "due locked t r \<longleftrightarrow> status r = Pending \<and> available_at r \<le> t \<and> row_id r \<notin> locked"

lemma candidate_rows_due:
  "candidate_rows locked limit t table = take (nat limit) (sort_key claim_key (filter (due locked t) table))"
  by (simp add: candidate_rows_def due_def [abs_def])

lemma set_candidate_rows: "set (candidate_rows locked limit t table) \<subseteq> {r \<in> set table. due locked t r}"
  using set_take_subset [of "nat limit"] by (fastforce simp: candidate_rows_due)

lemma distinct_candidate_ids:
  "distinct (map row_id table) \<Longrightarrow> distinct (map row_id (candidate_rows locked limit t table))"
  by (metis candidate_rows_due distinct_map_filter distinct_take mset_map mset_sort take_map
      mset_eq_imp_distinct_iff)

lemma length_candidate_rows:
  "length (candidate_rows locked limit t table) = min (nat limit) (length (filter (due locked t) table))"
  by (simp add: candidate_rows_due min.commute)

text \<open>The rows a claim returns are the candidates, claimed.\<close>

lemma claim_statement_rows:
  assumes inv: "distinct (map row_id (rows db))"
  shows "mset (snd (claim_statement locked owner limit t db)) =
    image_mset (claim_row owner t) (mset (candidate_rows locked limit t (rows db)))"
proof -
  let ?C = "candidate_rows locked limit t (rows db)"
  let ?in = "\<lambda>r. row_id r \<in> set (map row_id ?C)"
  have "snd (claim_statement locked owner limit t db) = map (claim_row owner t) (filter ?in (rows db))"
    by (auto simp: claim_statement_def Let_def filter_map o_def intro!: map_cong filter_cong)
  moreover have "mset (filter ?in (rows db)) = mset ?C"
  proof -
    have "set (filter ?in (rows db)) = set ?C"
      using set_candidate_rows [of locked limit t "rows db"] inv
      by (auto simp: distinct_map inj_on_def)
    moreover have "distinct (filter ?in (rows db))" "distinct ?C"
      using inv distinct_candidate_ids [OF inv, of locked limit t] by (simp_all add: distinct_map)
    ultimately show ?thesis by (metis set_eq_iff_mset_eq_distinct)
  qed
  ultimately show ?thesis by simp
qed

lemma scan_rows_no_faults:
  "scan_rows no_faults k rs = Inr (map (\<lambda>r. \<lparr>DeliveryQueueItemID = row_id r, QueuedJob = scan_job r\<rparr>) rs)"
  by (induction no_faults k rs rule: scan_rows.induct) simp_all

lemma row_view_claim_statement:
  assumes "claim_statement locked owner limit t db = (tx, returned)"
  shows "row_view tx i = (if i \<in> row_id ` set (candidate_rows locked limit t (rows db))
    then map_option (\<lambda>it. it\<lparr>item_status := Claimed\<rparr>) (row_view db i) else row_view db i)"
proof -
  let ?ids = "set (map row_id (candidate_rows locked limit t (rows db)))"
  have "tx = db\<lparr>rows := map (\<lambda>r. if row_id r \<in> ?ids then claim_row owner t r else r) (rows db)\<rparr>"
    using assms by (simp add: claim_statement_def Let_def)
  moreover have "row_view (db\<lparr>rows := map (\<lambda>r. if row_id r \<in> ?ids then claim_row owner t r else r) (rows db)\<rparr>) i =
      map_option ((\<lambda>i it. if i \<in> ?ids then it\<lparr>item_status := Claimed\<rparr> else it) i) (row_view db i)"
    by (rule row_view_map) (simp add: queue_laws)
  ultimately show ?thesis by (simp add: option.map_ident)
qed

text \<open>A claim without faults, for any order in which the rows come back.\<close>

lemma Claim_no_faults:
  assumes inv: "table_inv db" and perm: "\<And>rs. mset (returning rs) = mset rs"
    and call: "ClaimAvailableDeliveries ts locked returning no_faults None owner limit t db = (res, db')"
  shows "limit < 0 \<and> db' = db \<and> (\<exists>e. res = Inl e) \<or>
    0 \<le> limit \<and> (\<exists>ds. res = Inr ds \<and>
      mset (handed_ids ds) = mset (map row_id (candidate_rows locked limit (ts t) (rows db))) \<and>
      (\<forall>d \<in> set ds. \<exists>r \<in> set (candidate_rows locked limit (ts t) (rows db)).
         DeliveryQueueItemID d = row_id r \<and> QueuedJob d = scan_job r) \<and>
      (\<forall>i. row_view db' i = (if i \<in> set (handed_ids ds)
         then map_option (\<lambda>it. it\<lparr>item_status := Claimed\<rparr>) (row_view db i) else row_view db i)))"
proof (cases "limit < 0")
  case True
  then show ?thesis using call by (auto simp: ClaimAvailableDeliveries_def)
next
  case False
  let ?C = "candidate_rows locked limit (ts t) (rows db)"
  obtain tx returned where st: "claim_statement locked owner limit (ts t) db = (tx, returned)" by fastforce
  let ?ds = "map (\<lambda>r. \<lparr>DeliveryQueueItemID = row_id r, QueuedJob = scan_job r\<rparr>) (returning returned)"
  have res: "res = Inr ?ds" "db' = tx"
    using call False by (auto simp: ClaimAvailableDeliveries_def st scan_rows_no_faults commit_def)
  have ret: "mset (returning returned) = image_mset (claim_row owner (ts t)) (mset ?C)"
    using claim_statement_rows [of db locked owner limit "ts t"] inv by (simp add: perm st table_inv_def)
  have ids: "mset (handed_ids ?ds) = mset (map row_id ?C)"
    by (simp add: o_def ret multiset.map_comp flip: mset_map)
       (simp add: ret multiset.map_comp o_def)
  then have set_ids: "set (handed_ids ?ds) = row_id ` set ?C"
    by (metis set_map set_mset_mset)
  have "set (returning returned) = claim_row owner (ts t) ` set ?C"
    using ret by (metis set_image_mset set_mset_mset)
  moreover have "scan_job (claim_row owner (ts t) r) = scan_job r" for r
    by (simp add: scan_job_def claim_row_def)
  ultimately have jobs: "\<forall>d \<in> set ?ds. \<exists>r \<in> set ?C. DeliveryQueueItemID d = row_id r \<and> QueuedJob d = scan_job r"
    by auto
  have view: "row_view db' i = (if i \<in> set (handed_ids ?ds)
      then map_option (\<lambda>it. it\<lparr>item_status := Claimed\<rparr>) (row_view db i) else row_view db i)" for i
    unfolding set_ids res(2) by (rule row_view_claim_statement [OF st])
  show ?thesis
    using False res(1) ids jobs view not_less [of limit 0]
    by (intro disjI2 conjI exI [of _ ?ds] allI; assumption?) blast
qed

section \<open>Interpretation of the contract\<close>

locale postgres =
  fixes ts :: "time \<Rightarrow> time"
    and returning :: "queue_row list \<Rightarrow> queue_row list"
    and createdAt :: time
  assumes returning_perm: "mset (returning rs) = mset rs"
begin

abbreviation repository :: "queue_db Repository" where
  "repository \<equiv> PostgresRepository ts {} returning no_faults createdAt"

lemma enqueue_call:
  assumes "table_inv q" and "repo_EnqueueDeliveries repository None ev urls t q = (res, q')"
  shows "res = Inr (int (length urls)) \<and> (\<exists>ids. distinct ids \<and> length ids = length urls \<and>
      (\<forall>i \<in> set ids. row_view q i = None) \<and> (\<forall>i. i \<notin> set ids \<longrightarrow> row_view q' i = row_view q i) \<and>
      (\<forall>k < length urls. \<exists>it. row_view q' (ids ! k) = Some it \<and> item_status it = Pending \<and>
         item_available it = ts t \<and> QueueItemID (item_job it) = ids ! k \<and>
         Event (item_job it) = ev\<lparr>OccurredAt := ts (OccurredAt ev)\<rparr> \<and>
         WebhookURL (item_job it) = urls ! k \<and> Attempt (item_job it) = 0))"
proof -
  from assms(2) have "EnqueueDeliveries ts no_faults createdAt None ev urls t q = (res, q')"
    by (simp add: PostgresRepository_def)
  from Enqueue_no_faults [OF assms(1) this] obtain ids where
    res: "res = Inr (int (length urls))" "distinct ids" "length ids = length urls"
      "\<forall>i \<in> set ids. row_view q i = None" "\<forall>i. i \<notin> set ids \<longrightarrow> row_view q' i = row_view q i"
    and new: "\<forall>k < length urls. row_view q' (ids ! k) =
      Some (row_item (new_row ts ev t createdAt (ids ! k) (urls ! k)))" by blast
  show ?thesis
    by (intro conjI exI [of _ ids] res) (use new in \<open>simp add: new_row_def scan_job_def\<close>)
qed

lemma claim_call:
  assumes "table_inv db" and "repo_ClaimAvailableDeliveries repository None owner limit t db = (res, db')"
  shows "limit < 0 \<and> db' = db \<and> (\<exists>e. res = Inl e) \<or>
    0 \<le> limit \<and> (\<exists>ds. res = Inr ds \<and>
      mset (handed_ids ds) = mset (map row_id (candidate_rows {} limit (ts t) (rows db))) \<and>
      (\<forall>d \<in> set ds. \<exists>r \<in> set (candidate_rows {} limit (ts t) (rows db)).
         DeliveryQueueItemID d = row_id r \<and> QueuedJob d = scan_job r) \<and>
      (\<forall>i. row_view db' i = (if i \<in> set (handed_ids ds)
         then map_option (\<lambda>it. it\<lparr>item_status := Claimed\<rparr>) (row_view db i) else row_view db i)))"
  using Claim_no_faults [OF assms(1) returning_perm] assms(2) by (simp add: PostgresRepository_def)

lemma candidate_ids_view:
  assumes inv: "table_inv db" and "r \<in> set (candidate_rows {} limit t (rows db))"
  shows "row_view db (row_id r) = Some (row_item r) \<and> status r = Pending \<and> available_at r \<le> t"
  using assms set_candidate_rows [of "{}" limit t "rows db"] row_view_Some_iff [OF inv]
  by (auto simp: due_def)

lemma candidates_exhaust:
  assumes inv: "table_inv db" and "int (length (candidate_rows {} limit t (rows db))) < limit"
    and "row_view db i = Some it" and "item_status it = Pending" and "item_available it \<le> t"
  shows "i \<in> row_id ` set (candidate_rows {} limit t (rows db))"
proof -
  have "length (filter (due {} t) (rows db)) \<le> nat limit"
    using assms(2) by (auto simp: length_candidate_rows min_def split: if_splits)
  then have "set (candidate_rows {} limit t (rows db)) = set (filter (due {} t) (rows db))"
    by (simp add: candidate_rows_due)
  moreover obtain r where "r \<in> set (rows db)" "row_id r = i" "it = row_item r"
    using assms(3) row_view_Some_iff [OF inv] by blast
  ultimately show ?thesis using assms(4,5) by (auto simp: due_def)
qed

end

sublocale postgres \<subseteq> work_queue repository table_inv row_view ts "\<lambda>n. if n < max_int4 then Some (n + 1) else None"
proof unfold_locales
  fix q op
  assume "table_inv q"
  then show "table_inv (snd (run_repo_op repository op q))" by (rule table_inv_run_op)
next
  fix q ev urls t res q'
  assume "table_inv q" and "repo_EnqueueDeliveries repository None ev urls t q = (res, q')"
  then show "res = Inr (int (length urls)) \<and> (\<exists>ids. distinct ids \<and> length ids = length urls \<and>
      (\<forall>i \<in> set ids. row_view q i = None) \<and> (\<forall>i. i \<notin> set ids \<longrightarrow> row_view q' i = row_view q i) \<and>
      (\<forall>k < length urls. \<exists>it. row_view q' (ids ! k) = Some it \<and> item_status it = Pending \<and>
         item_available it = ts t \<and> QueueItemID (item_job it) = ids ! k \<and>
         Event (item_job it) = ev\<lparr>OccurredAt := ts (OccurredAt ev)\<rparr> \<and>
         WebhookURL (item_job it) = urls ! k \<and> Attempt (item_job it) = 0))"
    by (rule enqueue_call)
next
  fix q owner limit t e q'
  assume "table_inv q" and "repo_ClaimAvailableDeliveries repository None owner limit t q = (Inl e, q')"
  then show "limit < 0 \<and> row_view q' = row_view q" using claim_call by fastforce
next
  fix q owner limit t ds q' i
  assume "table_inv q" and "repo_ClaimAvailableDeliveries repository None owner limit t q = (Inr ds, q')"
  then show "row_view q' i = (if i \<in> set (handed_ids ds)
      then map_option (\<lambda>it. it\<lparr>item_status := Claimed\<rparr>) (row_view q i) else row_view q i)"
    using claim_call by blast
next
  fix q owner limit t ds q'
  assume inv: "table_inv q" and call: "repo_ClaimAvailableDeliveries repository None owner limit t q = (Inr ds, q')"
  let ?C = "candidate_rows {} limit (ts t) (rows q)"
  have ids: "mset (handed_ids ds) = mset (map row_id ?C)"
    and jobs: "\<forall>d \<in> set ds. \<exists>r \<in> set ?C. DeliveryQueueItemID d = row_id r \<and> QueuedJob d = scan_job r"
    using claim_call [OF inv call] by auto
  have "distinct (map row_id ?C)"
    using distinct_candidate_ids [of "rows q"] inv by (simp add: table_inv_def)
  then show "distinct (handed_ids ds) \<and> (\<forall>d \<in> set ds. \<exists>it. row_view q (DeliveryQueueItemID d) = Some it \<and>
      item_status it = Pending \<and> item_available it \<le> ts t \<and> QueuedJob d = item_job it)"
    using mset_eq_imp_distinct_iff [OF ids] jobs candidate_ids_view [OF inv, of _ limit "ts t"]
    by fastforce
  show "int (length ds) \<le> limit \<and> (int (length ds) < limit \<longrightarrow>
      (\<forall>i it. row_view q i = Some it \<and> item_status it = Pending \<and> item_available it \<le> ts t \<longrightarrow>
         i \<in> set (handed_ids ds)))" if "0 < limit"
  proof -
    have len: "length ds = length ?C" using mset_eq_length [OF ids] by simp
    have "set (handed_ids ds) = row_id ` set ?C" using mset_eq_setD [OF ids] by simp
    then show ?thesis
      using candidates_exhaust [OF inv, of limit "ts t"] len that
      by (auto simp: length_candidate_rows simp del: set_map)
  qed
next
  fix q i t
  assume "table_inv q"
  from mark_view [OF this, where legal = "\<lambda>_. True" and keeps = "\<lambda>_. True"]
  show "row_view (snd (repo_MarkDelivered repository None i t q)) =
      (row_view q)(i := map_option (\<lambda>it. it\<lparr>item_status := Completed\<rparr>) (row_view q i))"
    by (simp add: PostgresRepository_def MarkDelivered_def row_item_updates(2))
next
  fix q i msg t u
  assume "table_inv q"
  from mark_view [OF this, where legal = "\<lambda>r. retry_count r < max_int4"
      and keeps = "\<lambda>it. Attempt (item_job it) < max_int4"
      and g = "\<lambda>it. it\<lparr>item_status := Pending, item_available := ts t,
        item_job := (item_job it)\<lparr>Attempt := Attempt (item_job it) + 1, LastError := msg\<rparr>\<rparr>"
      and update = "retry_row msg (ts t) (ts u)" and i = i]
  show "row_view (snd (repo_MarkRetryPending repository None i msg t u q)) =
      (row_view q)(i := map_option (\<lambda>it.
        case if Attempt (item_job it) < max_int4 then Some (Attempt (item_job it) + 1) else None of
          None \<Rightarrow> it
        | Some n \<Rightarrow> it\<lparr>item_status := Pending, item_available := ts t,
               item_job := (item_job it)\<lparr>Attempt := n, LastError := msg\<rparr>\<rparr>) (row_view q i))"
    by (auto simp: PostgresRepository_def MarkRetryPending_def row_item_updates(3) option.map_comp
        intro!: arg_cong [where f = "(fun_upd (row_view q) i)"] option.map_cong)
next
  fix q i msg t
  assume "table_inv q"
  from mark_view [OF this, where legal = "\<lambda>_. True" and keeps = "\<lambda>_. True"]
  show "row_view (snd (repo_MarkDeadLetter repository None i msg t q)) =
      (row_view q)(i := map_option (\<lambda>it. it\<lparr>item_status := DeadLettered,
               item_job := (item_job it)\<lparr>LastError := msg\<rparr>\<rparr>) (row_view q i))"
    by (simp add: PostgresRepository_def MarkDeadLetter_def row_item_updates(4))
qed

end
