(* ===== verification/WorkQueue_Correct.thy ===== *)
theory WorkQueue_Correct
  imports WorkQueue_Laws
begin

text \<open>
  The properties of the PostgreSQL queue: the invariant of every table the operations can reach,
  with faults at any point; enqueueing as one transaction; which rows a claim takes; that a row is
  handed out once until it is put back; the outcome of the three marks; the two snapshots.
\<close>

section \<open>Reachable tables\<close>

text \<open>
  Tables that come from a new schema by calls of any process, each with its own faults, locks,
  clock and order of returned rows.
\<close>

inductive queue_reachable :: "(time \<Rightarrow> time) \<Rightarrow> queue_db \<Rightarrow> bool" for ts where
  reach_schema: "EnsureSchema faults ctx None = (None, Some db) \<Longrightarrow> queue_reachable ts db"
| reach_enqueue: "queue_reachable ts db \<Longrightarrow>
    EnqueueDeliveries ts faults now ctx ev urls t db = (res, db') \<Longrightarrow> queue_reachable ts db'"
| reach_claim: "queue_reachable ts db \<Longrightarrow>
    ClaimAvailableDeliveries ts locked returning faults ctx owner limit t db = (res, db') \<Longrightarrow>
    queue_reachable ts db'"
| reach_delivered: "queue_reachable ts db \<Longrightarrow> MarkDelivered ts faults ctx i t db = (e, db') \<Longrightarrow>
    queue_reachable ts db'"
| reach_retry: "queue_reachable ts db \<Longrightarrow> MarkRetryPending ts faults ctx i msg t u db = (e, db') \<Longrightarrow>
    queue_reachable ts db'"
| reach_dead: "queue_reachable ts db \<Longrightarrow> MarkDeadLetter ts faults ctx i msg t db = (e, db') \<Longrightarrow>
    queue_reachable ts db'"

lemma reachable_table_inv: "queue_reachable ts db \<Longrightarrow> table_inv db"
proof (induction rule: queue_reachable.induct)
  case (reach_schema faults ctx db)
  then show ?case by (auto simp: EnsureSchema_def table_inv_def split: option.splits)
qed (auto intro: table_inv_ops)

definition empty_queue :: queue_db where
  "empty_queue = \<lparr>rows = [], next_id = 1\<rparr>"

lemma empty_queue_reachable: "queue_reachable ts empty_queue"
  by (rule reach_schema [of no_faults None]) (simp add: EnsureSchema_def empty_queue_def)

text \<open>A queue with two pending rows.\<close>

definition two_rows :: queue_db where
  "two_rows = snd (EnqueueDeliveries id no_faults 5 None (sample_event ''e1'' ''acme'') [''http://a'', ''http://b''] 7 empty_queue)"

lemma two_rows_reachable: "queue_reachable id two_rows"
  unfolding two_rows_def by (rule reach_enqueue [OF empty_queue_reachable surjective_pairing])

lemma two_rows_eval:
  "two_rows = \<lparr>rows = [new_row id (sample_event ''e1'' ''acme'') 7 5 1 ''http://a'', new_row id (sample_event ''e1'' ''acme'') 7 5 2 ''http://b''], next_id = 3\<rparr>"
  by (simp add: two_rows_def EnqueueDeliveries_def insert_row_def commit_def empty_queue_def)

text \<open>
  C23. Whatever sequence of queue operations processes perform, and wherever each of them fails, the
  table keeps its shape: ids are unique and below the sequence, a row has a claimant exactly while
  its claim matters (none while pending, one while claimed), a completed or dead-lettered row has
  its date, and no retry count leaves its column.
\<close>

theorem reachable_queue_invariant:
  assumes "queue_reachable ts db"
  shows "distinct (map row_id (rows db)) \<and> (\<forall>r \<in> set (rows db). row_id r < next_id db \<and>
    0 \<le> retry_count r \<and> retry_count r \<le> max_int4 \<and>
    (status r = Pending \<longrightarrow> claimed_at r = None \<and> claim_owner r = None) \<and>
    (status r = Claimed \<longrightarrow> claimed_at r \<noteq> None \<and> claim_owner r \<noteq> None) \<and>
    (status r = Completed \<longrightarrow> completed_at r \<noteq> None) \<and>
    (status r = DeadLettered \<longrightarrow> dead_lettered_at r \<noteq> None \<and> last_error r \<noteq> None))"
  using reachable_table_inv [OF assms] by (simp add: table_inv_def row_inv_def)

theorem reachable_queue_invariant_witness:
  "distinct (map row_id (rows two_rows)) \<and> row_id (hd (rows two_rows)) < 3 \<and> claim_owner (hd (rows two_rows)) = None"
  using reachable_queue_invariant [OF two_rows_reachable] by (simp add: two_rows_eval new_row_def)

section \<open>Enqueue\<close>

lemma insert_rows_None:
  "insert_rows ts faults k ev urls t u db = (None, tx) \<Longrightarrow>
    rows tx = rows db @ map2 (new_row ts ev t u) [next_id db .. next_id db + int (length urls) - 1] urls"
proof (induction ts faults k ev urls t u db rule: insert_rows.induct)
  case (2 ts faults k ev url urls t u db)
  have "[next_id db .. next_id db + int (length (url # urls)) - 1] =
      next_id db # [next_id db + 1 .. next_id db + 1 + int (length urls) - 1]"
    by (subst upto_rec1) (simp_all add: algebra_simps)
  with 2 show ?case by (auto simp: insert_row_def algebra_simps split: option.splits)
qed simp

text \<open>
  C22. Enqueueing is one transaction, whatever fails inside it: a call that reports success has added
  exactly one pending row per webhook URL, in order, under consecutive new ids, and returns their
  number; a call that reports an error has added no row, unless the server carried out the commit
  whose acknowledgement was lost, in which case all of them are there.
\<close>

theorem enqueue_is_atomic:
  "case EnqueueDeliveries ts faults now ctx ev urls t db of
     (Inr n, db') \<Rightarrow> n = int (length urls) \<and>
        rows db' = rows db @ map2 (new_row ts ev t now) [next_id db .. next_id db + n - 1] urls
   | (Inl e, db') \<Rightarrow> rows db' = rows db \<or>
        (\<exists>e'. commit_fault faults = Some (e', True)) \<and>
        rows db' = rows db @ map2 (new_row ts ev t now) [next_id db .. next_id db + int (length urls) - 1] urls"
  by (auto simp: EnqueueDeliveries_def commit_def rollback_def insert_rows_None
      split: option.splits prod.splits bool.splits)

section \<open>Claim\<close>

lemma scan_rows_Inr:
  "scan_rows faults k rs = Inr ds \<Longrightarrow>
    ds = map (\<lambda>r. \<lparr>DeliveryQueueItemID = row_id r, QueuedJob = scan_job r\<rparr>) rs"
proof (induction faults k rs arbitrary: ds rule: scan_rows.induct)
  case (2 faults k r rs)
  then show ?case by (cases "scan_rows faults (Suc k) rs") (auto split: option.splits)
qed (simp split: option.splits)

lemma Claim_Inr:
  assumes inv: "table_inv db" and perm: "\<And>rs. mset (returning rs) = mset rs"
    and call: "ClaimAvailableDeliveries ts locked returning faults ctx owner limit t db = (Inr ds, db')"
  shows "mset ds = image_mset (\<lambda>r. \<lparr>DeliveryQueueItemID = row_id r, QueuedJob = scan_job r\<rparr>)
      (mset (candidate_rows locked limit (ts t) (rows db)))"
    and "db' = fst (claim_statement locked owner limit (ts t) db)" and "0 \<le> limit"
proof -
  obtain tx returned where st: "claim_statement locked owner limit (ts t) db = (tx, returned)" by fastforce
  have "scan_rows faults 0 (returning returned) = Inr ds \<and> db' = tx \<and> 0 \<le> limit"
    using call by (auto simp: ClaimAvailableDeliveries_def st commit_def split: option.splits sum.splits if_splits)
  moreover have "mset (returning returned) =
      image_mset (claim_row owner (ts t)) (mset (candidate_rows locked limit (ts t) (rows db)))"
    using claim_statement_rows [of db locked owner limit "ts t"] inv by (simp add: st perm table_inv_def)
  moreover have "scan_job (claim_row owner (ts t) r) = scan_job r" for r
    by (simp add: scan_job_def claim_row_def)
  ultimately show "mset ds = image_mset (\<lambda>r. \<lparr>DeliveryQueueItemID = row_id r, QueuedJob = scan_job r\<rparr>)
      (mset (candidate_rows locked limit (ts t) (rows db)))"
    "db' = fst (claim_statement locked owner limit (ts t) db)" "0 \<le> limit"
    by (auto simp: st multiset.map_comp o_def dest!: scan_rows_Inr)
qed

text \<open>No row left behind has a smaller key than a row that was taken.\<close>

lemma candidate_rows_earliest:
  assumes "r \<in> set (candidate_rows locked limit t table)" and "r' \<in> set table" and "due locked t r'"
    and "r' \<notin> set (candidate_rows locked limit t table)"
  shows "claim_key r \<le> claim_key r'"
proof -
  let ?s = "sort_key claim_key (filter (due locked t) table)"
  have "r' \<in> set ?s" using assms(2,3) by simp
  then have "r' \<in> set (take (nat limit) ?s @ drop (nat limit) ?s)" by (simp only: append_take_drop_id)
  then have "r' \<in> set (drop (nat limit) ?s)"
    using assms(4) unfolding set_append candidate_rows_due by blast
  moreover have "sorted (map claim_key (take (nat limit) ?s) @ map claim_key (drop (nat limit) ?s))"
    by (metis append_take_drop_id map_append sorted_sort_key)
  ultimately show ?thesis using assms(1) by (auto simp: candidate_rows_due sorted_append)
qed

text \<open>
  C20. A successful claim hands out exactly the rows it has to, in any order the server returns them:
  distinct pending rows that are due and not locked by another transaction, the earliest
  (\<open>available_at\<close>, then \<open>id\<close>) first, as many as there are up to the limit, each with the job read
  from its row. It marks those rows claimed and changes no other row, also when several processes
  claim concurrently (\<open>locked\<close> being the rows the others hold).
\<close>

theorem claim_takes_earliest_due_rows:
  assumes "queue_reachable ts db" and "\<And>rs. mset (returning rs) = mset rs"
    and "ClaimAvailableDeliveries ts locked returning faults ctx owner limit t db = (Inr ds, db')"
  shows "distinct (handed_ids ds) \<and>
    length ds = min (nat limit) (length (filter (due locked (ts t)) (rows db))) \<and>
    (\<forall>d \<in> set ds. \<exists>r \<in> set (rows db). due locked (ts t) r \<and>
       DeliveryQueueItemID d = row_id r \<and> QueuedJob d = scan_job r) \<and>
    (\<forall>r \<in> set (rows db). \<forall>r' \<in> set (rows db). row_id r \<in> set (handed_ids ds) \<and>
       row_id r' \<notin> set (handed_ids ds) \<and> due locked (ts t) r' \<longrightarrow> claim_key r < claim_key r') \<and>
    rows db' = map (\<lambda>r. if row_id r \<in> set (handed_ids ds) then claim_row owner (ts t) r else r) (rows db)"
proof -
  let ?C = "candidate_rows locked limit (ts t) (rows db)"
  note inv = reachable_table_inv [OF assms(1)]
  note claim = Claim_Inr [OF inv assms(2,3)]
  have ids: "mset (handed_ids ds) = mset (map row_id ?C)"
    by (simp add: claim(1) multiset.map_comp o_def)
  have C: "set ?C \<subseteq> {r \<in> set (rows db). due locked (ts t) r}" by (rule set_candidate_rows)
  have inj: "r = r'" if "r \<in> set (rows db)" "r' \<in> set (rows db)" "row_id r = row_id r'" for r r'
    using that inv by (auto simp: table_inv_def distinct_map inj_on_def)
  have set_ids: "set (handed_ids ds) = row_id ` set ?C" using mset_eq_setD [OF ids] by simp
  have ds: "set ds = (\<lambda>r. \<lparr>DeliveryQueueItemID = row_id r, QueuedJob = scan_job r\<rparr>) ` set ?C"
    using claim(1) by (metis set_image_mset set_mset_mset)
  have "distinct (handed_ids ds)"
    using mset_eq_imp_distinct_iff [OF ids] distinct_candidate_ids inv by (simp add: table_inv_def)
  moreover have "length ds = length ?C" using mset_eq_length [OF ids] by simp
  moreover have "claim_key r < claim_key r'"
    if r: "r \<in> set (rows db)" "r' \<in> set (rows db)" "row_id r \<in> row_id ` set ?C"
      "row_id r' \<notin> row_id ` set ?C" "due locked (ts t) r'" for r r'
  proof -
    have "r \<in> set ?C" using r(1,3) C inj by blast
    then have "claim_key r \<le> claim_key r'" using candidate_rows_earliest r(2,4,5) by blast
    moreover have "row_id r \<noteq> row_id r'" using r(3,4) by metis
    ultimately show ?thesis by (auto simp: claim_key_def)
  qed
  moreover have "rows db' = map (\<lambda>r. if row_id r \<in> row_id ` set ?C then claim_row owner (ts t) r else r) (rows db)"
    by (simp add: claim(2) claim_statement_def Let_def)
  ultimately show ?thesis
    unfolding set_ids using C by (auto simp: ds length_candidate_rows)
qed

theorem claim_takes_earliest_due_rows_witness:
  "rows (snd (ClaimAvailableDeliveries id {2} rev no_faults None ''n1'' 5 9 two_rows)) =
    [claim_row ''n1'' 9 (new_row id (sample_event ''e1'' ''acme'') 7 5 1 ''http://a''),
     new_row id (sample_event ''e1'' ''acme'') 7 5 2 ''http://b'']"
proof -
  let ?r = "new_row id (sample_event ''e1'' ''acme'') 7 5 1 ''http://a''"
  have "candidate_rows {2} 5 9 (rows two_rows) = [?r]"
    by (simp add: candidate_rows_def two_rows_eval new_row_def)
  then have call: "ClaimAvailableDeliveries id {2} rev no_faults None ''n1'' 5 9 two_rows =
      (Inr [\<lparr>DeliveryQueueItemID = 1, QueuedJob = scan_job ?r\<rparr>],
       snd (ClaimAvailableDeliveries id {2} rev no_faults None ''n1'' 5 9 two_rows))"
    by (simp add: ClaimAvailableDeliveries_def claim_statement_def Let_def commit_def two_rows_eval
        new_row_def claim_row_def scan_job_def)
  show ?thesis
    using claim_takes_earliest_due_rows [OF two_rows_reachable _ call] by (simp add: two_rows_eval new_row_def)
qed

section \<open>Handing out\<close>

context postgres
begin

lemma pg_unmarked_run:
  "table_inv db \<Longrightarrow> row_view db i = Some it \<Longrightarrow> item_status it \<noteq> Pending \<Longrightarrow>
    \<forall>op \<in> set ops. marked_id op \<noteq> Some i \<Longrightarrow> run_repo repository ops db = (ds, db') \<Longrightarrow>
    row_view db' i = Some it \<and> i \<notin> set (handed_ids ds)"
  by (rule unmarked_run)

lemma pg_handed_out_once:
  "table_inv db \<Longrightarrow> \<forall>op \<in> set ops. \<not> is_retry op \<Longrightarrow> run_repo repository ops db = (ds, db') \<Longrightarrow>
    distinct (handed_ids ds)"
  by (rule handed_out_once)

end

text \<open>The instance with the microseconds of \<open>TIMESTAMPTZ\<close> and rows returned in table order.\<close>

definition microseconds :: "time \<Rightarrow> time" where
  "microseconds t = t div 1000 * 1000"

interpretation pg: postgres microseconds id createdAt for createdAt
  by unfold_locales simp

text \<open>
  C21. A row that is claimed, completed or dead-lettered stays as it is and is never handed out by any
  sequence of enqueues, claims and marks of other rows that meet no fault and no locked row, whoever
  makes the calls and however late: no two claims deliver the same attempt. (The same fact says that a row whose claimant disappears
  stays claimed for ever: no operation of the queue gives it back.)
\<close>

theorem claimed_row_is_never_handed_out_again:
  assumes "queue_reachable ts db" and "\<And>rs. mset (returning rs) = mset rs"
    and "r \<in> set (rows db)" and "status r \<noteq> Pending" and "\<forall>op \<in> set ops. marked_id op \<noteq> Some (row_id r)"
    and "run_repo (PostgresRepository ts {} returning no_faults now) ops db = (ds, db')"
  shows "row_id r \<notin> set (handed_ids ds) \<and> row_view db' (row_id r) = Some (row_item r)"
proof -
  note inv = reachable_table_inv [OF assms(1)]
  have "row_view db (row_id r) = Some (row_item r)" using row_view_Some_iff [OF inv] assms(3) by blast
  then show ?thesis
    using postgres.pg_unmarked_run [OF postgres.intro [OF assms(2)] inv _ _ assms(5,6)] assms(4) by simp
qed

theorem claimed_row_is_never_handed_out_again_witness:
  "1 \<notin> set (handed_ids (fst (run_repo (PostgresRepository id {} id no_faults 0)
     [RepoClaim ''n2'' 5 20, RepoDelivered 2 30, RepoClaim ''n2'' 5 40]
     (snd (ClaimAvailableDeliveries id {} id no_faults None ''n1'' 1 9 two_rows)))))"
proof -
  let ?db = "snd (ClaimAvailableDeliveries id {} id no_faults None ''n1'' 1 9 two_rows)"
  let ?r = "claim_row ''n1'' 9 (new_row id (sample_event ''e1'' ''acme'') 7 5 1 ''http://a'')"
  let ?ops = "[RepoClaim ''n2'' 5 20, RepoDelivered 2 30, RepoClaim ''n2'' 5 40]"
  have reach: "queue_reachable id ?db" by (rule reach_claim [OF two_rows_reachable surjective_pairing])
  have rows: "rows ?db = [?r, new_row id (sample_event ''e1'' ''acme'') 7 5 2 ''http://b'']"
    by (simp add: ClaimAvailableDeliveries_def claim_statement_def candidate_rows_def claim_key_def Let_def
        commit_def two_rows_eval new_row_def scan_rows_no_faults)
  then have "?r \<in> set (rows ?db)" "status ?r \<noteq> Pending" "\<forall>op \<in> set ?ops. marked_id op \<noteq> Some (row_id ?r)"
    by (simp_all add: new_row_def)
  from claimed_row_is_never_handed_out_again [OF reach _ this surjective_pairing, of id 0]
  show ?thesis by (simp add: new_row_def del: run_repo.simps)
qed

text \<open>
  While nobody schedules a retry, no queue item is handed out twice by a whole sequence of calls:
  the claims of all notifier instances together deliver each queued item at most once.
\<close>

lemma each_item_handed_out_at_most_once:
  assumes "queue_reachable ts db" and "\<And>rs. mset (returning rs) = mset rs"
    and "\<forall>op \<in> set ops. \<not> is_retry op"
    and "run_repo (PostgresRepository ts {} returning no_faults now) ops db = (ds, db')"
  shows "distinct (handed_ids ds)"
  by (rule postgres.pg_handed_out_once [OF postgres.intro [OF assms(2)] reachable_table_inv [OF assms(1)] assms(3,4)])

section \<open>Marks\<close>

text \<open>
  What a mark promises, whatever happens to its statement: it changes at most the row it names, and
  only to what it says; success means that the row was there and has been changed; without a fault
  a row that is there is marked; a call whose context has ended does nothing. (An error does not
  mean that nothing has changed: the statement may have been carried out although the answer was
  lost.)
\<close>

definition marks_row :: "db_faults \<Rightarrow> go_context \<Rightarrow> (queue_row \<Rightarrow> bool) \<Rightarrow> (queue_row \<Rightarrow> queue_row) \<Rightarrow> go_int \<Rightarrow> queue_db \<Rightarrow>
    go_error option \<times> queue_db \<Rightarrow> bool" where
  "marks_row faults ctx legal update i db res \<longleftrightarrow>
    (let markable = \<exists>r \<in> set (rows db). row_id r = i \<and> legal r;
         marked = map (\<lambda>r. if row_id r = i then update r else r) (rows db)
     in (rows (snd res) = rows db \<or> markable \<and> rows (snd res) = marked) \<and>
        (fst res = None \<longrightarrow> markable \<and> rows (snd res) = marked) \<and>
        (ctx = None \<and> exec_fault faults = None \<and> affected_fault faults = None \<longrightarrow>
           (if markable then fst res = None else rows (snd res) = rows db)) \<and>
        (ctx \<noteq> None \<longrightarrow> fst res \<noteq> None \<and> rows (snd res) = rows db))"

lemma updateQueueItem_marks_row:
  assumes "table_inv db"
  shows "marks_row faults ctx legal update i db (updateQueueItem faults ctx legal update i db)"
proof -
  have one: "length (filter (\<lambda>r. row_id r = i) (rows db)) = (if i \<in> row_id ` set (rows db) then 1 else 0)"
    using assms length_filter_key [of row_id "rows db" i] by (simp add: table_inv_def)
  have uniq: "r = r'" if "r \<in> set (rows db)" "r' \<in> set (rows db)" "row_id r = i" "row_id r' = i" for r r'
    using that assms by (auto simp: table_inv_def distinct_map inj_on_def)
  consider (missing) "i \<notin> row_id ` set (rows db)"
    | (row) r where "r \<in> set (rows db)" "row_id r = i" by blast
  then show ?thesis
  proof cases
    case missing
    then have "map (\<lambda>r. if row_id r = i then update r else r) (rows db) = rows db" by (auto intro!: map_idI)
    then show ?thesis
      using missing one by (auto simp: marks_row_def updateQueueItem_def context_fault_def Let_def split: option.split)
  next
    case row
    then have "i \<in> row_id ` set (rows db)" by blast
    moreover from row have "(\<forall>r \<in> set (rows db). row_id r = i \<longrightarrow> legal r) \<longleftrightarrow> legal r"
      "(\<exists>r \<in> set (rows db). row_id r = i \<and> legal r) \<longleftrightarrow> legal r" using uniq by blast+
    ultimately show ?thesis
      using one by (auto simp: marks_row_def updateQueueItem_def context_fault_def Let_def split: option.split)
  qed
qed

text \<open>
  C24. On a reachable table, and whatever fault the database reports, a mark changes at most the row it
  names: to completed; to pending with one more retry, the new due time, the reason and no claimant
  (if its retry count still fits the column); to dead-lettered with the reason. A mark that reports
  success has made this change; without a fault it succeeds exactly when the row can be marked and a
  failure changes nothing; with a context that has ended it fails and changes nothing. After another
  fault the row may have been changed although an error is reported.
\<close>

theorem marks_change_one_row:
  assumes "queue_reachable ts db"
  shows "marks_row faults ctx (\<lambda>_. True) (complete_row (ts t)) i db (MarkDelivered ts faults ctx i t db) \<and>
    marks_row faults ctx (\<lambda>r. retry_count r < max_int4) (retry_row msg (ts t) (ts u)) i db
      (MarkRetryPending ts faults ctx i msg t u db) \<and>
    marks_row faults ctx (\<lambda>_. True) (dead_row msg (ts t)) i db (MarkDeadLetter ts faults ctx i msg t db)"
  using updateQueueItem_marks_row [OF reachable_table_inv [OF assms]]
  by (simp add: MarkDelivered_def MarkRetryPending_def MarkDeadLetter_def)

theorem marks_change_one_row_witness:
  "map status (rows (snd (MarkDelivered id no_faults None 2 9 two_rows))) = [Pending, Completed] \<and>
   rows (snd (MarkDeadLetter id no_faults (Some Canceled) 2 ''late'' 9 two_rows)) = rows two_rows"
proof -
  note mark = marks_change_one_row [OF two_rows_reachable, of no_faults]
  show ?thesis
    using mark [of None 9 2 "[]" 9] mark [of "Some Canceled" 9 2 "''late''" 9]
    by (auto simp: marks_row_def two_rows_eval new_row_def complete_row_def Let_def)
qed

section \<open>Snapshots\<close>

definition dead_message :: "queue_row \<Rightarrow> DeadLetterMessage" where
  "dead_message r = \<lparr>DeadJob = (scan_job r)\<lparr>QueueItemID := 0, LastError := []\<rparr>,
     DeadFailureReason = the (last_error r), ExhaustedAt = the (dead_lettered_at r)\<rparr>"

lemma scan_dead_letters_no_faults:
  "\<forall>r \<in> set rs. dead_lettered_at r \<noteq> None \<and> last_error r \<noteq> None \<Longrightarrow>
    scan_dead_letters no_faults k rs = Inr (map dead_message rs)"
  by (induction no_faults k rs rule: scan_dead_letters.induct) (auto simp: dead_message_def scan_job_def)

text \<open>
  C25. Without a fault of the database, the dead-letter snapshot of a reachable table never fails on a
  missing date and lists every dead-lettered row exactly once, latest first, with its job and the reason of its last failure;
  the queue snapshot counts the pending rows and reports the creation of the oldest one, or the
  zero time when there is none.
\<close>

theorem snapshots_are_faithful:
  assumes "queue_reachable ts db"
  shows "(\<exists>rs. SnapshotDeadLetters no_faults None db = Inr (map dead_message rs) \<and>
       mset rs = mset (filter (\<lambda>r. status r = DeadLettered) (rows db)) \<and>
       sorted_wrt (\<lambda>r r'. the (dead_lettered_at r') \<le> the (dead_lettered_at r)) rs) \<and>
    (\<exists>n oldest. SnapshotQueueState no_faults None db =
         Inr \<lparr>PendingDeliveryCount = n, OldestPendingCreatedAt = oldest\<rparr> \<and>
       n = int (card {r \<in> set (rows db). status r = Pending}) \<and>
       (n = 0 \<and> time_IsZero oldest \<or>
        (\<exists>r \<in> set (rows db). status r = Pending \<and> created_at r = oldest) \<and>
        (\<forall>r \<in> set (rows db). status r = Pending \<longrightarrow> oldest \<le> created_at r)))"
proof -
  note inv = reachable_table_inv [OF assms]
  let ?dead = "filter (\<lambda>r. status r = DeadLettered) (rows db)"
  let ?rs = "sort_key dead_letter_key ?dead"
  let ?pending = "filter (\<lambda>r. status r = Pending) (rows db)"
  have dated: "dead_lettered_at r \<noteq> None \<and> last_error r \<noteq> None" if "r \<in> set ?rs" for r
    using that inv by (auto simp: table_inv_def row_inv_def)
  have "sorted_wrt (\<lambda>r r'. dead_letter_key r \<le> dead_letter_key r') ?rs"
    using sorted_sort_key [of dead_letter_key ?dead] by (simp add: sorted_wrt_map)
  then have "sorted_wrt (\<lambda>r r'. the (dead_lettered_at r') \<le> the (dead_lettered_at r)) ?rs"
    by (rule sorted_wrt_mono_rel [rotated]) (use dated in \<open>fastforce simp: dead_letter_key_def split: option.splits\<close>)
  moreover have "SnapshotDeadLetters no_faults None db = Inr (map dead_message ?rs)"
    using dated by (simp add: SnapshotDeadLetters_def scan_dead_letters_no_faults)
  moreover have "length ?pending = card {r \<in> set (rows db). status r = Pending}"
    using inv distinct_card [of ?pending] by (simp add: table_inv_def distinct_map)
  moreover have "Min (created_at ` set ?pending) \<in> created_at ` set ?pending \<and>
    (\<forall>r \<in> set ?pending. Min (created_at ` set ?pending) \<le> created_at r)" if "?pending \<noteq> []"
    using that Min_in [of "created_at ` set ?pending"] by (simp del: set_filter)
  ultimately show ?thesis
    by (cases "?pending = []")
       (fastforce simp: SnapshotQueueState_def Let_def time_IsZero_def, fastforce simp: SnapshotQueueState_def Let_def)
qed

theorem snapshots_are_faithful_witness:
  "SnapshotQueueState no_faults None two_rows = Inr \<lparr>PendingDeliveryCount = 2, OldestPendingCreatedAt = 5\<rparr>"
  using snapshots_are_faithful [OF two_rows_reachable] by (auto simp: two_rows_eval new_row_def SnapshotQueueState_def)

end
