(* ===== verification/Runtime_Postgres.thy ===== *)
theory Runtime_Postgres
  imports Runtime_Safety WorkQueue_Correct
begin

text \<open>
  The PostgreSQL queue meets the contracts of the running system. Each call of an instance is made
  with its own locks, clock, order of returned rows and faults (\<open>postgres_repos\<close>); what a call can do
  to the table, whatever fails in it, gives the laws of \<open>shared_queue\<close>. Without faults
  (\<open>faultless_repos\<close>) the laws of \<open>reliable_queue\<close> hold as well.
\<close>

definition postgres_repos :: "(time \<Rightarrow> time) \<Rightarrow> queue_db Repository set" where
  "postgres_repos ts = {repo. \<exists>locked returning faults now. (\<forall>rs. mset (returning rs) = mset rs) \<and>
     repo = PostgresRepository ts locked returning faults now}"

definition faultless_repos :: "(time \<Rightarrow> time) \<Rightarrow> queue_db Repository set" where
  "faultless_repos ts = {repo. \<exists>locked returning now. (\<forall>rs. mset (returning rs) = mset rs) \<and>
     repo = PostgresRepository ts locked returning no_faults now}"

lemma faultless_postgres: "faultless_repos ts \<subseteq> postgres_repos ts"
  by (auto simp: faultless_repos_def postgres_repos_def)

lemma postgres_claimE:
  assumes "repo \<in> postgres_repos ts" and "repo_ClaimAvailableDeliveries repo ctx owner limit t q = (out, q')"
  obtains locked returning faults where "\<forall>rs. mset (returning rs) = mset rs"
    and "ClaimAvailableDeliveries ts locked returning faults ctx owner limit t q = (out, q')"
proof -
  from assms(1) obtain locked returning faults now where "\<forall>rs. mset (returning rs) = mset rs"
    "repo = PostgresRepository ts locked returning faults now" by (auto simp: postgres_repos_def)
  then show thesis using that [of returning locked faults] assms(2) by (simp add: PostgresRepository_def)
qed

section \<open>What a call can do to the table\<close>

lemma row_view_cong: "rows db' = rows db \<Longrightarrow> row_view db' = row_view db"
  by (simp add: row_view_def)

lemma row_view_one:
  assumes inv: "table_inv db" and r: "r \<in> set (rows db)" "row_id r = i" and "\<And>r. row_id (update r) = row_id r"
  shows "row_view (db\<lparr>rows := map (\<lambda>r. if row_id r = i then update r else r) (rows db)\<rparr>) =
    (row_view db)(i \<mapsto> row_item (update r))"
proof
  fix j
  have one: "r' = r" if "r' \<in> set (rows db)" "row_id r' = i" for r'
    using that r inv by (auto simp: table_inv_def distinct_map inj_on_def)
  have "row_view (db\<lparr>rows := map (\<lambda>r. if row_id r = i then update r else r) (rows db)\<rparr>) j =
      map_option ((\<lambda>j it. if j = i then row_item (update r) else it) j) (row_view db j)"
    by (rule row_view_map) (use one assms(4) in auto)
  moreover have "row_view db i = Some (row_item r)" using row_view_Some_iff [OF inv] r by blast
  ultimately show "row_view (db\<lparr>rows := map (\<lambda>r. if row_id r = i then update r else r) (rows db)\<rparr>) j =
      ((row_view db)(i \<mapsto> row_item (update r))) j"
    by (simp add: option.map_ident)
qed

lemma row_view_none:
  assumes "row_view db i = None"
  shows "db\<lparr>rows := map (\<lambda>r. if row_id r = i then update r else r) (rows db)\<rparr> = db"
proof -
  have "map (\<lambda>r. if row_id r = i then update r else r) (rows db) = rows db"
    by (rule map_idI) (use assms in \<open>auto simp: row_view_None_iff\<close>)
  then show ?thesis by simp
qed

lemma updateQueueItem_cases:
  "updateQueueItem faults ctx legal update i db = (e, db') \<Longrightarrow>
    db' = db \<or> (\<forall>r \<in> set (rows db). row_id r = i \<longrightarrow> legal r) \<and>
      db' = db\<lparr>rows := map (\<lambda>r. if row_id r = i then update r else r) (rows db)\<rparr>"
  by (auto simp: updateQueueItem_def Let_def split: option.splits if_splits prod.splits)

lemma updateQueueItem_marks:
  assumes inv: "table_inv db" and call: "updateQueueItem faults ctx legal update i db = (e, db')"
    and id: "\<And>r. row_id (update r) = row_id r" and R: "\<And>r. legal r \<Longrightarrow> R (row_item r) (row_item (update r))"
  shows "marks (row_view db) i R (row_view db')"
proof (cases "row_view db i")
  case None
  then show ?thesis using updateQueueItem_cases [OF call] row_view_none [OF None] by (auto simp: marks_def)
next
  case (Some it)
  then obtain r where r: "r \<in> set (rows db)" "row_id r = i" "it = row_item r"
    using row_view_Some_iff [OF inv] by blast
  show ?thesis
    using updateQueueItem_cases [OF call] row_view_one [OF inv r(1,2) id] R r Some by (auto simp: marks_def)
qed

lemma Enqueue_rows:
  "EnqueueDeliveries ts faults now ctx ev urls t db = (res, db') \<Longrightarrow>
    rows db' = rows db \<or>
    rows db' = rows db @ map2 (new_row ts ev t now) [next_id db .. next_id db + int (length urls) - 1] urls"
  by (auto simp: EnqueueDeliveries_def commit_def rollback_def insert_rows_None
      split: option.splits prod.splits if_splits)

lemma Enqueue_view:
  assumes "EnqueueDeliveries ts faults now ctx ev urls t db = (res, db')"
  shows "row_view db i = Some it \<Longrightarrow> row_view db' i = Some it"
    and "row_view db i = None \<Longrightarrow> row_view db' i = Some it \<Longrightarrow> item_status it = Pending \<and> Attempt (item_job it) = 0"
proof -
  obtain new where rows: "rows db' = rows db @ new" and new: "\<forall>r \<in> set new. status r = Pending \<and> retry_count r = 0"
  proof (cases "rows db' = rows db")
    case False
    then have "rows db' = rows db @ map2 (new_row ts ev t now) [next_id db .. next_id db + int (length urls) - 1] urls"
      using Enqueue_rows [OF assms] by blast
    then show ?thesis by (rule that) (auto simp: new_row_def)
  qed (use that [of "[]"] in simp)
  have view: "row_view db' i = (case row_view db i of Some it \<Rightarrow> Some it
      | None \<Rightarrow> map_of (map (\<lambda>r. (row_id r, row_item r)) new) i)"
    by (simp add: row_view_def rows map_add_def)
  show "row_view db i = Some it \<Longrightarrow> row_view db' i = Some it" by (simp add: view)
  show "row_view db i = None \<Longrightarrow> row_view db' i = Some it \<Longrightarrow> item_status it = Pending \<and> Attempt (item_job it) = 0"
    using new by (auto simp: view dest!: map_of_SomeD)
qed

lemma candidate_view:
  assumes inv: "table_inv db" and "r \<in> set (candidate_rows locked limit t (rows db))"
  shows "row_view db (row_id r) = Some (row_item r)" and "status r = Pending"
proof -
  have "r \<in> set (rows db)" and "due locked t r" using subsetD [OF set_candidate_rows assms(2)] by auto
  then show "row_view db (row_id r) = Some (row_item r)" "status r = Pending"
    using row_view_Some_iff [OF inv] by (auto simp: due_def)
qed

lemma claim_statement_claims:
  assumes inv: "table_inv db"
  shows "claims (row_view db) (row_id ` set (candidate_rows locked limit t (rows db)))
    (row_view (fst (claim_statement locked owner limit t db)))"
proof -
  have "\<exists>it. row_view db (row_id r) = Some it \<and> item_status it = Pending"
    if "r \<in> set (candidate_rows locked limit t (rows db))" for r
    using candidate_view [OF inv that] by simp
  then show ?thesis
    using row_view_claim_statement [OF prod.collapse [symmetric], of locked owner limit t db]
    by (auto simp: claims_def)
qed

lemma Claim_Inl:
  "ClaimAvailableDeliveries ts locked returning faults ctx owner limit t db = (Inl e, db') \<Longrightarrow>
    rows db' = rows db \<or> (\<exists>e. commit_fault faults = Some (e, True)) \<and>
      db' = fst (claim_statement locked owner limit (ts t) db)"
  by (auto simp: ClaimAvailableDeliveries_def commit_def rollback_def
      split: option.splits sum.splits if_splits prod.splits)

lemma Claim_claims:
  assumes inv: "table_inv db" and perm: "\<And>rs. mset (returning rs) = mset rs"
    and call: "ClaimAvailableDeliveries ts locked returning faults ctx owner limit t db = (out, db')"
  shows "\<exists>ids. claims (row_view db) ids (row_view db') \<and> (\<forall>ds. out = Inr ds \<longrightarrow> hands_out (row_view db) ids ds)"
proof (cases out)
  case (Inl e)
  have "claims (row_view db) {} (row_view db)" by (simp add: claims_def)
  then show ?thesis
    using Claim_Inl [OF call [unfolded Inl]] claim_statement_claims [OF inv] row_view_cong [of db' db] Inl
    by fastforce
next
  case (Inr ds)
  let ?C = "candidate_rows locked limit (ts t) (rows db)"
  note claim = Claim_Inr [OF inv perm call [unfolded Inr]]
  have ids: "mset (handed_ids ds) = mset (map row_id ?C)" by (simp add: claim(1) multiset.map_comp o_def)
  have ds: "set ds = (\<lambda>r. \<lparr>DeliveryQueueItemID = row_id r, QueuedJob = scan_job r\<rparr>) ` set ?C"
    using claim(1) by (metis set_image_mset set_mset_mset)
  have "distinct (handed_ids ds)"
    using mset_eq_imp_distinct_iff [OF ids] distinct_candidate_ids inv by (simp add: table_inv_def)
  moreover have "set (handed_ids ds) = row_id ` set ?C" using mset_eq_setD [OF ids] by simp
  moreover have "\<exists>it. row_view db (row_id r) = Some it \<and> scan_job r = item_job it" if "r \<in> set ?C" for r
    using candidate_view [OF inv that] by simp
  ultimately have "hands_out (row_view db) (row_id ` set ?C) ds" by (auto simp: hands_out_def ds)
  then show ?thesis using claim_statement_claims [OF inv] claim(2) Inr by blast
qed

lemma row_view_job:
  assumes "table_inv db" and "row_view db i = Some it"
  shows "QueueItemID (item_job it) = i \<and> int64 (Attempt (item_job it))"
proof -
  obtain r where "r \<in> set (rows db)" "row_id r = i" "it = row_item r" using row_view_Some_iff assms by blast
  then show ?thesis using assms(1) by (auto simp: table_inv_def row_inv_def int64_def max_int4_def)
qed

section \<open>Interpretation of the contracts\<close>

lemma postgres_shared: "shared_queue (postgres_repos ts) table_inv row_view"
proof
  fix q i it
  assume "table_inv q" and "row_view q i = Some it"
  then show "QueueItemID (item_job it) = i \<and> int64 (Attempt (item_job it))" by (rule row_view_job)
next
  fix repo ctx ev urls t q res q'
  assume repo: "repo \<in> postgres_repos ts" and inv: "table_inv q"
    and call: "repo_EnqueueDeliveries repo ctx ev urls t q = (res, q')"
  obtain faults now where enq: "EnqueueDeliveries ts faults now ctx ev urls t q = (res, q')"
    using repo call by (auto simp: postgres_repos_def PostgresRepository_def)
  show "table_inv q' \<and> (\<forall>i it. row_view q i = Some it \<longrightarrow> row_view q' i = Some it) \<and>
      (\<forall>i it. row_view q i = None \<longrightarrow> row_view q' i = Some it \<longrightarrow> item_status it = Pending \<and> Attempt (item_job it) = 0)"
    using table_inv_Enqueue [OF inv enq] Enqueue_view [OF enq] by simp
next
  fix repo ctx owner limit t q out q'
  assume repo: "repo \<in> postgres_repos ts" and inv: "table_inv q"
    and call: "repo_ClaimAvailableDeliveries repo ctx owner limit t q = (out, q')"
  obtain locked returning faults where perm: "\<forall>rs. mset (returning rs) = mset rs"
    and claim: "ClaimAvailableDeliveries ts locked returning faults ctx owner limit t q = (out, q')"
    by (rule postgres_claimE [OF repo call])
  show "table_inv q' \<and> (\<exists>ids. claims (row_view q) ids (row_view q') \<and>
      (\<forall>ds. out = Inr ds \<longrightarrow> hands_out (row_view q) ids ds))"
    using table_inv_Claim [OF inv claim] Claim_claims [OF inv spec [OF perm] claim] by blast
next
  fix repo ctx owner limit t q ds q'
  assume repo: "repo \<in> postgres_repos ts" and inv: "table_inv q" and "0 < limit"
    and call: "repo_ClaimAvailableDeliveries repo ctx owner limit t q = (Inr ds, q')"
  obtain locked returning faults where perm: "\<forall>rs. mset (returning rs) = mset rs"
    and claim: "ClaimAvailableDeliveries ts locked returning faults ctx owner limit t q = (Inr ds, q')"
    by (rule postgres_claimE [OF repo call])
  have "length ds = length (candidate_rows locked limit (ts t) (rows q))"
    using arg_cong [OF Claim_Inr(1) [OF inv spec [OF perm] claim], of size] by simp
  then show "int (length ds) \<le> limit" using \<open>0 < limit\<close> by (auto simp: length_candidate_rows)
next
  fix repo ctx i t q e q'
  assume repo: "repo \<in> postgres_repos ts" and inv: "table_inv q" and call: "repo_MarkDelivered repo ctx i t q = (e, q')"
  obtain faults where mark: "MarkDelivered ts faults ctx i t q = (e, q')"
    using repo call by (auto simp: postgres_repos_def PostgresRepository_def)
  show "table_inv q' \<and> marks (row_view q) i (\<lambda>it it'. item_status it' = Completed \<and> item_job it' = item_job it) (row_view q')"
    using table_inv_MarkDelivered [OF inv mark] updateQueueItem_marks [OF inv mark [unfolded MarkDelivered_def]]
    by (simp add: row_item_updates)
next
  fix repo ctx i msg t u q e q'
  assume repo: "repo \<in> postgres_repos ts" and inv: "table_inv q"
    and call: "repo_MarkRetryPending repo ctx i msg t u q = (e, q')"
  obtain faults where mark: "MarkRetryPending ts faults ctx i msg t u q = (e, q')"
    using repo call by (auto simp: postgres_repos_def PostgresRepository_def)
  show "table_inv q' \<and> marks (row_view q) i (\<lambda>it it'. item_status it' = Pending \<and>
        (Attempt (item_job it) < MaxInt64 \<longrightarrow> Attempt (item_job it') = Attempt (item_job it) + 1)) (row_view q')"
    using table_inv_MarkRetryPending [OF inv mark] updateQueueItem_marks [OF inv mark [unfolded MarkRetryPending_def]]
    by (simp add: row_item_updates)
next
  fix repo ctx i msg t q e q'
  assume repo: "repo \<in> postgres_repos ts" and inv: "table_inv q" and call: "repo_MarkDeadLetter repo ctx i msg t q = (e, q')"
  obtain faults where mark: "MarkDeadLetter ts faults ctx i msg t q = (e, q')"
    using repo call by (auto simp: postgres_repos_def PostgresRepository_def)
  show "table_inv q' \<and> marks (row_view q) i (\<lambda>it it'. item_status it' = DeadLettered \<and>
        Attempt (item_job it') = Attempt (item_job it)) (row_view q')"
    using table_inv_MarkDeadLetter [OF inv mark] updateQueueItem_marks [OF inv mark [unfolded MarkDeadLetter_def]]
    by (simp add: row_item_updates)
qed

interpretation db: shared_queue "postgres_repos ts" table_inv row_view for ts
  by (rule postgres_shared)

lemma mark_sure:
  assumes inv: "table_inv db" and "row_view db i = Some it"
    and call: "updateQueueItem no_faults None legal update i db = (e, db')"
    and id: "\<And>r. row_id (update r) = row_id r" and "\<And>r. status (update r) = st"
    and legal: "\<And>r. row_item r = it \<Longrightarrow> legal r"
  shows "marks_surely (row_view db) i st (row_view db')"
proof -
  obtain r where r: "r \<in> set (rows db)" "row_id r = i" "it = row_item r"
    using row_view_Some_iff [OF inv] assms(2) by blast
  have "r' = r" if "r' \<in> set (rows db)" "row_id r' = i" for r'
    using that r inv by (auto simp: table_inv_def distinct_map inj_on_def)
  then have "\<forall>r' \<in> set (rows db). row_id r' = i \<longrightarrow> legal r'" using legal r(3) by blast
  then have "db' = db\<lparr>rows := map (\<lambda>r. if row_id r = i then update r else r) (rows db)\<rparr>"
    using call by (auto simp: updateQueueItem_def Let_def split: if_splits)
  then show ?thesis using row_view_one [OF inv r(1,2) id] assms(5) by (simp add: marks_surely_def)
qed

lemma shared_queue_subset:
  assumes "shared_queue repos invar view" and "repos' \<subseteq> repos"
  shows "shared_queue repos' invar view"
  using assms(1) unfolding shared_queue_def by (meson assms(2) subsetD)

lemma faultless_calls:
  assumes "repo \<in> faultless_repos ts"
  shows "repo_MarkDelivered repo = MarkDelivered ts no_faults"
    and "repo_MarkRetryPending repo = MarkRetryPending ts no_faults"
    and "repo_MarkDeadLetter repo = MarkDeadLetter ts no_faults"
  using assms by (auto simp: faultless_repos_def PostgresRepository_def)

lemma faultless_claim_failed:
  assumes "repo \<in> faultless_repos ts" and "repo_ClaimAvailableDeliveries repo None owner limit t q = (Inl e, q')"
  shows "row_view q' = row_view q"
proof -
  obtain locked returning where "ClaimAvailableDeliveries ts locked returning no_faults None owner limit t q = (Inl e, q')"
    using assms by (auto simp: faultless_repos_def PostgresRepository_def)
  from Claim_Inl [OF this] show ?thesis by (auto intro: row_view_cong)
qed

lemma faultless_reliable: "reliable_queue (faultless_repos ts) table_inv row_view max_int4"
proof (intro reliable_queue.intro shared_queue_subset [OF postgres_shared faultless_postgres] reliable_queue_axioms.intro)
  fix repo q owner limit t e q'
  assume "repo \<in> faultless_repos ts" and "repo_ClaimAvailableDeliveries repo None owner limit t q = (Inl e, q')"
  then show "row_view q' = row_view q" by (rule faultless_claim_failed)
next
  fix repo q i it t out q'
  assume repo: "repo \<in> faultless_repos ts" and q: "table_inv q" "row_view q i = Some it"
    and call: "repo_MarkDelivered repo None i t q = (out, q')"
  show "marks_surely (row_view q) i Completed (row_view q')"
    by (rule mark_sure [OF q call [unfolded faultless_calls [OF repo] MarkDelivered_def]]) simp_all
next
  fix repo q i it msg t u out q'
  assume repo: "repo \<in> faultless_repos ts" and q: "table_inv q" "row_view q i = Some it"
    and cap: "Attempt (item_job it) < max_int4" and call: "repo_MarkRetryPending repo None i msg t u q = (out, q')"
  show "marks_surely (row_view q) i Pending (row_view q')"
    by (rule mark_sure [OF q call [unfolded faultless_calls [OF repo] MarkRetryPending_def]]) (use cap in auto)
next
  fix repo q i it msg t out q'
  assume repo: "repo \<in> faultless_repos ts" and q: "table_inv q" "row_view q i = Some it"
    and call: "repo_MarkDeadLetter repo None i msg t q = (out, q')"
  show "marks_surely (row_view q) i DeadLettered (row_view q')"
    by (rule mark_sure [OF q call [unfolded faultless_calls [OF repo] MarkDeadLetter_def]]) simp_all
qed

interpretation calm_db: reliable_queue "faultless_repos ts" table_inv row_view max_int4 for ts
  by (rule faultless_reliable)

end
