(* ===== verification/Runtime_Example.thy ===== *)
theory Runtime_Example
  imports Runtime_Postgres
begin

text \<open>
  A run of the system from a queue with two pending rows, step by step: an instance starts, its
  poller claims the first row (the second is locked by another transaction), its dispatcher takes
  the job, its only worker receives it, and the instance either crashes or delivers the webhook. The properties of the running
  system are applied to the states of this run.
\<close>

definition sample_config :: NotifierConfig where
  "sample_config = \<lparr>HTTPAddress = '':8080'', WorkerCount = 1, RequestTimeout = 5 * Second, MaxRetryAttempts = 3,
     InitialRetryDelay = Second, QueueClaimBatchSize = 5, QueuePollInterval = Second,
     SchedulerBufferMultiplier = 0, ScheduledQueueLimitFactor = 10, MetricsReportInterval = Second,
     ShutdownTimeout = Second, LogLevel = ''INFO'', PostgresConnection = ''postgres://db'',
     RegistrationResolveQuery = ''resolve'', RegistrationSnapshotQuery = ''snapshot''\<rparr>"

definition sample_repo :: "queue_db Repository" where
  "sample_repo = PostgresRepository id {2} id no_faults 5"

definition open_registry :: Registry where
  "open_registry = \<lparr>reg_ResolveWebhookURLs = (\<lambda>ctx c. Inr [''http://a'']), reg_Snapshot = (\<lambda>ctx. Inr Map.empty)\<rparr>"

definition sample_http :: http_env where
  "sample_http = \<lparr>marshal = (\<lambda>ev. Inr ''{}''), request_fault = (\<lambda>url. None),
     http_do = (\<lambda>timeout ctx req. Inr \<lparr>resp_StatusCode = 204, resp_Body = []\<rparr>), http_clock = (\<lambda>k. 20 + int k)\<rparr>"

definition sample_scheduler :: RoundRobinScheduler where
  "sample_scheduler = \<lparr>customerQueues = Map.empty, customerOrder = [], nextCustomerIndex = 0,
     output_buffer = [], output_capacity = 0, output_closed = False, closed = False, queuedJobCount = 0\<rparr>"

definition sample_app :: "queue_db Application" where
  "sample_app = \<lparr>config = sample_config, registry = open_registry, workQueue = sample_repo,
     scheduler = sample_scheduler, deliver = Deliver sample_http (NewHTTPClient (5 * Second)),
     retryPolicy = \<lparr>InitialDelay = Second, MaxRetryAttempt = 3\<rparr>, notifierMetrics = NewNotifierMetrics,
     deadLetters = [], receivedEvents = 0, deliveredEvents = 0, failedDeliveries = 0, retriedDeliveries = 0,
     deadLetterCount = 0, logged = []\<rparr>"

definition first_row :: queue_row where
  "first_row = new_row id (sample_event ''e1'' ''acme'') 7 5 1 ''http://a''"

definition second_row :: queue_row where
  "second_row = new_row id (sample_event ''e1'' ''acme'') 7 5 2 ''http://b''"

definition claimed_queue :: queue_db where
  "claimed_queue = \<lparr>rows = [claim_row ''n1'' 9 first_row, second_row], next_id = 3\<rparr>"

text \<open>The states of the run.\<close>

definition sys_initial :: "queue_db system" where
  "sys_initial = \<lparr>instances = [], queue = two_rows, attempts = []\<rparr>"

definition sys_started :: "queue_db system" where
  "sys_started = \<lparr>instances = [start_instance sample_app], queue = two_rows, attempts = []\<rparr>"

definition polled_app :: "queue_db Application" where
  "polled_app = sample_app\<lparr>scheduler := Enqueue (scan_job first_row) sample_scheduler\<rparr>"

definition sys_polled :: "queue_db system" where
  "sys_polled = \<lparr>instances = [(start_instance sample_app)\<lparr>application := polled_app\<rparr>], queue = claimed_queue, attempts = []\<rparr>"

definition taken_app :: "queue_db Application" where
  "taken_app = sample_app\<lparr>scheduler := sample_scheduler\<lparr>customerQueues := [''acme'' \<mapsto> []], customerOrder := [''acme'']\<rparr>\<rparr>"

definition sys_taken :: "queue_db system" where
  "sys_taken = \<lparr>instances = [(start_instance sample_app)\<lparr>application := taken_app, dispatcher := DSending (scan_job first_row)\<rparr>],
     queue = claimed_queue, attempts = []\<rparr>"

definition sys_received :: "queue_db system" where
  "sys_received = \<lparr>instances = [(start_instance sample_app)\<lparr>application := taken_app, workers := [WBusy (scan_job first_row)]\<rparr>],
     queue = claimed_queue, attempts = [(1, 0)]\<rparr>"

definition sys_crashed :: "queue_db system" where
  "sys_crashed = \<lparr>instances = [], queue = claimed_queue, attempts = [(1, 0)]\<rparr>"

definition delivered_queue :: queue_db where
  "delivered_queue = \<lparr>rows = [complete_row 22 (claim_row ''n1'' 9 first_row), second_row], next_id = 3\<rparr>"

definition delivered_app :: "queue_db Application" where
  "delivered_app = fst (the (runWorker_job (\<lambda>k. 30) None (scan_job first_row) taken_app claimed_queue))"

definition sys_delivered :: "queue_db system" where
  "sys_delivered = \<lparr>instances = [(start_instance sample_app)\<lparr>application := delivered_app\<rparr>],
     queue = delivered_queue, attempts = [(1, 0)]\<rparr>"

lemma sample_repo_faultless: "sample_repo \<in> faultless_repos id"
  unfolding faultless_repos_def sample_repo_def by (intro CollectI exI conjI) auto

lemma sample_repo_postgres: "sample_repo \<in> postgres_repos id"
  using faultless_postgres sample_repo_faultless by blast

lemma start_sample_app:
  "start_instance sample_app = \<lparr>application = sample_app, dispatcher = DWaiting, workers = [WIdle],
     poller_running = True, context_done = False\<rparr>"
  by (simp add: start_instance_def sample_app_def sample_config_def)

lemma sample_new:
  "NewApplication (\<lambda>_ _ _. Inr (open_registry, None)) (\<lambda>_. Inr (sample_repo, None)) (NewRoundRobinScheduler 100)
    (\<lambda>_. Deliver sample_http (NewHTTPClient (5 * Second))) sample_config = Inr sample_app"
  by (simp add: NewApplication_def NewRoundRobinScheduler_def sample_app_def sample_scheduler_def sample_config_def wrap64_def)

lemma run_start: "step {sample_config} repos Start sys_initial sys_started"
  using step_start [OF _ sample_new, where sys = sys_initial and repos = repos]
  by (simp add: sys_initial_def sys_started_def)

lemma sample_candidates: "candidate_rows {2} 5 9 (rows two_rows) = [first_row]"
  by (simp add: candidate_rows_def two_rows_eval new_row_def first_row_def)

lemma sample_claim:
  "ClaimAvailableDeliveries id {2} id no_faults None ''n1'' 5 9 two_rows =
    (Inr [\<lparr>DeliveryQueueItemID = 1, QueuedJob = scan_job first_row\<rparr>], claimed_queue)"
  using sample_candidates
  by (simp add: ClaimAvailableDeliveries_def claim_statement_def Let_def commit_def two_rows_eval claimed_queue_def
      new_row_def claim_row_def scan_job_def first_row_def second_row_def)

lemma run_poll:
  assumes "sample_repo \<in> repos"
  shows "step {sample_config} repos Poll sys_started sys_polled"
proof -
  have "claimAndSchedule None ''n1'' 9 (sample_app\<lparr>workQueue := sample_repo\<rparr>) two_rows = (None, polled_app, claimed_queue)"
    using sample_claim
    by (simp add: claimAndSchedule_def sample_app_def sample_repo_def PostgresRepository_def scheduledQueueIsFull_def
        scheduledQueueLimit_def ScheduledQueueLimit_def sample_config_def QueueDepth_def sample_scheduler_def polled_app_def wrap64_def)
  then show ?thesis
    using step_poll [of 0 sys_started "start_instance sample_app" sample_repo repos "''n1''" 9 None polled_app claimed_queue] assms
    by (simp add: sys_started_def sys_polled_def start_sample_app inst_context_def)
qed

lemma run_take: "step {sample_config} repos Dispatch sys_polled sys_taken"
proof -
  let ?inst = "(start_instance sample_app)\<lparr>application := polled_app\<rparr>"
  have wait: "waitForNextJob False (scheduler polled_app) = WaitGot (scan_job first_row) (scheduler taken_app)"
    by (simp add: waitForNextJob_def dequeueNextJobLocked_def dequeue_from.simps [of _ 0] polled_app_def taken_app_def
        sample_scheduler_def Enqueue_def queue_of_def scan_job_def first_row_def new_row_def sample_event_def Let_def)
  have "dispatch ?inst ((set_scheduler (scheduler taken_app) ?inst)\<lparr>dispatcher := DSending (scan_job first_row)\<rparr>)"
    by (rule dispatch_take) (use wait in \<open>simp_all add: start_sample_app\<close>)
  then show ?thesis
    using step_dispatch [of 0 sys_polled _ "{sample_config}" repos]
    by (auto simp: sys_polled_def sys_taken_def start_sample_app set_scheduler_def polled_app_def taken_app_def)
qed

lemma run_receive: "step {sample_config} repos Receive sys_taken sys_received"
proof -
  let ?inst = "(start_instance sample_app)\<lparr>application := taken_app, dispatcher := DSending (scan_job first_row)\<rparr>"
  have "receive ?inst 0 (scan_job first_row) (?inst\<lparr>dispatcher := DWaiting, workers := (workers ?inst)[0 := WBusy (scan_job first_row)]\<rparr>)"
    by (rule receive_direct) (simp_all add: start_sample_app taken_app_def sample_scheduler_def)
  then have "receive (instances sys_taken ! 0) 0 (scan_job first_row) (instances sys_received ! 0)"
    by (simp add: sys_taken_def sys_received_def start_sample_app)
  from step_receive [OF _ this, of "{sample_config}" repos] show ?thesis
    by (simp add: sys_taken_def sys_received_def first_row_def new_row_def)
qed

lemma run_crash: "step {sample_config} repos Crash sys_received sys_crashed"
  using step_crash [of 0 sys_received "{sample_config}" repos] by (simp add: sys_received_def sys_crashed_def)

lemma sample_delivery:
  "\<exists>app. runWorker_job (\<lambda>k. 30) None (scan_job first_row) taken_app claimed_queue = Some (app, delivered_queue)"
  by (simp add: runWorker_job_def performDeliveryAttempt_def handleSuccessfulDelivery_def Let_def taken_app_def
      sample_app_def Deliver_def attempt_result_def sample_http_def sample_repo_def PostgresRepository_def
      MarkDelivered_def updateQueueItem_def recordDeliveryMetrics_def logDeliveryResult_def log_entry_def log_failure_def
      claimed_queue_def delivered_queue_def first_row_def second_row_def new_row_def claim_row_def complete_row_def)

lemma run_finish:
  assumes "sample_repo \<in> repos"
  shows "step {sample_config} repos Finish sys_received sys_delivered"
proof -
  let ?inst = "(start_instance sample_app)\<lparr>application := taken_app, workers := [WBusy (scan_job first_row)]\<rparr>"
  have "taken_app\<lparr>workQueue := sample_repo, deliver := Deliver sample_http (NewHTTPClient (5 * Second))\<rparr> = taken_app"
    by (simp add: taken_app_def sample_app_def)
  moreover have "runWorker_job (\<lambda>k. 30) None (scan_job first_row) taken_app claimed_queue = Some (delivered_app, delivered_queue)"
    using sample_delivery by (auto simp: delivered_app_def)
  ultimately show ?thesis
    using step_finish [of 0 sys_received ?inst 0 "scan_job first_row" sample_repo repos "\<lambda>k. 30" sample_http "5 * Second"
        delivered_app delivered_queue "{sample_config}"] assms
    by (simp add: sys_received_def sys_delivered_def start_sample_app inst_context_def)
qed

end
