(* ===== verification/Runtime_Correct.thy ===== *)
theory Runtime_Correct
  imports Runtime_Example
begin

text \<open>
  The properties of the running system on the PostgreSQL queue, for any number of instances, any
  interleaving of their goroutines, crashes, cancellations, and any fault inside a call of the
  database; and what a run without faults, crashes and cancellation adds. Each of them rests on a
  lemma of \<open>shared_queue\<close> or \<open>reliable_queue\<close> through its interpretation.
\<close>

text \<open>What can follow a state.\<close>

definition later :: "NotifierConfig set \<Rightarrow> 'q Repository set \<Rightarrow> 'q system \<Rightarrow> 'q system \<Rightarrow> bool" where
  "later cfgs repos = (\<lambda>sys sys'. \<exists>l. step cfgs repos l sys sys')\<^sup>*\<^sup>*"

lemma later_refl: "later cfgs repos sys sys"
  by (simp add: later_def)

lemma later_step: "later cfgs repos sys sys' \<Longrightarrow> step cfgs repos l sys' sys'' \<Longrightarrow> later cfgs repos sys sys''"
  unfolding later_def by (erule rtranclp.rtrancl_into_rtrancl) blast

lemma later_reachable:
  "later cfgs repos sys sys' \<Longrightarrow> reachable cfgs repos UNIV q0 sys \<Longrightarrow> reachable cfgs repos UNIV q0 sys'"
  unfolding later_def by (induction rule: rtranclp_induct) (auto intro: reachable_step)

lemma pg_invariant:
  assumes "reachable cfgs (postgres_repos ts) kinds q0 sys" and "configs_int64 cfgs" and "queue_reachable ts q0"
  shows "table_inv (queue sys)"
    and "core_inv (row_view (queue sys)) (waiting sys) (active sys) (attempts sys)"
    and "\<forall>inst \<in> set (instances sys). node_inv cfgs inst"
  using db.reachable_inv [OF assms(1,2) reachable_table_inv [OF assms(3)]] by (simp_all add: db.sys_inv_def)

text \<open>An item at rest stays so, and no further attempt of it is begun.\<close>

lemma pg_at_rest:
  assumes "later cfgs (postgres_repos ts) sys sys'" and "reachable cfgs (postgres_repos ts) UNIV q0 sys"
    and "configs_int64 cfgs" and "queue_reachable ts q0" and "db.at_rest i it sys"
  shows "db.at_rest i it sys' \<and> filter (\<lambda>a. fst a = i) (attempts sys') = filter (\<lambda>a. fst a = i) (attempts sys)"
  using assms(1) [unfolded later_def]
proof (induction rule: rtranclp_induct)
  case (step sys1 sys2)
  have "reachable cfgs (postgres_repos ts) UNIV q0 sys1"
    by (rule later_reachable [OF _ assms(2)]) (use step(1) in \<open>simp add: later_def\<close>)
  from db.reachable_inv [OF this assms(3) reachable_table_inv [OF assms(4)]]
  show ?case using db.at_rest_step [where sys = sys1 and sys' = sys2] step assms(3) by (auto simp: db.attempts_of_def)
qed (use assms(5) in simp)

lemma crash_parts:
  assumes n: "n < length (instances sys)"
  shows "waiting sys = waiting_jobs (instances sys ! n) +
      waiting (sys\<lparr>instances := take n (instances sys) @ drop (Suc n) (instances sys)\<rparr>)"
    and "active sys = active_jobs (instances sys ! n) +
      active (sys\<lparr>instances := take n (instances sys) @ drop (Suc n) (instances sys)\<rparr>)"
proof -
  have split: "instances sys = take n (instances sys) @ instances sys ! n # drop (Suc n) (instances sys)"
    using n by (rule id_take_nth_drop)
  show "waiting sys = waiting_jobs (instances sys ! n) +
      waiting (sys\<lparr>instances := take n (instances sys) @ drop (Suc n) (instances sys)\<rparr>)"
    unfolding waiting_def by (subst split) (simp add: ac_simps)
  show "active sys = active_jobs (instances sys ! n) +
      active (sys\<lparr>instances := take n (instances sys) @ drop (Suc n) (instances sys)\<rparr>)"
    unfolding active_def by (subst split) (simp add: ac_simps)
qed

lemma split_ids:
  assumes "count (job_ids (M + N)) (QueueItemID job) \<le> 1" and "job \<in># M"
  shows "QueueItemID job \<notin># job_ids N"
proof -
  have "count (job_ids M) (QueueItemID job) \<noteq> 0" using assms(2) by (simp only: count_eq_zero_iff) simp
  then have "count (job_ids N) (QueueItemID job) = 0" using assms(1) unfolding image_mset_union count_union by linarith
  then show ?thesis by (rule count_eq_zero_iff [THEN iffD1])
qed

lemma sample_int64: "configs_int64 {sample_config}"
  by (simp add: configs_int64_def sample_config_def int64_def)

lemma two_rows_start: "queue_reachable id two_rows"
  by (rule two_rows_reachable)

lemma sample_run:
  assumes "sample_repo \<in> repos"
  shows "{Start, Poll, Dispatch, Receive} \<subseteq> kinds \<Longrightarrow> reachable {sample_config} repos kinds two_rows sys_received"
    and "reachable {sample_config} repos UNIV two_rows sys_crashed"
proof -
  have run: "reachable {sample_config} repos K two_rows sys_received" if "{Start, Poll, Dispatch, Receive} \<subseteq> K" for K
    using reachable_init [of "{sample_config}" repos K two_rows, folded sys_initial_def] that
      run_start run_poll [OF assms] run_take run_receive
    by (meson insert_subset reachable_step)
  then show "{Start, Poll, Dispatch, Receive} \<subseteq> kinds \<Longrightarrow> reachable {sample_config} repos kinds two_rows sys_received" .
  show "reachable {sample_config} repos UNIV two_rows sys_crashed"
    by (rule reachable_step [OF run _ run_crash]) simp_all
qed

section \<open>Safety\<close>

text \<open>
  C1. No delivery attempt is made twice. However many instances share the queue and however they
  interleave, crash, are cancelled or meet database faults, the same attempt (queue item, attempt
  number) is begun by at most one worker once.
\<close>

theorem no_attempt_is_made_twice:
  assumes "reachable cfgs (postgres_repos ts) kinds q0 sys" and "configs_int64 cfgs" and "queue_reachable ts q0"
  shows "distinct (attempts sys)"
  by (rule core_invD(4) [OF pg_invariant(2) [OF assms]])

theorem no_attempt_is_made_twice_witness: "distinct (attempts sys_crashed) \<and> attempts sys_crashed = [(1, 0)]"
  using no_attempt_is_made_twice [OF sample_run(2) [OF sample_repo_postgres] sample_int64 two_rows_start]
  by (simp add: sys_crashed_def)

text \<open>
  C3. Instances never share an item: over all schedulers, dispatchers, channels and workers of all
  running instances, at most one job has a given queue item id, and its row is claimed in the
  database with exactly the contents of the job.
\<close>

theorem item_is_in_one_place:
  assumes "reachable cfgs (postgres_repos ts) kinds q0 sys" and "configs_int64 cfgs" and "queue_reachable ts q0"
  shows "count (image_mset QueueItemID (waiting sys + active sys)) i \<le> 1 \<and>
    (\<forall>job. job \<in># waiting sys + active sys \<longrightarrow>
      (\<exists>r \<in> set (rows (queue sys)). row_id r = QueueItemID job \<and> status r = Claimed \<and> scan_job r = job))"
proof -
  note core = core_invD [OF pg_invariant(2) [OF assms]]
  have "\<exists>r \<in> set (rows (queue sys)). row_id r = QueueItemID job \<and> status r = Claimed \<and> scan_job r = job"
    if held: "job \<in># waiting sys + active sys" for job
  proof -
    obtain it where it: "row_view (queue sys) (QueueItemID job) = Some it" "item_status it = Claimed" "item_job it = job"
      using core(2) [OF held] by (auto simp: claimed_as_def)
    then obtain r where "r \<in> set (rows (queue sys))" "row_id r = QueueItemID job" "it = row_item r"
      using row_view_Some_iff [OF pg_invariant(1) [OF assms]] by blast
    then show ?thesis using it by auto
  qed
  then show ?thesis using core(1) by blast
qed

theorem item_is_in_one_place_witness:
  "count (image_mset QueueItemID (waiting sys_received + active sys_received)) 1 \<le> 1 \<and>
    (\<exists>r \<in> set (rows (queue sys_received)). status r = Claimed \<and> scan_job r = scan_job first_row)"
proof -
  have "scan_job first_row \<in># waiting sys_received + active sys_received"
    by (simp add: sys_received_def active_def active_jobs_def start_sample_app)
  then show ?thesis
    using item_is_in_one_place [OF sample_run(1) [OF sample_repo_postgres, of UNIV] sample_int64 two_rows_start] by auto
qed

text \<open>
  C4. A completed or dead-lettered item is final: whatever the instances do from then on, its row
  keeps status, job and availability, and no further attempt of it is begun.
\<close>

theorem finished_items_are_final:
  assumes "reachable cfgs (postgres_repos ts) UNIV q0 sys" and "configs_int64 cfgs" and "queue_reachable ts q0"
    and "r \<in> set (rows (queue sys))" and "status r = Completed \<or> status r = DeadLettered"
    and "later cfgs (postgres_repos ts) sys sys'"
  shows "(\<exists>r' \<in> set (rows (queue sys')). row_id r' = row_id r \<and> status r' = status r \<and> scan_job r' = scan_job r) \<and>
    filter (\<lambda>a. fst a = row_id r) (attempts sys') = filter (\<lambda>a. fst a = row_id r) (attempts sys)"
proof -
  have "row_view (queue sys) (row_id r) = Some (row_item r)"
    using row_view_Some_iff [OF pg_invariant(1) [OF assms(1-3)]] assms(4) by blast
  then have "db.at_rest (row_id r) (row_item r) sys"
    using db.terminal_at_rest [OF db.reachable_inv [OF assms(1,2) reachable_table_inv [OF assms(3)]]] assms(5) by simp
  from pg_at_rest [OF assms(6,1-3) this]
  have "row_view (queue sys') (row_id r) = Some (row_item r)"
    and log: "filter (\<lambda>a. fst a = row_id r) (attempts sys') = filter (\<lambda>a. fst a = row_id r) (attempts sys)"
    by (simp_all add: db.at_rest_def)
  then obtain r' where "r' \<in> set (rows (queue sys'))" "row_id r' = row_id r" "row_item r' = row_item r"
    using row_view_Some_iff [OF pg_invariant(1) [OF later_reachable [OF assms(6,1)] assms(2,3)]] by metis
  then show ?thesis using log by (metis row_item_fields)
qed

theorem finished_items_are_final_witness:
  "filter (\<lambda>a. fst a = 1) (attempts (sys_delivered\<lparr>instances := []\<rparr>)) = [(1, 0)]"
proof -
  have run: "reachable {sample_config} (postgres_repos id) UNIV two_rows sys_delivered"
    by (rule reachable_step [OF sample_run(1) [OF sample_repo_postgres] _ run_finish [OF sample_repo_postgres]]) simp_all
  have "later {sample_config} (postgres_repos id) sys_delivered (sys_delivered\<lparr>instances := []\<rparr>)"
    using later_step [OF later_refl step_crash [of 0 sys_delivered]] by (simp add: sys_delivered_def)
  from finished_items_are_final [OF run sample_int64 two_rows_start _ _ this,
      of "complete_row 22 (claim_row ''n1'' 9 first_row)"]
  show ?thesis by (simp add: sys_delivered_def delivered_queue_def first_row_def new_row_def)
qed

text \<open>
  C5. The claims of an instance that stops are lost: once an instance that holds a job crashes, the
  row of that job stays claimed for ever and no further attempt of it is begun, whatever the other
  instances do. The documented at-least-once delivery does not survive a crash.
\<close>

theorem claims_of_a_crashed_instance_are_lost:
  assumes "reachable cfgs (postgres_repos ts) UNIV q0 sys" and "configs_int64 cfgs" and "queue_reachable ts q0"
    and "n < length (instances sys)" and "job \<in># waiting_jobs (instances sys ! n) + active_jobs (instances sys ! n)"
    and "crashed = sys\<lparr>instances := take n (instances sys) @ drop (Suc n) (instances sys)\<rparr>"
    and "later cfgs (postgres_repos ts) crashed sys'"
  shows "(\<exists>r \<in> set (rows (queue sys')). row_id r = QueueItemID job \<and> status r = Claimed) \<and>
    filter (\<lambda>a. fst a = QueueItemID job) (attempts sys') = filter (\<lambda>a. fst a = QueueItemID job) (attempts sys)"
proof -
  note core = core_invD [OF pg_invariant(2) [OF assms(1-3)]]
  have crash: "reachable cfgs (postgres_repos ts) UNIV q0 crashed"
    unfolding assms(6) by (rule reachable_step [OF assms(1) _ step_crash [OF assms(4)]]) simp
  have parts: "waiting sys + active sys =
      (waiting_jobs (instances sys ! n) + active_jobs (instances sys ! n)) + (waiting crashed + active crashed)"
    using crash_parts [OF assms(4)] by (simp add: assms(6) ac_simps)
  then have "job \<in># waiting sys + active sys" using assms(5) by simp
  from core(2) [OF this] obtain it where it: "row_view (queue sys) (QueueItemID job) = Some it" "item_status it = Claimed"
    by (auto simp: claimed_as_def)
  have "QueueItemID job \<notin> held_ids crashed"
    using core(1) [of "QueueItemID job"] assms(5) unfolding parts held_ids_def
    by (rule split_ids)
  then have "db.at_rest (QueueItemID job) it crashed" using it by (simp add: db.at_rest_def assms(6))
  from pg_at_rest [OF assms(7) crash assms(2,3) this]
  have "row_view (queue sys') (QueueItemID job) = Some it"
    and log: "filter (\<lambda>a. fst a = QueueItemID job) (attempts sys') = filter (\<lambda>a. fst a = QueueItemID job) (attempts sys)"
    by (simp_all add: db.at_rest_def assms(6))
  then obtain r where "r \<in> set (rows (queue sys'))" "row_id r = QueueItemID job" "it = row_item r"
    using row_view_Some_iff [OF pg_invariant(1) [OF later_reachable [OF assms(7) crash] assms(2,3)]] by blast
  then show ?thesis using it(2) log by auto
qed

theorem claims_of_a_crashed_instance_are_lost_witness:
  "\<exists>r \<in> set (rows (queue sys_crashed)). row_id r = 1 \<and> status r = Claimed"
proof -
  have "sys_crashed = sys_received\<lparr>instances := take 0 (instances sys_received) @ drop (Suc 0) (instances sys_received)\<rparr>"
    by (simp add: sys_crashed_def sys_received_def)
  from claims_of_a_crashed_instance_are_lost [OF sample_run(1) [OF sample_repo_postgres] sample_int64 two_rows_start _ _
      this later_refl, of "scan_job first_row"]
  show ?thesis
    by (simp add: sys_received_def active_jobs_def start_sample_app first_row_def new_row_def)
qed

section \<open>Bounds\<close>

text \<open>
  C6. No item is attempted for ever: when no configuration allows more than \<open>M\<close> retries, at most
  \<open>M + 1\<close> attempts of an item are begun over all instances, and the retry count of no row exceeds
  \<open>M\<close>.
\<close>

theorem attempts_are_bounded:
  assumes "reachable cfgs (postgres_repos ts) kinds q0 sys" and "configs_int64 cfgs" and "queue_reachable ts q0"
    and "0 \<le> M" and "\<forall>cfg \<in> cfgs. MaxRetryAttempts cfg \<le> M" and "\<forall>r \<in> set (rows q0). retry_count r \<le> M"
  shows "int (length (filter (\<lambda>a. fst a = i) (attempts sys))) \<le> M + 1 \<and>
    (\<forall>r \<in> set (rows (queue sys)). retry_count r \<le> M)"
proof -
  note inv0 = reachable_table_inv [OF assms(3)] and inv = pg_invariant [OF assms(1-3)]
  have start: "0 \<le> Attempt (item_job it) \<and> Attempt (item_job it) \<le> M" if "row_view q0 i = Some it" for i it
    using that assms(6) inv0 row_view_Some_iff [OF inv0] by (auto simp: table_inv_def row_inv_def)
  have within: "db.attempts_within M sys"
    by (rule db.reachable_within [OF assms(1,2) inv0 assms(4,5)]) (use start in blast)
  have "retry_count r \<le> M" if r: "r \<in> set (rows (queue sys))" for r
  proof -
    have "row_view (queue sys) (row_id r) = Some (row_item r)" using row_view_Some_iff [OF inv(1)] r by blast
    then have "Attempt (item_job (row_item r)) \<le> M" using within unfolding db.attempts_within_def by blast
    then show ?thesis by simp
  qed
  then show ?thesis
    using db.attempts_count [OF within core_invD(4) [OF inv(2)] assms(4)] by (simp add: db.attempts_of_def)
qed

theorem attempts_are_bounded_witness: "int (length (filter (\<lambda>a. fst a = 1) (attempts sys_crashed))) \<le> 3 + 1"
  using attempts_are_bounded [OF sample_run(2) [OF sample_repo_postgres] sample_int64 two_rows_start, of 3 1]
  by (simp add: sample_config_def two_rows_eval new_row_def)

text \<open>
  C7. The memory of an instance is bounded: with a positive limit and batch size its scheduler never
  holds as many jobs as the limit plus one batch. (The poller looks at the limit before it claims a
  whole batch, so the limit itself can be exceeded by a batch less one.)
\<close>

theorem scheduled_jobs_are_bounded:
  assumes "reachable cfgs (postgres_repos ts) kinds q0 sys" and "configs_int64 cfgs" and "queue_reachable ts q0"
    and "inst \<in> set (instances sys)" and "0 < ScheduledQueueLimit (config (application inst))"
    and "0 < QueueClaimBatchSize (config (application inst))"
  shows "QueueDepth (scheduler (application inst)) <
    ScheduledQueueLimit (config (application inst)) + QueueClaimBatchSize (config (application inst))"
  using db.reachable_depth [OF assms(1,2) reachable_table_inv [OF assms(3)]] assms(4-6)
  by (auto simp: depth_bound_def Let_def)

theorem scheduled_jobs_are_bounded_witness: "QueueDepth (scheduler polled_app) < 10 + 5"
proof -
  have limit: "ScheduledQueueLimit sample_config = 10" "QueueClaimBatchSize sample_config = 5"
    by (simp_all add: ScheduledQueueLimit_def sample_config_def wrap64_def)
  have run: "reachable {sample_config} (postgres_repos id) UNIV two_rows sys_polled"
    using reachable_init [of "{sample_config}" "postgres_repos id" UNIV two_rows, folded sys_initial_def]
      run_start run_poll [OF sample_repo_postgres] by (meson UNIV_I reachable_step)
  have "config polled_app = sample_config" by (simp add: polled_app_def sample_app_def)
  then show ?thesis
    using scheduled_jobs_are_bounded [OF run sample_int64 two_rows_start,
        of "(start_instance sample_app)\<lparr>application := polled_app\<rparr>"] limit
    by (simp add: sys_polled_def)
qed

section \<open>Runs in which nothing fails\<close>

text \<open>
  C2. Nothing is lost while nothing fails: in a run without database faults, crashes and
  cancellation, from a queue without claimed rows, a row is claimed exactly when one job of one
  running instance stands for it, so every row is pending, finished, or on its way.
\<close>

theorem nothing_is_lost_without_failures:
  assumes "reachable cfgs (faultless_repos ts) calm_kinds q0 sys" and "configs_int64 cfgs" and "queue_reachable ts q0"
    and "\<forall>cfg \<in> cfgs. MaxRetryAttempts cfg \<le> max_int4" and "\<forall>r \<in> set (rows q0). status r \<noteq> Claimed"
    and "r \<in> set (rows (queue sys))"
  shows "status r = Claimed \<longleftrightarrow> count (image_mset QueueItemID (waiting sys + active sys)) (row_id r) = 1"
proof -
  note inv0 = reachable_table_inv [OF assms(3)]
  have start: "item_status it \<noteq> Claimed" if "row_view q0 i = Some it" for i it
    using that assms(5) row_view_Some_iff [OF inv0] by auto
  have "calm_db.calm sys"
    by (rule calm_db.reachable_calm [OF assms(1,2) inv0 assms(4)]) (use start in blast)
  moreover have "calm_db.sys_inv cfgs sys" by (rule calm_db.reachable_inv [OF assms(1,2) inv0])
  then have inv: "table_inv (queue sys)" and core: "core_inv (row_view (queue sys)) (waiting sys) (active sys) (attempts sys)"
    by (simp_all add: calm_db.sys_inv_def)
  have view: "row_view (queue sys) (row_id r) = Some (row_item r)" using row_view_Some_iff [OF inv] assms(6) by blast
  ultimately have "status r = Claimed \<Longrightarrow> row_id r \<in># job_ids (waiting sys + active sys)"
    by (auto simp: calm_db.calm_def held_ids_def)
  moreover have "status r = Claimed" if held: "row_id r \<in># job_ids (waiting sys + active sys)"
  proof -
    have "row_id r \<in> QueueItemID ` set_mset (waiting sys + active sys)" using held by (simp only: set_image_mset)
    then obtain job where "job \<in># waiting sys + active sys" "QueueItemID job = row_id r" by (metis imageE)
    then show ?thesis using core_invD(2) [OF core] view by (fastforce simp: claimed_as_def)
  qed
  moreover have "count (job_ids (waiting sys + active sys)) (row_id r) \<le> 1" by (rule core_invD(1) [OF core])
  ultimately show ?thesis
    by (metis One_nat_def count_eq_zero_iff le_0_eq le_SucE zero_neq_one)
qed

theorem nothing_is_lost_without_failures_witness:
  "count (image_mset QueueItemID (waiting sys_received + active sys_received)) 1 = 1 \<and>
   count (image_mset QueueItemID (waiting sys_received + active sys_received)) 2 \<noteq> 1"
proof -
  have run: "reachable {sample_config} (faultless_repos id) calm_kinds two_rows sys_received"
    by (rule sample_run(1) [OF sample_repo_faultless]) (simp add: calm_kinds_def)
  note lost = nothing_is_lost_without_failures [OF run sample_int64 two_rows_start]
  have "queue sys_received = claimed_queue" by (simp add: sys_received_def)
  then show ?thesis
    using lost [of "claim_row ''n1'' 9 first_row"] lost [of second_row]
    by (simp add: sample_config_def max_int4_def two_rows_eval claimed_queue_def first_row_def second_row_def new_row_def)
qed

end
