(* ===== verification/Counters.thy ===== *)
theory Counters
  imports Runtime_Example
begin

text \<open>
  The counters of an instance at the granularity of the source. Each counter of \<open>/stats\<close> is an
  atomic integer, each Prometheus counter synchronises itself, the list of dead letters has its own
  mutex, and no lock spans two of them: a request to \<open>/stats\<close> or \<open>/metrics\<close> that comes in the middle
  of a worker's round or of an accepted event sees some of its updates and not the others. Here a
  round and an accepted event are lists of single updates, in the order of the source
  (\<open>worker_delivery.go\<close>, \<open>worker_dead_letter.go\<close>, \<open>metrics.go\<close>, \<open>handlers.go\<close>), any number of
  goroutines go through theirs in any interleaving, and the lists are shown to be exactly what the
  sequential definitions of the handlers do.
\<close>

section \<open>The single updates\<close>

datatype counter_op =
    ObserveDuration "string list" duration
  | IncDelivered "string list"
  | IncFailed "string list"
  | IncRetried
  | IncDeadLetter
  | IncReceived
  | AddDelivered
  | AddFailed
  | AddRetried
  | AddDeadLetter
  | AddReceived
  | AppendDeadLetter DeadLetterMessage

fun apply_op :: "counter_op \<Rightarrow> 'q Application \<Rightarrow> 'q Application" where
  "apply_op (ObserveDuration labels d) app = app\<lparr>notifierMetrics := (notifierMetrics app)
    \<lparr>DeliveryDurationHistogram := (DeliveryDurationHistogram (notifierMetrics app))
      (labels := DeliveryDurationHistogram (notifierMetrics app) labels @ [d])\<rparr>\<rparr>"
| "apply_op (IncDelivered labels) app = app\<lparr>notifierMetrics := (notifierMetrics app)
    \<lparr>DeliveredEventsCounter := inc labels (DeliveredEventsCounter (notifierMetrics app))\<rparr>\<rparr>"
| "apply_op (IncFailed labels) app = app\<lparr>notifierMetrics := (notifierMetrics app)
    \<lparr>FailedDeliveriesCounter := inc labels (FailedDeliveriesCounter (notifierMetrics app))\<rparr>\<rparr>"
| "apply_op IncRetried app = app\<lparr>notifierMetrics := (notifierMetrics app)
    \<lparr>RetriedDeliveriesCounter := Suc (RetriedDeliveriesCounter (notifierMetrics app))\<rparr>\<rparr>"
| "apply_op IncDeadLetter app = app\<lparr>notifierMetrics := (notifierMetrics app)
    \<lparr>DeadLetterCounter := Suc (DeadLetterCounter (notifierMetrics app))\<rparr>\<rparr>"
| "apply_op IncReceived app = app\<lparr>notifierMetrics := (notifierMetrics app)
    \<lparr>ReceivedEventsCounter := Suc (ReceivedEventsCounter (notifierMetrics app))\<rparr>\<rparr>"
| "apply_op AddDelivered app = app\<lparr>deliveredEvents := deliveredEvents app + 1\<rparr>"
| "apply_op AddFailed app = app\<lparr>failedDeliveries := failedDeliveries app + 1\<rparr>"
| "apply_op AddRetried app = app\<lparr>retriedDeliveries := retriedDeliveries app + 1\<rparr>"
| "apply_op AddDeadLetter app = app\<lparr>deadLetterCount := deadLetterCount app + 1\<rparr>"
| "apply_op AddReceived app = app\<lparr>receivedEvents := receivedEvents app + 1\<rparr>"
| "apply_op (AppendDeadLetter message) app = app\<lparr>deadLetters := deadLetters app @ [message]\<rparr>"

text \<open>
  The updates of \<open>recordDeliveryMetrics\<close>, and those of the handler that decides the outcome. The call
  of the queue comes after the last of them.
\<close>

definition metrics_ops :: "ExponentialBackoffPolicy \<Rightarrow> DeliveryResult \<Rightarrow> counter_op list" where
  "metrics_ops policy result =
    (let customerID = CustomerID (Event (ResultJob result));
         statusFamily = (if StatusCode result = 0 then ''transport''
           else Itoa (go_div (StatusCode result) 100) @ ''xx'')
     in ObserveDuration [customerID, statusFamily] (Duration result) #
        (if StatusCode result \<ge> 200 \<and> StatusCode result < 300 then [IncDelivered [customerID]]
         else IncFailed [customerID, if ShouldRetry result then ''true'' else ''false''] #
           (if ShouldRetry result \<and> CanRetry policy (Attempt (ResultJob result)) then [IncRetried] else [])))"

definition handler_ops :: "ExponentialBackoffPolicy \<Rightarrow> time \<Rightarrow> DeliveryResult \<Rightarrow> counter_op list" where
  "handler_ops policy now result =
    (if StatusCode result \<ge> 200 \<and> StatusCode result < 300 then [AddDelivered]
     else AddFailed #
       (if ShouldRetry result \<and> CanRetry policy (Attempt (ResultJob result)) then [AddRetried]
        else [AddDeadLetter, IncDeadLetter,
          AppendDeadLetter \<lparr>DeadJob = ResultJob result, DeadFailureReason = FailureReason result, ExhaustedAt = now\<rparr>]))"

definition round_ops :: "ExponentialBackoffPolicy \<Rightarrow> time \<Rightarrow> DeliveryResult \<Rightarrow> counter_op list" where
  "round_ops policy now result = metrics_ops policy result @ handler_ops policy now result"

definition received_ops :: "counter_op list" where
  "received_ops = [AddReceived, IncReceived]"

lemmas ops_defs = round_ops_def metrics_ops_def handler_ops_def received_ops_def Let_def

section \<open>The updates are those of the handlers\<close>

text \<open>Going through the updates of a round is the round, and of an accepted event its reception, up to the log.\<close>

definition run_ops :: "counter_op list \<Rightarrow> 'q Application \<Rightarrow> 'q Application" where
  "run_ops ops app = fold apply_op ops app"

lemma received_ops_correct: "run_ops received_ops app = (received app)\<lparr>logged := logged app\<rparr>"
  by (simp add: run_ops_def received_ops_def received_def log_entry_def Let_def)

lemma metrics_ops_correct: "run_ops (metrics_ops (retryPolicy app) result) app = recordDeliveryMetrics result app"
  by (simp add: run_ops_def metrics_ops_def recordDeliveryMetrics_def Let_def)

lemma log_erased [simp]:
  "(log_failure message failure app)\<lparr>logged := l\<rparr> = app\<lparr>logged := l\<rparr>"
  "(recordDeliveryMetrics result app)\<lparr>logged := l\<rparr> = recordDeliveryMetrics result (app\<lparr>logged := l\<rparr>)"
  "(logDeliveryResult result app)\<lparr>logged := l\<rparr> = app\<lparr>logged := l\<rparr>"
  by (simp_all add: log_failure_def logDeliveryResult_def log_entry_def recordDeliveryMetrics_def Let_def)

text \<open>The attempt and the handlers that follow it, without the log.\<close>

lemma handlers_correct:
  fixes app :: "'q Application"
  assumes "runWorker_job clock ctx job app q = Some (app', q')"
    and "app1 = recordDeliveryMetrics (deliver app ctx job) (logDeliveryResult (deliver app ctx job) app)"
  shows "app'\<lparr>logged := l\<rparr> = (run_ops (handler_ops (retryPolicy app) (clock 0) (deliver app ctx job)) app1)\<lparr>logged := l\<rparr>"
proof -
  let ?r = "deliver app ctx job"
  have policy: "retryPolicy app1 = retryPolicy app" by (simp add: assms(2))
  consider (ok) "200 \<le> StatusCode ?r" "StatusCode ?r < 300"
    | (retry) "StatusCode ?r < 200 \<or> 300 \<le> StatusCode ?r" "ShouldRetry ?r" "CanRetry (retryPolicy app) (Attempt (ResultJob ?r))"
    | (dead) "StatusCode ?r < 200 \<or> 300 \<le> StatusCode ?r"
        "\<not> ShouldRetry ?r \<or> \<not> CanRetry (retryPolicy app) (Attempt (ResultJob ?r))"
    by linarith
  then show ?thesis
  proof cases
    case ok
    then show ?thesis using assms(1) [unfolded runWorker_job_def performDeliveryAttempt_def Let_def, folded assms(2)] policy
      by (auto simp: handleSuccessfulDelivery_def handler_ops_def run_ops_def Let_def split: prod.splits)
  next
    case retry
    then show ?thesis using assms(1) [unfolded runWorker_job_def performDeliveryAttempt_def Let_def, folded assms(2)] policy
      by (auto simp: handleSuccessfulDelivery_def handleRetryableFailure_def handler_ops_def run_ops_def Let_def
          split: prod.splits option.splits)
  next
    case dead
    then show ?thesis using assms(1) [unfolded runWorker_job_def performDeliveryAttempt_def Let_def, folded assms(2)] policy
      by (auto simp: handleSuccessfulDelivery_def handleRetryableFailure_def handlePermanentFailure_def recordDeadLetter_def
          handler_ops_def run_ops_def Let_def split: prod.splits)
  qed
qed

lemma run_ops_log: "(run_ops ops app)\<lparr>logged := l\<rparr> = run_ops ops (app\<lparr>logged := l\<rparr>)"
proof (induction ops arbitrary: app)
  case (Cons update ops)
  have "(apply_op update app)\<lparr>logged := l\<rparr> = apply_op update (app\<lparr>logged := l\<rparr>)" by (cases update) simp_all
  with Cons [of "apply_op update app"] show ?case by (simp add: run_ops_def)
qed (simp add: run_ops_def)

lemma round_ops_correct:
  assumes "runWorker_job clock ctx job app q = Some (app', q')"
  shows "app'\<lparr>logged := l\<rparr> = run_ops (round_ops (retryPolicy app) (clock 0) (deliver app ctx job)) (app\<lparr>logged := l\<rparr>)"
  unfolding handlers_correct [OF assms refl] run_ops_log round_ops_def
  using metrics_ops_correct [of "app\<lparr>logged := l\<rparr>" "deliver app ctx job"]
  by (simp add: run_ops_def)

section \<open>Goroutines that count\<close>

text \<open>
  One list of outstanding updates per worker and one per accepted event. A worker begins a round
  with any result of a delivery; whatever else the program does leaves the counters alone.
\<close>

record 'q counting =
  counted :: "'q Application"
  rounds :: "counter_op list list"
  receptions :: "counter_op list list"

definition same_counters :: "'q Application \<Rightarrow> 'q Application \<Rightarrow> bool" where
  "same_counters app app' \<longleftrightarrow>
    retryPolicy app' = retryPolicy app \<and> deadLetters app' = deadLetters app \<and>
    receivedEvents app' = receivedEvents app \<and> deliveredEvents app' = deliveredEvents app \<and>
    failedDeliveries app' = failedDeliveries app \<and> retriedDeliveries app' = retriedDeliveries app \<and>
    deadLetterCount app' = deadLetterCount app \<and>
    (let m = notifierMetrics app; m' = notifierMetrics app' in
      ReceivedEventsCounter m' = ReceivedEventsCounter m \<and> DeliveredEventsCounter m' = DeliveredEventsCounter m \<and>
      FailedDeliveriesCounter m' = FailedDeliveriesCounter m \<and>
      RetriedDeliveriesCounter m' = RetriedDeliveriesCounter m \<and> DeadLetterCounter m' = DeadLetterCounter m)"

inductive count_step :: "'q counting \<Rightarrow> 'q counting \<Rightarrow> bool" where
  begin_round: "w < length (rounds c) \<Longrightarrow> rounds c ! w = [] \<Longrightarrow>
    count_step c (c\<lparr>rounds := (rounds c)[w := round_ops (retryPolicy (counted c)) now result]\<rparr>)"
| round_update: "w < length (rounds c) \<Longrightarrow> rounds c ! w = update # rest \<Longrightarrow>
    count_step c (c\<lparr>counted := apply_op update (counted c), rounds := (rounds c)[w := rest]\<rparr>)"
| begin_reception: "count_step c (c\<lparr>receptions := receptions c @ [received_ops]\<rparr>)"
| reception_update: "k < length (receptions c) \<Longrightarrow> receptions c ! k = update # rest \<Longrightarrow>
    count_step c (c\<lparr>counted := apply_op update (counted c), receptions := (receptions c)[k := rest]\<rparr>)"
| elsewhere: "same_counters (counted c) app' \<Longrightarrow> count_step c (c\<lparr>counted := app'\<rparr>)"

text \<open>From a new application with as many workers as configured.\<close>

inductive counting_run :: "NotifierConfig \<Rightarrow> 'q counting \<Rightarrow> bool" for cfg where
  counting_start: "NewApplication newRegistry newQueue newScheduler client cfg = Inr app \<Longrightarrow>
    counting_run cfg \<lparr>counted = app, rounds = replicate (nat (WorkerCount cfg)) [], receptions = []\<rparr>"
| counting_step: "counting_run cfg c \<Longrightarrow> count_step c c' \<Longrightarrow> counting_run cfg c'"

definition unfinished :: "counter_op list list \<Rightarrow> int" where
  "unfinished outs = int (length (filter (\<lambda>ops. ops \<noteq> []) outs))"

section \<open>Balances\<close>

text \<open>
  A balance is a difference of two counters that a round and an accepted event change for a moment
  only: the updates that are outstanding make up for it. \<open>in_round\<close> and \<open>in_reception\<close> say whether
  one unfinished round or reception can leave the balance at one.
\<close>

definition finite_labels :: "'q Application \<Rightarrow> bool" where
  "finite_labels app \<longleftrightarrow> finite {l. DeliveredEventsCounter (notifierMetrics app) l \<noteq> 0} \<and>
     finite {l. FailedDeliveriesCounter (notifierMetrics app) l \<noteq> 0}"

lemma finite_labels_op: "finite_labels app \<Longrightarrow> finite_labels (apply_op update app)"
  by (cases update) (simp_all add: finite_labels_def total_inc del: neq0_conv)

abbreviation due :: "(counter_op \<Rightarrow> int) \<Rightarrow> counter_op list \<Rightarrow> int" where
  "due weight ops \<equiv> sum_list (map weight ops)"

definition outstanding :: "(counter_op \<Rightarrow> int) \<Rightarrow> counter_op list list \<Rightarrow> int" where
  "outstanding weight outs = sum_list (map (due weight) outs)"

text \<open>Every rest of a list of updates is due nothing, or one unit when the list is unfinished.\<close>

fun within :: "int \<Rightarrow> (counter_op \<Rightarrow> int) \<Rightarrow> counter_op list \<Rightarrow> bool" where
  "within bound weight [] \<longleftrightarrow> True"
| "within bound weight (update # rest) \<longleftrightarrow>
    - bound \<le> due weight (update # rest) \<and> due weight (update # rest) \<le> 0 \<and> within bound weight rest"

lemma outstanding_update:
  "i < length outs \<Longrightarrow> outstanding weight (outs[i := ops]) = outstanding weight outs - due weight (outs ! i) + due weight ops"
proof (induction outs arbitrary: i)
  case (Cons l outs) then show ?case by (cases i) (auto simp: outstanding_def)
qed simp

lemma outstanding_within:
  "\<forall>ops \<in> set outs. within bound weight ops \<Longrightarrow> 0 \<le> bound \<Longrightarrow>
    - (bound * unfinished outs) \<le> outstanding weight outs \<and> outstanding weight outs \<le> 0"
proof (induction outs)
  case (Cons ops outs)
  then show ?case by (cases ops) (auto simp: outstanding_def unfinished_def algebra_simps)
qed (simp_all add: outstanding_def unfinished_def)

locale balance =
  fixes amount :: "'q Application \<Rightarrow> int" and weight :: "counter_op \<Rightarrow> int" and in_round in_reception :: int
  assumes amount_op: "finite_labels app \<Longrightarrow> amount (apply_op update app) = amount app + weight update"
    and amount_same: "same_counters app app' \<Longrightarrow> amount app' = amount app"
    and amount_new: "NewApplication newRegistry newQueue newScheduler client cfg = Inr app \<Longrightarrow> amount app = 0"
    and round_due: "due weight (round_ops policy now result) = 0"
    and round_within: "within in_round weight (round_ops policy now result)"
    and received_due: "due weight received_ops = 0"
    and received_within: "within in_reception weight received_ops"
    and bounds_pos: "0 \<le> in_round" "0 \<le> in_reception"
begin

definition balance_inv :: "'q counting \<Rightarrow> bool" where
  "balance_inv c \<longleftrightarrow> finite_labels (counted c) \<and>
     amount (counted c) + outstanding weight (rounds c) + outstanding weight (receptions c) = 0 \<and>
     (\<forall>ops \<in> set (rounds c). within in_round weight ops) \<and>
     (\<forall>ops \<in> set (receptions c). within in_reception weight ops)"

lemma balance_step:
  assumes "count_step c c'" and "balance_inv c"
  shows "balance_inv c'"
  using assms
proof (cases rule: count_step.cases)
  case (round_update w update rest)
  have "within in_round weight (update # rest)"
    using assms(2) round_update(2,3) nth_mem by (metis balance_inv_def)
  then show ?thesis using assms(2) round_update amount_op [of "counted c" update]
    by (auto simp: balance_inv_def outstanding_update finite_labels_op dest: set_update_subset_insert [THEN subsetD])
next
  case (reception_update k update rest)
  have "within in_reception weight (update # rest)"
    using assms(2) reception_update(2,3) nth_mem by (metis balance_inv_def)
  then show ?thesis using assms(2) reception_update amount_op [of "counted c" update]
    by (auto simp: balance_inv_def outstanding_update finite_labels_op dest: set_update_subset_insert [THEN subsetD])
next
  case (begin_round w now result)
  then show ?thesis using assms(2) round_due round_within
    by (auto simp: balance_inv_def outstanding_update dest: set_update_subset_insert [THEN subsetD])
next
  case begin_reception
  then show ?thesis using assms(2) received_due received_within by (auto simp: balance_inv_def outstanding_def)
next
  case (elsewhere app')
  then show ?thesis using assms(2) amount_same [OF elsewhere(2)]
    by (auto simp: balance_inv_def finite_labels_def same_counters_def Let_def)
qed

lemma balance_new:
  assumes "NewApplication newRegistry newQueue newScheduler client cfg = Inr app"
  shows "balance_inv \<lparr>counted = app, rounds = replicate n [], receptions = []\<rparr>"
proof -
  have "finite_labels app" using counters_New [OF assms] by (simp add: finite_labels_def counters_inv_def Let_def)
  then show ?thesis using amount_new [OF assms] by (simp add: balance_inv_def outstanding_def map_replicate_const sum_list_replicate)
qed

lemma balance_run: "counting_run cfg c \<Longrightarrow> balance_inv c"
  by (induction rule: counting_run.induct) (auto intro: balance_new balance_step)

lemma balance_bounds:
  assumes "counting_run cfg c"
  shows "0 \<le> amount (counted c) \<and>
    amount (counted c) \<le> in_round * unfinished (rounds c) + in_reception * unfinished (receptions c)"
  using balance_run [OF assms] bounds_pos
    outstanding_within [of "rounds c" in_round weight] outstanding_within [of "receptions c" in_reception weight]
  by (simp add: balance_inv_def)

end

section \<open>The balances of the program\<close>

text \<open>
  The metrics of a delivery are counted before the totals of \<open>/stats\<close>, those of a dead letter and of
  an accepted event after them; a failure is counted before what becomes of it.
\<close>

fun delivered_weight :: "counter_op \<Rightarrow> int" where
  "delivered_weight (IncDelivered _) = 1" | "delivered_weight AddDelivered = - 1" | "delivered_weight _ = 0"

fun failed_weight :: "counter_op \<Rightarrow> int" where
  "failed_weight (IncFailed _) = 1" | "failed_weight AddFailed = - 1" | "failed_weight _ = 0"

fun retried_weight :: "counter_op \<Rightarrow> int" where
  "retried_weight IncRetried = 1" | "retried_weight AddRetried = - 1" | "retried_weight _ = 0"

fun dead_weight :: "counter_op \<Rightarrow> int" where
  "dead_weight AddDeadLetter = 1" | "dead_weight IncDeadLetter = - 1" | "dead_weight _ = 0"

fun list_weight :: "counter_op \<Rightarrow> int" where
  "list_weight IncDeadLetter = 1" | "list_weight (AppendDeadLetter _) = - 1" | "list_weight _ = 0"

fun outcome_weight :: "counter_op \<Rightarrow> int" where
  "outcome_weight AddFailed = 1" | "outcome_weight AddRetried = - 1" | "outcome_weight AddDeadLetter = - 1"
| "outcome_weight _ = 0"

fun received_weight :: "counter_op \<Rightarrow> int" where
  "received_weight AddReceived = 1" | "received_weight IncReceived = - 1" | "received_weight _ = 0"

lemma new_counters:
  assumes "NewApplication newRegistry newQueue newScheduler client cfg = Inr app"
  shows "int (total (DeliveredEventsCounter (notifierMetrics app))) - deliveredEvents app = 0"
    and "int (total (FailedDeliveriesCounter (notifierMetrics app))) - failedDeliveries app = 0"
    and "int (RetriedDeliveriesCounter (notifierMetrics app)) - retriedDeliveries app = 0"
    and "deadLetterCount app - int (DeadLetterCounter (notifierMetrics app)) = 0"
    and "int (DeadLetterCounter (notifierMetrics app)) - int (length (deadLetters app)) = 0"
    and "failedDeliveries app - (retriedDeliveries app + deadLetterCount app) = 0"
    and "receivedEvents app - int (ReceivedEventsCounter (notifierMetrics app)) = 0"
  using counters_New [OF assms] by (simp_all add: counters_inv_def Let_def)

lemmas balance_laws = new_counters same_counters_def finite_labels_def total_inc

interpretation delivered: balance
  "\<lambda>app. int (total (DeliveredEventsCounter (notifierMetrics app))) - deliveredEvents app" delivered_weight 1 0
proof
  show "int (total (DeliveredEventsCounter (notifierMetrics (apply_op update app)))) - deliveredEvents (apply_op update app) =
      int (total (DeliveredEventsCounter (notifierMetrics app))) - deliveredEvents app + delivered_weight update"
    if "finite_labels app" for app :: "'a Application" and update
    using that by (cases update) (simp_all add: balance_laws del: neq0_conv)
qed (simp_all add: balance_laws ops_defs)

interpretation failed: balance
  "\<lambda>app. int (total (FailedDeliveriesCounter (notifierMetrics app))) - failedDeliveries app" failed_weight 1 0
proof
  show "int (total (FailedDeliveriesCounter (notifierMetrics (apply_op update app)))) - failedDeliveries (apply_op update app) =
      int (total (FailedDeliveriesCounter (notifierMetrics app))) - failedDeliveries app + failed_weight update"
    if "finite_labels app" for app :: "'a Application" and update
    using that by (cases update) (simp_all add: balance_laws del: neq0_conv)
qed (simp_all add: balance_laws ops_defs)

interpretation retried: balance
  "\<lambda>app. int (RetriedDeliveriesCounter (notifierMetrics app)) - retriedDeliveries app" retried_weight 1 0
proof
  show "int (RetriedDeliveriesCounter (notifierMetrics (apply_op update app))) - retriedDeliveries (apply_op update app) =
      int (RetriedDeliveriesCounter (notifierMetrics app)) - retriedDeliveries app + retried_weight update"
    for app :: "'a Application" and update by (cases update) simp_all
qed (simp_all add: balance_laws ops_defs)

interpretation buried: balance
  "\<lambda>app. deadLetterCount app - int (DeadLetterCounter (notifierMetrics app))" dead_weight 1 0
proof
  show "deadLetterCount (apply_op update app) - int (DeadLetterCounter (notifierMetrics (apply_op update app))) =
      deadLetterCount app - int (DeadLetterCounter (notifierMetrics app)) + dead_weight update"
    for app :: "'a Application" and update by (cases update) simp_all
qed (simp_all add: balance_laws ops_defs)

interpretation listed: balance
  "\<lambda>app. int (DeadLetterCounter (notifierMetrics app)) - int (length (deadLetters app))" list_weight 1 0
proof
  show "int (DeadLetterCounter (notifierMetrics (apply_op update app))) - int (length (deadLetters (apply_op update app))) =
      int (DeadLetterCounter (notifierMetrics app)) - int (length (deadLetters app)) + list_weight update"
    for app :: "'a Application" and update by (cases update) simp_all
qed (simp_all add: balance_laws ops_defs)

interpretation decided: balance
  "\<lambda>app. failedDeliveries app - (retriedDeliveries app + deadLetterCount app)" outcome_weight 1 0
proof
  show "failedDeliveries (apply_op update app) -
        (retriedDeliveries (apply_op update app) + deadLetterCount (apply_op update app)) =
      failedDeliveries app - (retriedDeliveries app + deadLetterCount app) + outcome_weight update"
    for app :: "'a Application" and update by (cases update) simp_all
qed (simp_all add: balance_laws ops_defs)

interpretation accepted: balance
  "\<lambda>app. receivedEvents app - int (ReceivedEventsCounter (notifierMetrics app))" received_weight 0 1
proof
  show "receivedEvents (apply_op update app) - int (ReceivedEventsCounter (notifierMetrics (apply_op update app))) =
      receivedEvents app - int (ReceivedEventsCounter (notifierMetrics app)) + received_weight update"
    for app :: "'a Application" and update by (cases update) simp_all
qed (simp_all add: balance_laws ops_defs)

lemma workers_bound: "counting_run cfg c \<Longrightarrow> unfinished (rounds c) \<le> int (nat (WorkerCount cfg))"
proof -
  assume "counting_run cfg c"
  then have "length (rounds c) = nat (WorkerCount cfg)"
    by induction (auto elim: count_step.cases)
  then show ?thesis using length_filter_le [of "\<lambda>ops. ops \<noteq> []" "rounds c"] unfolding unfinished_def by linarith
qed

section \<open>What \<open>/stats\<close> and \<open>/metrics\<close> can show\<close>

text \<open>
  C8. The numbers an instance reports agree up to the rounds that are being counted. At every moment,
  for any interleaving of the single updates: failures are the retries and dead letters, the totals
  of \<open>/stats\<close> for deliveries, failures and retries are the Prometheus totals, and the dead-letter
  count, its Prometheus counter and the dead-letter list agree, each of them with a difference of at
  most one for each worker that is in the middle of a round (never more than the number of workers)
  and always with the sign given here; the same for received events and the requests being accepted.
  When no worker is in a round and no event is being accepted, all of them agree exactly.
\<close>

theorem reported_numbers_agree:
  assumes "counting_run cfg c" and "app = counted c" and "m = notifierMetrics app"
    and "busy = unfinished (rounds c)" and "accepting = unfinished (receptions c)"
  shows "busy \<le> int (nat (WorkerCount cfg)) \<and>
    failedDeliveries app - (retriedDeliveries app + deadLetterCount app) \<in> {0..busy} \<and>
    int (total (DeliveredEventsCounter m)) - deliveredEvents app \<in> {0..busy} \<and>
    int (total (FailedDeliveriesCounter m)) - failedDeliveries app \<in> {0..busy} \<and>
    int (RetriedDeliveriesCounter m) - retriedDeliveries app \<in> {0..busy} \<and>
    deadLetterCount app - int (DeadLetterCounter m) \<in> {0..busy} \<and>
    int (DeadLetterCounter m) - int (length (deadLetters app)) \<in> {0..busy} \<and>
    receivedEvents app - int (ReceivedEventsCounter m) \<in> {0..accepting}"
  using workers_bound [OF assms(1)] delivered.balance_bounds [OF assms(1)] failed.balance_bounds [OF assms(1)]
    retried.balance_bounds [OF assms(1)] buried.balance_bounds [OF assms(1)] listed.balance_bounds [OF assms(1)]
    decided.balance_bounds [OF assms(1)] accepted.balance_bounds [OF assms(1)]
  by (simp add: assms(2-5))

text \<open>A worker in the middle of a round: the delivery is counted in the metrics and not yet in \<open>/stats\<close>.\<close>

definition sample_result :: DeliveryResult where
  "sample_result = Deliver sample_http (NewHTTPClient (5 * Second)) None (scan_job first_row)"

definition counting_mid_round :: "queue_db counting" where
  "counting_mid_round =
    \<lparr>counted = run_ops (metrics_ops (retryPolicy sample_app) sample_result) sample_app,
     rounds = [handler_ops (retryPolicy sample_app) 30 sample_result], receptions = []\<rparr>"

lemma sample_result_ops:
  "metrics_ops (retryPolicy sample_app) sample_result = [ObserveDuration [''acme'', ''2xx''] 1, IncDelivered [''acme'']]"
  "handler_ops (retryPolicy sample_app) 30 sample_result = [AddDelivered]"
proof -
  have "Itoa 2 = ''2''" by code_simp
  then show "metrics_ops (retryPolicy sample_app) sample_result = [ObserveDuration [''acme'', ''2xx''] 1, IncDelivered [''acme'']]"
    by (simp add: metrics_ops_def sample_result_def Deliver_def attempt_result_def sample_http_def
        scan_job_def first_row_def new_row_def sample_event_def go_div_def Let_def time_Sub_def)
  show "handler_ops (retryPolicy sample_app) 30 sample_result = [AddDelivered]"
    by (simp add: handler_ops_def sample_result_def Deliver_def attempt_result_def sample_http_def)
qed

lemma counting_mid_round: "counting_run sample_config counting_mid_round"
proof -
  let ?ops = "[ObserveDuration [''acme'', ''2xx''] 1, IncDelivered [''acme''], AddDelivered]"
  let ?c = "\<lambda>app ops. \<lparr>counted = app, rounds = [ops], receptions = []\<rparr>"
  have update: "counting_run sample_config (?c app (u # rest)) \<Longrightarrow> counting_run sample_config (?c (apply_op u app) rest)"
    for app :: "queue_db Application" and u rest
    by (erule counting_step) (use round_update [of 0 "?c app (u # rest)" u rest] in simp)
  have "counting_run sample_config (?c sample_app [])"
    using counting_start [OF sample_new] by (simp add: sample_config_def)
  then have "counting_run sample_config (?c sample_app ?ops)"
    by (rule counting_step) (use begin_round [of 0 "?c sample_app []" 30 sample_result] in \<open>simp add: round_ops_def sample_result_ops\<close>)
  then have "counting_run sample_config
      (?c (apply_op (IncDelivered [''acme'']) (apply_op (ObserveDuration [''acme'', ''2xx''] 1) sample_app)) [AddDelivered])"
    by (intro update)
  then show ?thesis by (simp add: counting_mid_round_def sample_result_ops run_ops_def)
qed

lemma mid_round_values:
  "deliveredEvents (counted counting_mid_round) = 0"
  "DeliveredEventsCounter (notifierMetrics (counted counting_mid_round)) [''acme''] = 1"
  "unfinished (rounds counting_mid_round) = 1"
  unfolding counting_mid_round_def sample_result_ops
  by (simp_all add: unfinished_def run_ops_def inc_def sample_app_def NewNotifierMetrics_def)

theorem reported_numbers_agree_witness:
  "int (total (DeliveredEventsCounter (notifierMetrics (counted counting_mid_round)))) -
     deliveredEvents (counted counting_mid_round) \<in> {0..1} \<and>
   deliveredEvents (counted counting_mid_round) = 0 \<and>
   DeliveredEventsCounter (notifierMetrics (counted counting_mid_round)) [''acme''] = 1"
  using reported_numbers_agree [OF counting_mid_round refl refl refl refl] by (simp add: mid_round_values)

end
