(* ===== verification/Transport.thy ===== *)
theory Transport
  imports Notifier_Correct
begin

text \<open>
  What \<open>isRetryableTransportError\<close> (\<open>internal/delivery/http_client.go\<close>) makes of the errors of the
  standard library's HTTP client, and what becomes of the delivery. An error of \<open>http.Client.Do\<close> is
  always a \<open>*url.Error\<close> around a cause; a \<open>*url.Error\<close> implements \<open>net.Error\<close> by asking its cause. The
  causes are those of the packages \<open>syscall\<close>, \<open>os\<close>, \<open>net\<close>, \<open>context\<close> and \<open>net/http\<close>, with the texts of
  Linux. \<open>Timeout\<close> and \<open>Temporary\<close> are asked for by a type assertion: a cause without the method counts
  as a no.
\<close>

section \<open>Causes\<close>









section \<open>What is retried\<close>







section \<open>What becomes of the delivery\<close>





end
