(* ===== verification/MockReceiver.thy ===== *)
theory MockReceiver
  imports Complex_Main Config Httpx Contracts
begin

text \<open>
  The mock webhook receiver (\<open>internal/mockreceiver\<close>): scenarios per customer, counters and
  statistics. A Go map is a reference, so the event-type counts of a customer are kept in a heap of
  maps (\<open>counts_heap\<close>), and what a snapshot hands to the JSON encoder after the lock is released
  holds references too. The structs behind \<open>customerStats\<close> and the decoded events are never reached
  from outside their owner and are plain values. A \<open>float64\<close> is the rational number it stands for;
  the draws of the random source are the function \<open>float64\<close>, and the state counts them. Counters
  that only grow by one are integers; the sum of latencies is wrapped.
\<close>

section \<open>State\<close>

record Scenario =
  Mode :: string
  DelayMilliseconds :: go_int
  FailureProbability :: rat

type_synonym map_ref = nat

record CustomerStatistics =
  stat_CustomerID :: string
  stat_Received :: int
  stat_Success :: int
  stat_Failed :: int
  PayloadDecodeFailures :: int
  PathPayloadCustomerMismatches :: int
  EventTypeCounts :: map_ref
  LastEvent :: "SubscriberEvent option"

record Statistics =
  all_Received :: int
  all_Success :: int
  all_Failed :: int
  AverageLatencyMs :: int
  Customers :: "string \<rightharpoonup> CustomerStatistics"

record receiver =
  scenarios :: "string \<rightharpoonup> Scenario"
  receivedCount :: int
  successCount :: int
  failedCount :: int
  totalLatencyMs :: int
  customerStats :: "string \<rightharpoonup> CustomerStatistics"
  counts_heap :: "map_ref \<Rightarrow> (string \<Rightarrow> int)"
  next_ref :: map_ref
  draws :: nat

definition recv_NewApplication :: receiver where
  "recv_NewApplication = \<lparr>scenarios = Map.empty, receivedCount = 0, successCount = 0, failedCount = 0,
     totalLatencyMs = 0, customerStats = Map.empty, counts_heap = (\<lambda>_ _. 0), next_ref = 0, draws = 0\<rparr>"

text \<open>\<open>make(map[string]int64)\<close>: a new reference to an empty map; a missing key reads as zero.\<close>

definition make_map :: "receiver \<Rightarrow> map_ref \<times> receiver" where
  "make_map app = (next_ref app, app\<lparr>counts_heap := (counts_heap app)(next_ref app := (\<lambda>_. 0)), next_ref := Suc (next_ref app)\<rparr>)"

section \<open>Scenarios\<close>

definition success_scenario :: Scenario where
  "success_scenario = \<lparr>Mode = ''success'', DelayMilliseconds = 0, FailureProbability = 0\<rparr>"

definition lookupScenario :: "receiver \<Rightarrow> string \<Rightarrow> Scenario" where
  "lookupScenario app customerID =
    (case scenarios app customerID of None \<Rightarrow> success_scenario | Some scenario \<Rightarrow> scenario)"

definition resolveStatusCode :: "(nat \<Rightarrow> rat) \<Rightarrow> Scenario \<Rightarrow> receiver \<Rightarrow> go_int \<times> receiver" where
  "resolveStatusCode float64 scenario app =
    (let mode = ToLower (TrimSpace (Mode scenario))
     in if mode = ''timeout'' then (504, app)
        else if mode = ''error500'' then (500, app)
        else if mode = ''error400'' then (400, app)
        else if mode = ''unauthorized'' then (401, app)
        else if mode = ''random''
        then (if float64 (draws app) < FailureProbability scenario then 500 else 200, app\<lparr>draws := Suc (draws app)\<rparr>)
        else (200, app))"

section \<open>Statistics\<close>

definition recordCustomerStatistic :: "string \<Rightarrow> go_error + SubscriberEvent \<Rightarrow> go_int \<Rightarrow> receiver \<Rightarrow> receiver" where
  "recordCustomerStatistic customerID decoded statusCode app =
    (case (case customerStats app customerID of
             Some found \<Rightarrow> (found, app)
           | None \<Rightarrow> (case make_map app of (ref, app1) \<Rightarrow>
               (\<lparr>stat_CustomerID = customerID, stat_Received = 0, stat_Success = 0, stat_Failed = 0,
                 PayloadDecodeFailures = 0, PathPayloadCustomerMismatches = 0, EventTypeCounts = ref,
                 LastEvent = None\<rparr>, app1))) of
       (statistic, app1) \<Rightarrow>
        (let counted = statistic\<lparr>stat_Received := stat_Received statistic + 1\<rparr>;
             judged = (if statusCode \<ge> 200 \<and> statusCode < 300
                       then counted\<lparr>stat_Success := stat_Success counted + 1\<rparr>
                       else counted\<lparr>stat_Failed := stat_Failed counted + 1\<rparr>)
         in case decoded of
              Inl e \<Rightarrow> app1\<lparr>customerStats := (customerStats app1)(customerID \<mapsto>
                 judged\<lparr>PayloadDecodeFailures := PayloadDecodeFailures judged + 1\<rparr>)\<rparr>
            | Inr ev \<Rightarrow>
                (let seen = judged\<lparr>LastEvent := Some ev\<rparr>;
                     ref = EventTypeCounts seen;
                     counts = counts_heap app1 ref;
                     app2 = app1\<lparr>counts_heap := (counts_heap app1)(ref := counts(EventType ev := counts (EventType ev) + 1))\<rparr>;
                     checked = (if CustomerID ev \<noteq> customerID
                       then seen\<lparr>PathPayloadCustomerMismatches := PathPayloadCustomerMismatches seen + 1\<rparr> else seen)
                 in app2\<lparr>customerStats := (customerStats app2)(customerID \<mapsto> checked)\<rparr>)))"

text \<open>The copying loop over the event types is a copy of the map into a new one.\<close>

definition cloneCustomerStatistics :: "CustomerStatistics \<Rightarrow> receiver \<Rightarrow> CustomerStatistics \<times> receiver" where
  "cloneCustomerStatistics customerStatistic app =
    (case make_map app of (ref, app1) \<Rightarrow>
       (customerStatistic\<lparr>EventTypeCounts := ref\<rparr>,
        app1\<lparr>counts_heap := (counts_heap app1)(ref := counts_heap app1 (EventTypeCounts customerStatistic))\<rparr>))"

definition snapshotCustomerStatistic :: "string \<Rightarrow> receiver \<Rightarrow> CustomerStatistics \<times> receiver" where
  "snapshotCustomerStatistic customerID app =
    (case customerStats app customerID of
       None \<Rightarrow> (case make_map app of (ref, app1) \<Rightarrow>
         (\<lparr>stat_CustomerID = customerID, stat_Received = 0, stat_Success = 0, stat_Failed = 0,
           PayloadDecodeFailures = 0, PathPayloadCustomerMismatches = 0, EventTypeCounts = ref,
           LastEvent = None\<rparr>, app1))
     | Some customerStatistic \<Rightarrow> cloneCustomerStatistics customerStatistic app)"

text \<open>The loop over \<open>customerStats\<close>, in the order \<open>range\<close> visits the customers.\<close>

fun clone_all :: "string list \<Rightarrow> (string \<rightharpoonup> CustomerStatistics) \<Rightarrow> receiver \<Rightarrow>
    (string \<rightharpoonup> CustomerStatistics) \<times> receiver" where
  "clone_all [] cloned app = (cloned, app)"
| "clone_all (customerID # rest) cloned app =
    (case customerStats app customerID of
       None \<Rightarrow> clone_all rest cloned app
     | Some customerStatistic \<Rightarrow>
        (case cloneCustomerStatistics customerStatistic app of
           (clone, app1) \<Rightarrow> clone_all rest (cloned(customerID \<mapsto> clone)) app1))"

definition snapshotCustomerStatistics :: "string list \<Rightarrow> receiver \<Rightarrow> (string \<rightharpoonup> CustomerStatistics) \<times> receiver" where
  "snapshotCustomerStatistics order app = clone_all order Map.empty app"

section \<open>Handlers\<close>

datatype receiver_payload =
    ReceiverError string
  | WebhookAnswer string string go_int
  | ScenarioAnswer string Scenario
  | StatisticsAnswer Statistics
  | CustomerAnswer CustomerStatistics
  | ReceiverStatus string

text \<open>\<open>Duration.Milliseconds\<close> divides with truncation.\<close>

definition handleWebhook :: "(nat \<Rightarrow> rat) \<Rightarrow> (nat \<Rightarrow> time) \<Rightarrow> string \<Rightarrow> go_error + SubscriberEvent \<Rightarrow> receiver \<Rightarrow>
    receiver_payload reply \<times> receiver" where
  "handleWebhook float64 clock customerID decoded app =
    (if TrimSpace customerID = [] then (WriteError ReceiverError StatusBadRequest ''customerId is required'', app)
     else
       (let app1 = app\<lparr>receivedCount := receivedCount app + 1\<rparr>;
            scenario = lookupScenario app1 customerID
        in case resolveStatusCode float64 scenario app1 of (statusCode, app2) \<Rightarrow>
            (let latencyMilliseconds = go_div (time_Sub (clock 1) (clock 0)) Millisecond;
                 app3 = app2\<lparr>totalLatencyMs := wrap64 (totalLatencyMs app2 + latencyMilliseconds)\<rparr>;
                 app4 = (if statusCode \<ge> 200 \<and> statusCode < 300
                         then app3\<lparr>successCount := successCount app3 + 1\<rparr>
                         else app3\<lparr>failedCount := failedCount app3 + 1\<rparr>)
             in (WriteJSON statusCode (Some (WebhookAnswer customerID (Mode scenario) statusCode)),
                 recordCustomerStatistic customerID decoded statusCode app4))))"

definition handleScenarioConfig :: "string \<Rightarrow> go_error + Scenario \<Rightarrow> receiver \<Rightarrow> receiver_payload reply \<times> receiver" where
  "handleScenarioConfig customerID decoded app =
    (if TrimSpace customerID = [] then (WriteError ReceiverError StatusBadRequest ''customerId is required'', app)
     else case decoded of
       Inl decodeError \<Rightarrow> (WriteError ReceiverError StatusBadRequest (error_text decodeError), app)
     | Inr received \<Rightarrow>
        (let scenario = (if Mode received = [] then received\<lparr>Mode := ''success''\<rparr> else received)
         in (WriteJSON StatusOK (Some (ScenarioAnswer customerID scenario)),
             app\<lparr>scenarios := (scenarios app)(customerID \<mapsto> scenario)\<rparr>)))"

definition recv_handleStats :: "string list \<Rightarrow> receiver \<Rightarrow> receiver_payload reply \<times> receiver" where
  "recv_handleStats order app =
    (let received = receivedCount app;
         averageLatency = (if received > 0 then go_div (totalLatencyMs app) received else 0)
     in case snapshotCustomerStatistics order app of (customers, app1) \<Rightarrow>
       (WriteJSON StatusOK (Some (StatisticsAnswer \<lparr>all_Received = received, all_Success = successCount app,
          all_Failed = failedCount app, AverageLatencyMs = averageLatency, Customers = customers\<rparr>)), app1))"

definition handleCustomerStats :: "string \<Rightarrow> receiver \<Rightarrow> receiver_payload reply \<times> receiver" where
  "handleCustomerStats customerID app =
    (if TrimSpace customerID = [] then (WriteError ReceiverError StatusBadRequest ''customerId is required'', app)
     else case snapshotCustomerStatistic customerID app of (statistic, app1) \<Rightarrow>
       (WriteJSON StatusOK (Some (CustomerAnswer statistic)), app1))"

definition handleResetStats :: "receiver \<Rightarrow> receiver_payload reply \<times> receiver" where
  "handleResetStats app =
    (WriteJSON StatusOK (Some (ReceiverStatus ''reset'')),
     app\<lparr>receivedCount := 0, successCount := 0, failedCount := 0, totalLatencyMs := 0, customerStats := Map.empty\<rparr>)"

definition recv_handleHealth :: "receiver_payload reply" where
  "recv_handleHealth = WriteJSON StatusOK (Some (ReceiverStatus ''ok''))"

end
