(* ===== verification/MockReceiver_Correct.thy ===== *)
theory MockReceiver_Correct
  imports MockReceiver
begin

text \<open>
  The receiver's statistics: the invariant of every state its requests can reach, that what a
  snapshot hands out is not changed by later requests (the purpose of the cloning), and scenarios.
  Requests are taken one after another here; \<open>MockReceiver_Concurrent\<close> lets them overlap.
\<close>

section \<open>Requests\<close>

inductive receiver_step :: "receiver \<Rightarrow> receiver \<Rightarrow> bool" where
  step_webhook: "handleWebhook float64 clock customerID decoded app = (answer, app') \<Longrightarrow> receiver_step app app'"
| step_config: "handleScenarioConfig customerID decoded_scenario app = (answer, app') \<Longrightarrow> receiver_step app app'"
| step_stats: "recv_handleStats order app = (answer, app') \<Longrightarrow> receiver_step app app'"
| step_customer: "handleCustomerStats customerID app = (answer, app') \<Longrightarrow> receiver_step app app'"
| step_reset: "handleResetStats app = (answer, app') \<Longrightarrow> receiver_step app app'"

inductive receiver_reachable :: "receiver \<Rightarrow> bool" where
  receiver_new: "receiver_reachable recv_NewApplication"
| receiver_next: "receiver_reachable app \<Longrightarrow> receiver_step app app' \<Longrightarrow> receiver_reachable app'"

section \<open>The invariant\<close>

definition counted :: "(string \<Rightarrow> int) \<Rightarrow> int" where
  "counted f = (\<Sum>t \<in> {t. f t \<noteq> 0}. f t)"

lemma counted_over: "finite A \<Longrightarrow> {t. f t \<noteq> 0} \<subseteq> A \<Longrightarrow> counted f = sum f A"
  unfolding counted_def by (rule sum.mono_neutral_left) auto

lemma counted_inc:
  assumes "finite {t. f t \<noteq> 0}"
  shows "counted (f(t := f t + 1)) = counted f + 1" and "finite {x. (f(t := f t + 1)) x \<noteq> 0}"
proof -
  let ?A = "insert t {t. f t \<noteq> 0}"
  show "finite {x. (f(t := f t + 1)) x \<noteq> 0}"
    by (rule finite_subset [of _ ?A]) (use assms in auto)
  have "counted (f(t := f t + 1)) = sum (f(t := f t + 1)) ?A" and "counted f = sum f ?A"
    by (rule counted_over; use assms in auto)+
  moreover have "sum (f(t := f t + 1)) ?A = sum f ?A + 1"
    using assms by (simp add: sum.insert_remove sum.cong [of "{t. f t \<noteq> 0} - {t}" _ "f(t := f t + 1)" f])
  ultimately show "counted (f(t := f t + 1)) = counted f + 1" by simp
qed

definition statistic_inv :: "(map_ref \<Rightarrow> string \<Rightarrow> int) \<Rightarrow> string \<Rightarrow> CustomerStatistics \<Rightarrow> bool" where
  "statistic_inv heap c st \<longleftrightarrow> stat_CustomerID st = c \<and> 0 \<le> stat_Success st \<and> 0 \<le> stat_Failed st \<and>
     stat_Received st = stat_Success st + stat_Failed st \<and>
     0 \<le> PayloadDecodeFailures st \<and> 0 \<le> PathPayloadCustomerMismatches st \<and>
     finite {t. heap (EventTypeCounts st) t \<noteq> 0} \<and>
     stat_Received st = PayloadDecodeFailures st + counted (heap (EventTypeCounts st)) \<and>
     PathPayloadCustomerMismatches st + PayloadDecodeFailures st \<le> stat_Received st \<and>
     (LastEvent st = None \<longleftrightarrow> counted (heap (EventTypeCounts st)) = 0)"

definition refs_inv :: "receiver \<Rightarrow> bool" where
  "refs_inv app \<longleftrightarrow> (\<forall>c st. customerStats app c = Some st \<longrightarrow> EventTypeCounts st < next_ref app) \<and>
     (\<forall>c c' st st'. customerStats app c = Some st \<longrightarrow> customerStats app c' = Some st' \<longrightarrow>
        EventTypeCounts st = EventTypeCounts st' \<longrightarrow> c = c')"

definition over_customers :: "(CustomerStatistics \<Rightarrow> int) \<Rightarrow> receiver \<Rightarrow> int" where
  "over_customers f app = (\<Sum>c \<in> dom (customerStats app). f (the (customerStats app c)))"

definition receiver_inv :: "receiver \<Rightarrow> bool" where
  "receiver_inv app \<longleftrightarrow> refs_inv app \<and> finite (dom (customerStats app)) \<and>
     (\<forall>c st. customerStats app c = Some st \<longrightarrow> statistic_inv (counts_heap app) c st) \<and>
     receivedCount app = over_customers stat_Received app \<and> successCount app = over_customers stat_Success app \<and>
     failedCount app = over_customers stat_Failed app"

lemma over_customers_upd:
  assumes "finite (dom (customerStats app))"
  shows "over_customers f (app\<lparr>customerStats := (customerStats app)(c \<mapsto> st)\<rparr>) =
    over_customers f app - (case customerStats app c of None \<Rightarrow> 0 | Some old \<Rightarrow> f old) + f st"
proof -
  let ?D = "dom (customerStats app) - {c}"
  have "over_customers f (app\<lparr>customerStats := (customerStats app)(c \<mapsto> st)\<rparr>) = f st + (\<Sum>d \<in> ?D. f (the (customerStats app d)))"
    using assms unfolding over_customers_def by (simp add: sum.insert_remove)
  moreover have "over_customers f app = (case customerStats app c of None \<Rightarrow> 0 | Some old \<Rightarrow> f old) + (\<Sum>d \<in> ?D. f (the (customerStats app d)))"
    using assms unfolding over_customers_def
    by (cases "customerStats app c") (simp_all add: sum.remove [of _ c] domI domIff)
  ultimately show ?thesis by simp
qed

definition fresh_statistic :: "string \<Rightarrow> map_ref \<Rightarrow> CustomerStatistics" where
  "fresh_statistic c ref = \<lparr>stat_CustomerID = c, stat_Received = 0, stat_Success = 0, stat_Failed = 0,
     PayloadDecodeFailures = 0, PathPayloadCustomerMismatches = 0, EventTypeCounts = ref, LastEvent = None\<rparr>"

text \<open>The statistic a request starts from, and the state with its map allocated.\<close>

definition start_statistic :: "string \<Rightarrow> receiver \<Rightarrow> CustomerStatistics" where
  "start_statistic c app = (case customerStats app c of Some st \<Rightarrow> st | None \<Rightarrow> fresh_statistic c (next_ref app))"

definition start_state :: "string \<Rightarrow> receiver \<Rightarrow> receiver" where
  "start_state c app = (case customerStats app c of Some st \<Rightarrow> app | None \<Rightarrow> snd (make_map app))"

lemma make_map_simps [simp]:
  "fst (make_map app) = next_ref app" "customerStats (snd (make_map app)) = customerStats app"
  "next_ref (snd (make_map app)) = Suc (next_ref app)"
  "counts_heap (snd (make_map app)) = (counts_heap app)(next_ref app := (\<lambda>_. 0))"
  by (simp_all add: make_map_def)

lemma start_statistic_inv:
  assumes "\<forall>c st. customerStats app c = Some st \<longrightarrow> statistic_inv (counts_heap app) c st"
  shows "statistic_inv (counts_heap (start_state c app)) c (start_statistic c app)"
proof (cases "customerStats app c")
  case None
  then show ?thesis
    by (simp add: start_state_def start_statistic_def fresh_statistic_def statistic_inv_def counted_def)
next
  case (Some st)
  then show ?thesis using assms by (simp add: start_state_def start_statistic_def)
qed

text \<open>How one request changes the statistic of its customer and the map behind it.\<close>

definition judged :: "go_int \<Rightarrow> CustomerStatistics \<Rightarrow> CustomerStatistics" where
  "judged code st = st\<lparr>stat_Received := stat_Received st + 1,
     stat_Success := stat_Success st + (if is_2xx code then 1 else 0),
     stat_Failed := stat_Failed st + (if is_2xx code then 0 else 1)\<rparr>"

definition recorded :: "go_error + SubscriberEvent \<Rightarrow> go_int \<Rightarrow> string \<Rightarrow> CustomerStatistics \<Rightarrow> CustomerStatistics" where
  "recorded decoded code c st = (case decoded of
     Inl e \<Rightarrow> (judged code st)\<lparr>PayloadDecodeFailures := PayloadDecodeFailures st + 1\<rparr>
   | Inr ev \<Rightarrow> (judged code st)\<lparr>LastEvent := Some ev, PathPayloadCustomerMismatches :=
       PathPayloadCustomerMismatches st + (if CustomerID ev \<noteq> c then 1 else 0)\<rparr>)"

definition recorded_heap :: "go_error + SubscriberEvent \<Rightarrow> map_ref \<Rightarrow> (map_ref \<Rightarrow> string \<Rightarrow> int) \<Rightarrow> (map_ref \<Rightarrow> string \<Rightarrow> int)" where
  "recorded_heap decoded ref heap = (case decoded of Inl e \<Rightarrow> heap
   | Inr ev \<Rightarrow> heap(ref := (heap ref)(EventType ev := heap ref (EventType ev) + 1)))"

lemma recordCustomerStatistic_effect:
  "recordCustomerStatistic c decoded code app = (start_state c app)
    \<lparr>counts_heap := recorded_heap decoded (EventTypeCounts (start_statistic c app)) (counts_heap (start_state c app)),
     customerStats := (customerStats app)(c \<mapsto> recorded decoded code c (start_statistic c app))\<rparr>"
  by (cases "customerStats app c"; cases decoded)
     (simp_all add: recordCustomerStatistic_def start_state_def start_statistic_def fresh_statistic_def make_map_def
       recorded_def recorded_heap_def judged_def Let_def)

lemma recorded_inv:
  assumes "statistic_inv heap c st"
  shows "statistic_inv (recorded_heap decoded (EventTypeCounts st) heap) c (recorded decoded code c st)"
proof (cases decoded)
  case (Inl e)
  then show ?thesis using assms by (auto simp: statistic_inv_def recorded_def recorded_heap_def judged_def)
next
  case (Inr ev)
  let ?f = "heap (EventTypeCounts st)"
  have "finite {t. ?f t \<noteq> 0}" and "0 \<le> counted ?f" using assms by (auto simp: statistic_inv_def)
  with counted_inc [OF this(1), of "EventType ev"] assms Inr show ?thesis
    by (auto simp: statistic_inv_def recorded_def recorded_heap_def judged_def)
qed

lemma statistic_inv_cong: "heap (EventTypeCounts st) = heap' (EventTypeCounts st) \<Longrightarrow> statistic_inv heap c st = statistic_inv heap' c st"
  by (simp add: statistic_inv_def)

lemma refs_invD:
  assumes "refs_inv app" and "customerStats app c = Some st"
  shows "EventTypeCounts st < next_ref app"
    and "customerStats app c' = Some st' \<Longrightarrow> EventTypeCounts st = EventTypeCounts st' \<Longrightarrow> c = c'"
  using assms by (simp_all add: refs_inv_def)

lemma start_ref:
  assumes "refs_inv app" and "customerStats app d = Some st" and "d \<noteq> c"
  shows "EventTypeCounts st \<noteq> EventTypeCounts (start_statistic c app)"
proof (cases "customerStats app c")
  case None
  then show ?thesis using refs_invD(1) [OF assms(1,2)] by (simp add: start_statistic_def fresh_statistic_def)
next
  case (Some st')
  then show ?thesis using refs_invD(2) [OF assms(1,2) Some] assms(3) by (auto simp: start_statistic_def)
qed

lemma start_bound:
  assumes "refs_inv app"
  shows "EventTypeCounts (start_statistic c app) < next_ref (start_state c app)"
    and "next_ref app \<le> next_ref (start_state c app)"
  using refs_invD(1) [OF assms]
  by (cases "customerStats app c"; simp add: start_statistic_def start_state_def fresh_statistic_def)+

lemma recorded_ref [simp]: "EventTypeCounts (recorded decoded code c st) = EventTypeCounts st"
  by (simp add: recorded_def judged_def split: sum.split)

lemma record_refs:
  assumes inv: "refs_inv app"
  shows "refs_inv (recordCustomerStatistic c decoded code app)"
  unfolding recordCustomerStatistic_effect refs_inv_def
proof (intro conjI allI impI)
  let ?app = "(start_state c app)\<lparr>counts_heap := recorded_heap decoded (EventTypeCounts (start_statistic c app)) (counts_heap (start_state c app)),
     customerStats := (customerStats app)(c \<mapsto> recorded decoded code c (start_statistic c app))\<rparr>"
  fix d st
  assume d: "customerStats ?app d = Some st"
  then have d': "d \<noteq> c \<Longrightarrow> customerStats app d = Some st" by simp
  show "EventTypeCounts st < next_ref ?app"
    using d start_bound [OF inv, of c] refs_invD(1) [OF inv d'] by (cases "d = c") auto
  fix e st'
  assume e: "customerStats ?app e = Some st'" and same: "EventTypeCounts st = EventTypeCounts st'"
  then have e': "e \<noteq> c \<Longrightarrow> customerStats app e = Some st'" by simp
  show "d = e"
  proof (rule ccontr)
    assume "d \<noteq> e"
    then consider "d = c" "e \<noteq> c" | "d \<noteq> c" "e = c" | "d \<noteq> c" "e \<noteq> c" by blast
    then show False
    proof cases
      case 1
      then show ?thesis using d same start_ref [OF inv e' [OF 1(2)] 1(2)] by auto
    next
      case 2
      then show ?thesis using e same start_ref [OF inv d' [OF 2(1)] 2(1)] by auto
    next
      case 3
      then show ?thesis using refs_invD(2) [OF inv d' e'] same \<open>d \<noteq> e\<close> by simp
    qed
  qed
qed

lemma record_inv:
  assumes inv: "refs_inv app" "finite (dom (customerStats app))"
    "\<forall>c st. customerStats app c = Some st \<longrightarrow> statistic_inv (counts_heap app) c st"
  shows "\<forall>d st. customerStats (recordCustomerStatistic c decoded code app) d = Some st \<longrightarrow>
      statistic_inv (counts_heap (recordCustomerStatistic c decoded code app)) d st"
    and "finite (dom (customerStats (recordCustomerStatistic c decoded code app)))"
proof -
  let ?st = "start_statistic c app"
  show "finite (dom (customerStats (recordCustomerStatistic c decoded code app)))"
    using inv(2) by (simp add: recordCustomerStatistic_effect)
  show "\<forall>d st. customerStats (recordCustomerStatistic c decoded code app) d = Some st \<longrightarrow>
      statistic_inv (counts_heap (recordCustomerStatistic c decoded code app)) d st"
  proof (intro allI impI)
    fix d st
    assume d: "customerStats (recordCustomerStatistic c decoded code app) d = Some st"
    show "statistic_inv (counts_heap (recordCustomerStatistic c decoded code app)) d st"
    proof (cases "d = c")
      case True
      then show ?thesis
        using d recorded_inv [OF start_statistic_inv [OF inv(3), of c], of decoded code]
        by (simp add: recordCustomerStatistic_effect)
    next
      case False
      then have st: "customerStats app d = Some st" using d by (simp add: recordCustomerStatistic_effect)
      have "counts_heap (recordCustomerStatistic c decoded code app) (EventTypeCounts st) = counts_heap app (EventTypeCounts st)"
        using start_ref [OF inv(1) st False] refs_invD(1) [OF inv(1) st]
        by (cases "customerStats app c")
           (simp_all add: recordCustomerStatistic_effect recorded_heap_def start_state_def split: sum.split)
      then show ?thesis using inv(3) st statistic_inv_cong by metis
    qed
  qed
qed

lemma record_sums:
  assumes "finite (dom (customerStats app))"
  shows "over_customers stat_Received (recordCustomerStatistic c decoded code app) = over_customers stat_Received app + 1"
    and "over_customers stat_Success (recordCustomerStatistic c decoded code app) =
      over_customers stat_Success app + (if is_2xx code then 1 else 0)"
    and "over_customers stat_Failed (recordCustomerStatistic c decoded code app) =
      over_customers stat_Failed app + (if is_2xx code then 0 else 1)"
proof -
  have sum: "over_customers f (recordCustomerStatistic c decoded code app) = over_customers f app -
      (case customerStats app c of None \<Rightarrow> 0 | Some old \<Rightarrow> f old) + f (recorded decoded code c (start_statistic c app))" for f
    using over_customers_upd [OF assms, of f c "recorded decoded code c (start_statistic c app)"]
    by (simp add: recordCustomerStatistic_effect over_customers_def)
  show "over_customers stat_Received (recordCustomerStatistic c decoded code app) = over_customers stat_Received app + 1"
    and "over_customers stat_Success (recordCustomerStatistic c decoded code app) =
      over_customers stat_Success app + (if is_2xx code then 1 else 0)"
    and "over_customers stat_Failed (recordCustomerStatistic c decoded code app) =
      over_customers stat_Failed app + (if is_2xx code then 0 else 1)"
    unfolding sum
    by (cases "customerStats app c"; simp add: recorded_def judged_def start_statistic_def fresh_statistic_def split: sum.split)+
qed

lemma record_frame:
  "receivedCount (recordCustomerStatistic c decoded code app) = receivedCount app"
  "successCount (recordCustomerStatistic c decoded code app) = successCount app"
  "failedCount (recordCustomerStatistic c decoded code app) = failedCount app"
  by (cases "customerStats app c"; simp add: recordCustomerStatistic_effect start_state_def make_map_def)+

text \<open>Snapshots only allocate.\<close>

definition allocates :: "receiver \<Rightarrow> receiver \<Rightarrow> bool" where
  "allocates app app' \<longleftrightarrow> app' = app\<lparr>counts_heap := counts_heap app', next_ref := next_ref app'\<rparr> \<and>
     next_ref app \<le> next_ref app' \<and> (\<forall>r < next_ref app. counts_heap app' r = counts_heap app r)"

lemma allocates_refl: "allocates app app"
  by (simp add: allocates_def)

lemma allocates_trans:
  assumes "allocates app app1" and "allocates app1 app2"
  shows "allocates app app2"
proof -
  have "app2 = app1\<lparr>counts_heap := counts_heap app2, next_ref := next_ref app2\<rparr>"
    and "app1 = app\<lparr>counts_heap := counts_heap app1, next_ref := next_ref app1\<rparr>"
    using assms unfolding allocates_def by blast+
  then have "app2 = app\<lparr>counts_heap := counts_heap app2, next_ref := next_ref app2\<rparr>"
    by (cases app; cases app1; cases app2) simp
  then show ?thesis using assms unfolding allocates_def by auto
qed

lemma clone_allocates: "cloneCustomerStatistics st app = (st', app') \<Longrightarrow> allocates app app'"
  by (auto simp: cloneCustomerStatistics_def make_map_def allocates_def)

lemma clone_all_allocates: "clone_all order cloned app = (res, app') \<Longrightarrow> allocates app app'"
proof (induction order arbitrary: cloned app)
  case (Cons c rest)
  show ?case
  proof (cases "customerStats app c")
    case None
    then show ?thesis using Cons by simp
  next
    case (Some st)
    obtain clone app1 where clone: "cloneCustomerStatistics st app = (clone, app1)" by fastforce
    then have "clone_all rest (cloned(c \<mapsto> clone)) app1 = (res, app')" using Cons.prems Some by simp
    from allocates_trans [OF clone_allocates [OF clone] Cons.IH [OF this]] show ?thesis .
  qed
qed (simp add: allocates_refl)

lemma snapshot_allocates:
  assumes "snapshotCustomerStatistic c app = (st, app')"
  shows "allocates app app'"
proof (cases "customerStats app c")
  case None
  then show ?thesis using assms by (auto simp: snapshotCustomerStatistic_def make_map_def allocates_def)
next
  case (Some st0)
  then show ?thesis using assms clone_allocates by (auto simp: snapshotCustomerStatistic_def)
qed

text \<open>The part of the invariant that does not speak of the totals.\<close>

definition customers_inv :: "receiver \<Rightarrow> bool" where
  "customers_inv app \<longleftrightarrow> refs_inv app \<and> finite (dom (customerStats app)) \<and>
     (\<forall>c st. customerStats app c = Some st \<longrightarrow> statistic_inv (counts_heap app) c st)"

lemma receiver_inv_iff:
  "receiver_inv app \<longleftrightarrow> customers_inv app \<and> receivedCount app = over_customers stat_Received app \<and>
     successCount app = over_customers stat_Success app \<and> failedCount app = over_customers stat_Failed app"
  by (auto simp: receiver_inv_def customers_inv_def)

lemma allocates_frame:
  assumes "allocates app app'"
  shows "receivedCount app' = receivedCount app" "successCount app' = successCount app" "failedCount app' = failedCount app"
    "customerStats app' = customerStats app" "over_customers f app' = over_customers f app"
proof -
  obtain heap n where "app' = app\<lparr>counts_heap := heap, next_ref := n\<rparr>" using assms unfolding allocates_def by blast
  then show "receivedCount app' = receivedCount app" "successCount app' = successCount app" "failedCount app' = failedCount app"
    "customerStats app' = customerStats app" "over_customers f app' = over_customers f app" by (simp_all add: over_customers_def)
qed

lemma customers_inv_allocates:
  assumes "customers_inv app" and "allocates app app'"
  shows "customers_inv app'"
proof -
  obtain heap n where app': "app' = app\<lparr>counts_heap := heap, next_ref := n\<rparr>" "next_ref app \<le> n"
    and heap: "\<forall>r < next_ref app. heap r = counts_heap app r" using assms(2) unfolding allocates_def by blast
  have refs: "refs_inv app" using assms(1) by (simp add: customers_inv_def)
  have "statistic_inv heap c st" if "customerStats app c = Some st" for c st
    using refs_invD(1) [OF refs that] heap that assms(1) statistic_inv_cong [of heap st "counts_heap app" c]
    by (simp add: customers_inv_def)
  moreover have "refs_inv app'"
    using refs app'(2) unfolding app'(1) refs_inv_def by (auto intro: less_le_trans)
  ultimately show ?thesis using assms(1) by (simp add: customers_inv_def app'(1))
qed

lemma receiver_inv_allocates: "receiver_inv app \<Longrightarrow> allocates app app' \<Longrightarrow> receiver_inv app'"
  by (auto simp: receiver_inv_iff allocates_frame intro: customers_inv_allocates)

lemma resolve_frame:
  assumes "resolveStatusCode float64 scenario app = (code, app')"
  shows "\<exists>k. app' = app\<lparr>draws := k\<rparr>"
proof -
  have "app' = app\<lparr>draws := draws app'\<rparr>"
    using assms by (auto simp: resolveStatusCode_def Let_def split: if_splits)
  then show ?thesis by blast
qed

lemma webhook_effect:
  assumes "handleWebhook float64 clock c decoded app = (answer, app')"
  shows "app' = app \<or> (\<exists>code latency k. app' = recordCustomerStatistic c decoded code
    (app\<lparr>draws := k, receivedCount := receivedCount app + 1, totalLatencyMs := latency,
      successCount := successCount app + (if is_2xx code then 1 else 0),
      failedCount := failedCount app + (if is_2xx code then 0 else 1)\<rparr>))"
proof (cases "TrimSpace c = []")
  case False
  obtain code app2 where code: "resolveStatusCode float64 (lookupScenario (app\<lparr>receivedCount := receivedCount app + 1\<rparr>) c)
      (app\<lparr>receivedCount := receivedCount app + 1\<rparr>) = (code, app2)" by fastforce
  obtain k where "app2 = app\<lparr>receivedCount := receivedCount app + 1, draws := k\<rparr>" using resolve_frame [OF code] by auto
  with False code assms show ?thesis
    by (intro disjI2 exI [of _ code] exI [of _ "totalLatencyMs app'"] exI [of _ k])
       (auto simp: handleWebhook_def Let_def recordCustomerStatistic_effect start_state_def start_statistic_def make_map_def
         split: if_splits option.splits)
qed (use assms in \<open>simp add: handleWebhook_def\<close>)

text \<open>What a request is, as far as the statistics are concerned.\<close>

lemma receiver_step_cases:
  assumes "receiver_step app app'"
  obtains (recording) c decoded code latency k where "app' = recordCustomerStatistic c decoded code
      (app\<lparr>draws := k, receivedCount := receivedCount app + 1, totalLatencyMs := latency,
        successCount := successCount app + (if is_2xx code then 1 else 0),
        failedCount := failedCount app + (if is_2xx code then 0 else 1)\<rparr>)"
  | (scenario) sc where "app' = app\<lparr>scenarios := sc\<rparr>"
  | (snapshot) "allocates app app'"
  | (reset) "app' = app\<lparr>receivedCount := 0, successCount := 0, failedCount := 0, totalLatencyMs := 0, customerStats := Map.empty\<rparr>"
  using assms
proof cases
  case (step_webhook float64 clock c decoded answer)
  then show thesis using webhook_effect [OF step_webhook(1)] allocates_refl recording snapshot by blast
next
  case (step_config c decoded answer)
  have "app' = app\<lparr>scenarios := scenarios app'\<rparr>"
    using step_config by (auto simp: handleScenarioConfig_def Let_def split: if_splits sum.splits)
  then show thesis by (rule scenario)
next
  case (step_stats order answer)
  obtain customers app1 where clones: "clone_all order Map.empty app = (customers, app1)" by fastforce
  then have "app1 = app'" using step_stats by (simp add: recv_handleStats_def snapshotCustomerStatistics_def Let_def)
  then show thesis using snapshot clone_all_allocates [OF clones] by simp
next
  case (step_customer c answer)
  then show thesis
    using snapshot snapshot_allocates allocates_refl
    by (auto simp: handleCustomerStats_def split: if_splits prod.splits)
next
  case (step_reset answer)
  then show thesis by (intro reset) (auto simp: handleResetStats_def)
qed

lemma receiver_inv_step:
  assumes "receiver_inv app" and "receiver_step app app'"
  shows "receiver_inv app'"
  using assms(2)
proof (cases rule: receiver_step_cases)
  case (recording c decoded code latency k)
  let ?app = "app\<lparr>draws := k, receivedCount := receivedCount app + 1, totalLatencyMs := latency,
        successCount := successCount app + (if is_2xx code then 1 else 0),
        failedCount := failedCount app + (if is_2xx code then 0 else 1)\<rparr>"
  have refs: "refs_inv ?app" using assms(1) by (simp add: receiver_inv_def refs_inv_def)
  have fin: "finite (dom (customerStats ?app))"
    and stat: "\<forall>c st. customerStats ?app c = Some st \<longrightarrow> statistic_inv (counts_heap ?app) c st"
    using assms(1) by (simp_all add: receiver_inv_def)
  have over: "over_customers f ?app = over_customers f app" for f by (simp add: over_customers_def)
  show ?thesis
    unfolding recording receiver_inv_def
    using record_refs [OF refs] record_inv [OF refs fin stat] record_sums [OF fin] assms(1)
    by (simp add: record_frame over receiver_inv_def)
next
  case snapshot
  then show ?thesis by (rule receiver_inv_allocates [OF assms(1)])
qed (use assms(1) in \<open>auto simp: receiver_inv_def refs_inv_def over_customers_def\<close>)

lemma receiver_reachable_inv: "receiver_reachable app \<Longrightarrow> receiver_inv app"
proof (induction rule: receiver_reachable.induct)
  case receiver_new
  show ?case by (simp add: receiver_inv_def refs_inv_def over_customers_def recv_NewApplication_def)
qed (rule receiver_inv_step)

text \<open>A reference no statistic uses keeps its map.\<close>

definition detached :: "map_ref \<Rightarrow> receiver \<Rightarrow> bool" where
  "detached r app \<longleftrightarrow> r < next_ref app \<and> (\<forall>c st. customerStats app c = Some st \<longrightarrow> EventTypeCounts st \<noteq> r)"

lemma detached_step:
  assumes "receiver_step app app'" and "refs_inv app" and "detached r app"
  shows "detached r app' \<and> counts_heap app' r = counts_heap app r"
  using assms(1)
proof (cases rule: receiver_step_cases)
  case (recording c decoded code latency k)
  let ?app = "app\<lparr>draws := k, receivedCount := receivedCount app + 1, totalLatencyMs := latency,
        successCount := successCount app + (if is_2xx code then 1 else 0),
        failedCount := failedCount app + (if is_2xx code then 0 else 1)\<rparr>"
  have other: "EventTypeCounts (start_statistic c ?app) \<noteq> r"
    using assms(3) by (cases "customerStats app c") (auto simp: detached_def start_statistic_def fresh_statistic_def)
  have r: "r < next_ref app" using assms(3) by (simp add: detached_def)
  have "next_ref app \<le> next_ref (start_state c ?app) \<and> counts_heap (start_state c ?app) r = counts_heap app r"
    using r by (cases "customerStats app c") (simp_all add: start_state_def)
  moreover have "recorded_heap decoded (EventTypeCounts (start_statistic c ?app)) heap r = heap r" for heap
    using other by (cases decoded) (simp_all add: recorded_heap_def)
  ultimately have kept: "r < next_ref app' \<and> counts_heap app' r = counts_heap app r"
    using r unfolding recording recordCustomerStatistic_effect by simp
  have stats: "customerStats app' = (customerStats app)(c \<mapsto> recorded decoded code c (start_statistic c ?app))"
    by (simp add: recording recordCustomerStatistic_effect)
  have "EventTypeCounts st \<noteq> r" if st: "customerStats app' d = Some st" for d st
  proof (cases "d = c")
    case True
    then show ?thesis using st other by (auto simp: stats)
  next
    case False
    then show ?thesis using st assms(3) by (simp add: stats detached_def)
  qed
  then show ?thesis using kept by (simp add: detached_def)
next
  case snapshot
  then have "app' = app\<lparr>counts_heap := counts_heap app', next_ref := next_ref app'\<rparr>"
    unfolding allocates_def by blast
  from arg_cong [OF this, of customerStats] have "customerStats app' = customerStats app" by simp
  moreover have "next_ref app \<le> next_ref app'" and "\<forall>r < next_ref app. counts_heap app' r = counts_heap app r"
    using snapshot unfolding allocates_def by blast+
  ultimately show ?thesis using assms(3) by (auto simp: detached_def)
qed (use assms(3) in \<open>auto simp: detached_def\<close>)

section \<open>Properties\<close>

definition one_webhook :: receiver where
  "one_webhook = snd (handleWebhook (\<lambda>_. 0) (\<lambda>k. 1000000 * int k) ''acme'' (Inr (sample_event ''e1'' ''acme'')) recv_NewApplication)"

lemma trim_acme: "TrimSpace ''acme'' = ''acme''" "ToLower (TrimSpace ''success'') = ''success''"
  by code_simp+

lemma one_webhook_reachable: "receiver_reachable one_webhook"
  unfolding one_webhook_def by (rule receiver_next [OF receiver_new step_webhook [OF surjective_pairing]])

lemma one_webhook_stats: "customerStats one_webhook ''acme'' = Some \<lparr>stat_CustomerID = ''acme'', stat_Received = 1,
    stat_Success = 1, stat_Failed = 0, PayloadDecodeFailures = 0, PathPayloadCustomerMismatches = 0,
    EventTypeCounts = 0, LastEvent = Some (sample_event ''e1'' ''acme'')\<rparr>"
  by (simp add: one_webhook_def handleWebhook_def trim_acme lookupScenario_def success_scenario_def resolveStatusCode_def
      recv_NewApplication_def recordCustomerStatistic_effect start_state_def start_statistic_def fresh_statistic_def
      recorded_def judged_def Let_def)

text \<open>
  C37. A snapshot of a customer's statistics shows the counts at the time of the request and is not
  changed by requests that are handled later, although maps are references.
\<close>

theorem snapshots_are_isolated:
  assumes "receiver_reachable app" and "snapshotCustomerStatistic c app = (st, app1)" and "receiver_step\<^sup>*\<^sup>* app1 app2"
  shows "counts_heap app2 (EventTypeCounts st) =
      (case customerStats app c of None \<Rightarrow> (\<lambda>_. 0) | Some st0 \<Rightarrow> counts_heap app (EventTypeCounts st0)) \<and>
    (customerStats app c = None \<or> (\<exists>ref. customerStats app c = Some (st\<lparr>EventTypeCounts := ref\<rparr>)))"
proof -
  have inv: "receiver_inv app" by (rule receiver_reachable_inv [OF assms(1)])
  then have refs: "refs_inv app" by (simp add: receiver_inv_def)
  have new: "EventTypeCounts st = next_ref app \<and> next_ref app1 = Suc (next_ref app) \<and> customerStats app1 = customerStats app \<and>
    counts_heap app1 (next_ref app) =
      (case customerStats app c of None \<Rightarrow> (\<lambda>_. 0) | Some st0 \<Rightarrow> counts_heap app (EventTypeCounts st0)) \<and>
    (customerStats app c = None \<or> (\<exists>ref. customerStats app c = Some (st\<lparr>EventTypeCounts := ref\<rparr>)))"
  proof (cases "customerStats app c")
    case None
    then show ?thesis using assms(2) by (auto simp: snapshotCustomerStatistic_def make_map_def)
  next
    case (Some st0)
    then have "st0 = st\<lparr>EventTypeCounts := EventTypeCounts st0\<rparr>"
      using assms(2) by (auto simp: snapshotCustomerStatistic_def cloneCustomerStatistics_def make_map_def)
    then show ?thesis
      using Some assms(2) refs_invD(1) [OF refs Some]
      by (auto simp: snapshotCustomerStatistic_def cloneCustomerStatistics_def make_map_def)
  qed
  have "detached (EventTypeCounts st) app1" using refs_invD(1) [OF refs] new by (fastforce simp: detached_def)
  moreover have "receiver_inv app1" by (rule receiver_inv_allocates [OF inv snapshot_allocates [OF assms(2)]])
  ultimately have "detached (EventTypeCounts st) app2 \<and> receiver_inv app2 \<and>
      counts_heap app2 (EventTypeCounts st) = counts_heap app1 (EventTypeCounts st)"
    using assms(3)
  proof (induction rule: rtranclp_induct [consumes 1, OF assms(3)])
    case (2 a b)
    then show ?case using detached_step [of a b] receiver_inv_step [of a b] by (simp add: receiver_inv_def)
  qed simp
  then show ?thesis using new by simp
qed

theorem snapshots_are_isolated_witness:
  "counts_heap (snd (handleWebhook (\<lambda>_. 0) (\<lambda>_. 0) ''acme'' (Inr (sample_event ''e2'' ''acme''))
       (snd (snapshotCustomerStatistic ''acme'' one_webhook)))) (EventTypeCounts (fst (snapshotCustomerStatistic ''acme'' one_webhook))) =
   counts_heap one_webhook 0"
proof -
  let ?snap = "snd (snapshotCustomerStatistic ''acme'' one_webhook)"
  let ?later = "snd (handleWebhook (\<lambda>_. 0) (\<lambda>_. 0) ''acme'' (Inr (sample_event ''e2'' ''acme'')) ?snap)"
  have "receiver_step ?snap ?later" by (rule step_webhook [OF surjective_pairing])
  then have "receiver_step\<^sup>*\<^sup>* ?snap ?later" by (rule r_into_rtranclp)
  from snapshots_are_isolated [OF one_webhook_reachable surjective_pairing this] one_webhook_stats show ?thesis by simp
qed

text \<open>The status a scenario stands for, given the draw a random failure is decided by.\<close>

definition scenario_code :: "rat \<Rightarrow> Scenario \<Rightarrow> go_int" where
  "scenario_code drawn sc =
    (let mode = ToLower (TrimSpace (Mode sc))
     in if mode = ''timeout'' then 504 else if mode = ''error500'' then 500 else if mode = ''error400'' then 400
        else if mode = ''unauthorized'' then 401
        else if mode = ''random'' \<and> drawn < FailureProbability sc then 500 else 200)"

lemma webhook_reply_code:
  assumes "TrimSpace c \<noteq> []"
  shows "reply_code (fst (handleWebhook float64 clock c decoded app)) = scenario_code (float64 (draws app)) (lookupScenario app c)"
proof -
  have "lookupScenario (app\<lparr>receivedCount := n\<rparr>) c = lookupScenario app c" for n by (simp add: lookupScenario_def)
  then show ?thesis
    using assms by (simp add: handleWebhook_def Let_def WriteJSON_def split_def resolveStatusCode_def scenario_code_def)
qed

text \<open>
  A scenario takes effect: after a configuration request for a customer, the receiver answers that
  customer's webhooks with the status of the configured mode (an empty mode meaning success), and
  every other customer's scenario is as before.
\<close>

lemma scenario_mode_default: "scenario_code r (sc\<lparr>Mode := if Mode sc = [] then ''success'' else Mode sc\<rparr>) = scenario_code r sc"
proof -
  have "ToLower (TrimSpace []) = []" "ToLower (TrimSpace ''success'') = ''success''" by code_simp+
  then show ?thesis by (cases "Mode sc = []") (simp_all add: scenario_code_def Let_def)
qed

lemma scenario_takes_effect:
  assumes "TrimSpace c \<noteq> []" and "handleScenarioConfig c (Inr sc) app = (answer, app')"
  shows "reply_code answer = 200"
    and "lookupScenario app' d = (if d = c then sc\<lparr>Mode := if Mode sc = [] then ''success'' else Mode sc\<rparr> else lookupScenario app d)"
  using assms by (auto simp: handleScenarioConfig_def lookupScenario_def Let_def WriteJSON_def)

end
