(* ===== verification/MockReceiver_Concurrent.thy ===== *)
theory MockReceiver_Concurrent
  imports MockReceiver_Correct
begin

text \<open>
  Requests to the mock receiver that overlap. A webhook counts itself as received, sleeps if its
  scenario says so, and only then counts its outcome; a reset stores its zeros one by one
  (\<open>internal/mockreceiver/handlers.go\<close>). Each operation on an atomic integer and each section under a
  mutex is a step here, and the steps of any number of requests interleave; a request that runs
  without interruption is the handler of \<open>MockReceiver\<close>. Requests that only read the statistics or
  configure a scenario touch none of the counters and are one step. A draw of the random source is
  taken as atomic, which \<open>rand.Rand\<close> does not promise to concurrent callers.
\<close>

section \<open>Requests under way\<close>

text \<open>What a webhook has behind it: nothing, its arrival counted, its scenario read, its status resolved, its latency
  added, its outcome counted. \<open>Resetting n\<close> has made \<open>n\<close> of its stores.\<close>

datatype request_pc =
    Arrived string "go_error + SubscriberEvent"
  | Received string "go_error + SubscriberEvent"
  | LookedUp string "go_error + SubscriberEvent" Scenario
  | Resolved string "go_error + SubscriberEvent" Scenario go_int
  | Timed string "go_error + SubscriberEvent" Scenario go_int
  | Judged string "go_error + SubscriberEvent" Scenario go_int
  | Configuring string "go_error + Scenario"
  | Reporting "string list"
  | ReportingCustomer string
  | Resetting nat
  | Answered "receiver_payload reply"

fun advance :: "(nat \<Rightarrow> rat) \<Rightarrow> (nat \<Rightarrow> time) \<Rightarrow> request_pc \<Rightarrow> receiver \<Rightarrow> request_pc \<times> receiver" where
  "advance float64 clock (Arrived c decoded) app =
    (if TrimSpace c = [] then (Answered (WriteError ReceiverError StatusBadRequest ''customerId is required''), app)
     else (Received c decoded, app\<lparr>receivedCount := receivedCount app + 1\<rparr>))"
| "advance float64 clock (Received c decoded) app = (LookedUp c decoded (lookupScenario app c), app)"
| "advance float64 clock (LookedUp c decoded scenario) app =
    (case resolveStatusCode float64 scenario app of (statusCode, app') \<Rightarrow> (Resolved c decoded scenario statusCode, app'))"
| "advance float64 clock (Resolved c decoded scenario statusCode) app =
    (Timed c decoded scenario statusCode,
     app\<lparr>totalLatencyMs := wrap64 (totalLatencyMs app + go_div (time_Sub (clock 1) (clock 0)) Millisecond)\<rparr>)"
| "advance float64 clock (Timed c decoded scenario statusCode) app =
    (Judged c decoded scenario statusCode,
     if statusCode \<ge> 200 \<and> statusCode < 300 then app\<lparr>successCount := successCount app + 1\<rparr>
     else app\<lparr>failedCount := failedCount app + 1\<rparr>)"
| "advance float64 clock (Judged c decoded scenario statusCode) app =
    (Answered (WriteJSON statusCode (Some (WebhookAnswer c (Mode scenario) statusCode))),
     recordCustomerStatistic c decoded statusCode app)"
| "advance float64 clock (Configuring c decoded) app = map_prod Answered id (handleScenarioConfig c decoded app)"
| "advance float64 clock (Reporting order) app = map_prod Answered id (recv_handleStats order app)"
| "advance float64 clock (ReportingCustomer c) app = map_prod Answered id (handleCustomerStats c app)"
| "advance float64 clock (Resetting n) app =
    (if n = 0 then (Resetting 1, app\<lparr>receivedCount := 0\<rparr>)
     else if n = 1 then (Resetting 2, app\<lparr>successCount := 0\<rparr>)
     else if n = 2 then (Resetting 3, app\<lparr>failedCount := 0\<rparr>)
     else if n = 3 then (Resetting 4, app\<lparr>totalLatencyMs := 0\<rparr>)
     else (Answered (WriteJSON StatusOK (Some (ReceiverStatus ''reset''))), app\<lparr>customerStats := Map.empty\<rparr>))"
| "advance float64 clock (Answered reply) app = (Answered reply, app)"

text \<open>An uninterrupted request is its handler.\<close>

fun undisturbed :: "nat \<Rightarrow> (nat \<Rightarrow> rat) \<Rightarrow> (nat \<Rightarrow> time) \<Rightarrow> request_pc \<times> receiver \<Rightarrow> request_pc \<times> receiver" where
  "undisturbed 0 float64 clock state = state"
| "undisturbed (Suc n) float64 clock (pc, app) = undisturbed n float64 clock (advance float64 clock pc app)"

lemma undisturbed_webhook:
  "undisturbed 6 float64 clock (Arrived c decoded, app) = map_prod Answered id (handleWebhook float64 clock c decoded app)"
  by (simp add: handleWebhook_def eval_nat_numeral Let_def split_def)

lemma undisturbed_reset:
  "undisturbed 5 float64 clock (Resetting 0, app) = map_prod Answered id (handleResetStats app)"
  by (simp add: handleResetStats_def eval_nat_numeral)

section \<open>Interleaved requests\<close>

record serving =
  receiver_now :: receiver
  under_way :: "request_pc list"

fun new_request :: "request_pc \<Rightarrow> bool" where
  "new_request (Arrived c decoded) \<longleftrightarrow> True"
| "new_request (Configuring c decoded) \<longleftrightarrow> True"
| "new_request (Reporting order) \<longleftrightarrow> True"
| "new_request (ReportingCustomer c) \<longleftrightarrow> True"
| "new_request (Resetting n) \<longleftrightarrow> n = 0"
| "new_request pc \<longleftrightarrow> False"

fun resetting :: "request_pc \<Rightarrow> bool" where
  "resetting (Resetting n) \<longleftrightarrow> True"
| "resetting pc \<longleftrightarrow> False"

text \<open>A webhook between its first and its last step.\<close>

fun webhook_under_way :: "request_pc \<Rightarrow> bool" where
  "webhook_under_way (Arrived c decoded) \<longleftrightarrow> True"
| "webhook_under_way (Received c decoded) \<longleftrightarrow> True"
| "webhook_under_way (LookedUp c decoded scenario) \<longleftrightarrow> True"
| "webhook_under_way (Resolved c decoded scenario code) \<longleftrightarrow> True"
| "webhook_under_way (Timed c decoded scenario code) \<longleftrightarrow> True"
| "webhook_under_way (Judged c decoded scenario code) \<longleftrightarrow> True"
| "webhook_under_way pc \<longleftrightarrow> False"

definition overlaps :: "request_pc \<Rightarrow> request_pc list \<Rightarrow> bool" where
  "overlaps pc pcs \<longleftrightarrow> (\<exists>other \<in> set pcs. resetting pc \<and> webhook_under_way other \<or> webhook_under_way pc \<and> resetting other)"

text \<open>\<open>apart\<close> confines the relation to runs in which no reset overlaps a webhook.\<close>

inductive serving_run :: "bool \<Rightarrow> serving \<Rightarrow> bool" for apart where
  serving_start: "serving_run apart \<lparr>receiver_now = recv_NewApplication, under_way = []\<rparr>"
| serving_accept: "serving_run apart s \<Longrightarrow> new_request pc \<Longrightarrow> apart \<longrightarrow> \<not> overlaps pc (under_way s) \<Longrightarrow>
    serving_run apart (s\<lparr>under_way := under_way s @ [pc]\<rparr>)"
| serving_advance: "serving_run apart s \<Longrightarrow> i < length (under_way s) \<Longrightarrow>
    advance float64 clock (under_way s ! i) (receiver_now s) = (pc', app') \<Longrightarrow>
    serving_run apart \<lparr>receiver_now = app', under_way = (under_way s)[i := pc']\<rparr>"

text \<open>The webhooks that have counted themselves and not their outcome, or not yet for their customer.\<close>

fun undecided :: "request_pc \<Rightarrow> int" where
  "undecided (Received c decoded) = 1"
| "undecided (LookedUp c decoded scenario) = 1"
| "undecided (Resolved c decoded scenario code) = 1"
| "undecided (Timed c decoded scenario code) = 1"
| "undecided pc = 0"

fun unrecorded :: "request_pc \<Rightarrow> int" where
  "unrecorded (Judged c decoded scenario code) = 1"
| "unrecorded pc = undecided pc"

definition over_requests :: "(request_pc \<Rightarrow> int) \<Rightarrow> serving \<Rightarrow> int" where
  "over_requests f s = sum_list (map f (under_way s))"

section \<open>The statistics of a customer\<close>

lemma customers_inv_frame [simp]:
  "customers_inv (app\<lparr>receivedCount := n\<rparr>) = customers_inv app" "customers_inv (app\<lparr>successCount := n\<rparr>) = customers_inv app"
  "customers_inv (app\<lparr>failedCount := n\<rparr>) = customers_inv app" "customers_inv (app\<lparr>totalLatencyMs := n\<rparr>) = customers_inv app"
  "customers_inv (app\<lparr>draws := k\<rparr>) = customers_inv app" "customers_inv (app\<lparr>scenarios := sc\<rparr>) = customers_inv app"
  by (simp_all add: customers_inv_def refs_inv_def)

lemma over_customers_frame [simp]:
  "over_customers f (app\<lparr>receivedCount := n\<rparr>) = over_customers f app" "over_customers f (app\<lparr>successCount := n\<rparr>) = over_customers f app"
  "over_customers f (app\<lparr>failedCount := n\<rparr>) = over_customers f app" "over_customers f (app\<lparr>totalLatencyMs := n\<rparr>) = over_customers f app"
  "over_customers f (app\<lparr>draws := k\<rparr>) = over_customers f app" "over_customers f (app\<lparr>scenarios := sc\<rparr>) = over_customers f app"
  by (simp_all add: over_customers_def)

text \<open>The requests that touch no counter.\<close>

lemma quiet_requests:
  "\<exists>sc. snd (handleScenarioConfig c decoded app) = app\<lparr>scenarios := sc\<rparr>"
  "allocates app (snd (recv_handleStats order app))" "allocates app (snd (handleCustomerStats c app))"
proof -
  have "snd (handleScenarioConfig c decoded app) = app\<lparr>scenarios := scenarios (snd (handleScenarioConfig c decoded app))\<rparr>"
    by (simp add: handleScenarioConfig_def Let_def split: sum.split)
  then show "\<exists>sc. snd (handleScenarioConfig c decoded app) = app\<lparr>scenarios := sc\<rparr>" by blast
  show "allocates app (snd (recv_handleStats order app))"
    using clone_all_allocates [where order = order and cloned = Map.empty and app = app, OF surjective_pairing]
    by (simp add: recv_handleStats_def snapshotCustomerStatistics_def Let_def split_def)
  show "allocates app (snd (handleCustomerStats c app))"
    using snapshot_allocates [where c = c and app = app, OF surjective_pairing] allocates_refl
    by (simp add: handleCustomerStats_def split_def)
qed

lemma resolve_state: "\<exists>k. snd (resolveStatusCode float64 scenario app) = app\<lparr>draws := k\<rparr>"
  by (rule resolve_frame [OF surjective_pairing])

lemma advance_customers: "customers_inv app \<Longrightarrow> customers_inv (snd (advance float64 clock pc app))"
proof (cases pc)
  case (LookedUp c decoded scenario)
  obtain k where "snd (resolveStatusCode float64 scenario app) = app\<lparr>draws := k\<rparr>" using resolve_state by blast
  then show "customers_inv app \<Longrightarrow> ?thesis" using LookedUp by (simp add: split_def)
next
  case (Judged c decoded scenario code)
  assume "customers_inv app"
  then have inv: "refs_inv app" "finite (dom (customerStats app))"
    "\<forall>c st. customerStats app c = Some st \<longrightarrow> statistic_inv (counts_heap app) c st" by (simp_all add: customers_inv_def)
  show ?thesis
    using record_refs [OF inv(1)] record_inv [OF inv] Judged by (simp add: customers_inv_def)
next
  case (Configuring c decoded)
  obtain sc where "snd (handleScenarioConfig c decoded app) = app\<lparr>scenarios := sc\<rparr>" using quiet_requests(1) by blast
  then show "customers_inv app \<Longrightarrow> ?thesis" using Configuring by simp
next
  case (Reporting order)
  then show "customers_inv app \<Longrightarrow> ?thesis" using customers_inv_allocates [OF _ quiet_requests(2)] by simp
next
  case (ReportingCustomer c)
  then show "customers_inv app \<Longrightarrow> ?thesis" using customers_inv_allocates [OF _ quiet_requests(3)] by simp
qed (auto simp: customers_inv_def refs_inv_def)

lemma serving_customers: "serving_run apart s \<Longrightarrow> customers_inv (receiver_now s)"
proof (induction rule: serving_run.induct)
  case serving_start
  show ?case by (simp add: customers_inv_def refs_inv_def recv_NewApplication_def)
next
  case (serving_advance s i float64 clock pc' app')
  then show ?case using advance_customers [of "receiver_now s" float64 clock "under_way s ! i"] by simp
qed simp

section \<open>The totals\<close>

text \<open>How far the totals are behind, and what a step of a request other than a reset does to that.\<close>

definition missing :: "receiver \<Rightarrow> int \<times> int" where
  "missing app = (receivedCount app - (successCount app + failedCount app), receivedCount app - over_customers stat_Received app)"

lemma advance_missing:
  assumes "customers_inv app" and "\<not> resetting pc" and "advance float64 clock pc app = (pc', app')"
  shows "missing app' = (fst (missing app) + undecided pc' - undecided pc, snd (missing app) + unrecorded pc' - unrecorded pc)"
    and "\<not> resetting pc'" and "webhook_under_way pc' \<longrightarrow> webhook_under_way pc"
    and "\<not> webhook_under_way pc \<longrightarrow> receivedCount app' = receivedCount app \<and> successCount app' = successCount app \<and>
      failedCount app' = failedCount app"
proof -
  have fin: "finite (dom (customerStats app))" using assms(1) by (simp add: customers_inv_def)
  have "missing app' = (fst (missing app) + undecided pc' - undecided pc, snd (missing app) + unrecorded pc' - unrecorded pc) \<and>
    \<not> resetting pc' \<and> (webhook_under_way pc' \<longrightarrow> webhook_under_way pc) \<and>
    (\<not> webhook_under_way pc \<longrightarrow> receivedCount app' = receivedCount app \<and> successCount app' = successCount app \<and>
      failedCount app' = failedCount app)"
  proof (cases pc)
    case (LookedUp c decoded scenario)
    then have parts: "pc' = Resolved c decoded scenario (fst (resolveStatusCode float64 scenario app))"
      "app' = snd (resolveStatusCode float64 scenario app)" using assms(3) by (simp_all add: split_def)
    obtain k where "app' = app\<lparr>draws := k\<rparr>" using resolve_state parts(2) by blast
    then show ?thesis using LookedUp parts(1) by (simp add: missing_def)
  next
    case (Judged c decoded scenario code)
    then show ?thesis using assms(3) record_sums(1) [OF fin] by (auto simp: missing_def record_frame)
  next
    case (Configuring c decoded)
    then have parts: "pc' = Answered (fst (handleScenarioConfig c decoded app))" "app' = snd (handleScenarioConfig c decoded app)"
      using assms(3) by (auto simp: map_prod_def split_def)
    obtain sc where "app' = app\<lparr>scenarios := sc\<rparr>" using quiet_requests(1) parts(2) by blast
    then show ?thesis using Configuring parts(1) by (simp add: missing_def)
  next
    case (Reporting order)
    then show ?thesis using assms(3) allocates_frame [OF quiet_requests(2) [of app order]]
      by (auto simp: missing_def map_prod_def split_def)
  next
    case (ReportingCustomer c)
    then show ?thesis using assms(3) allocates_frame [OF quiet_requests(3) [of app c]]
      by (auto simp: missing_def map_prod_def split_def)
  qed (use assms in \<open>auto simp: missing_def split: if_splits\<close>)
  then show "missing app' = (fst (missing app) + undecided pc' - undecided pc, snd (missing app) + unrecorded pc' - unrecorded pc)"
    "\<not> resetting pc'" "webhook_under_way pc' \<longrightarrow> webhook_under_way pc"
    "\<not> webhook_under_way pc \<longrightarrow> receivedCount app' = receivedCount app \<and> successCount app' = successCount app \<and>
      failedCount app' = failedCount app" by blast+
qed

text \<open>What a reset has done so far.\<close>

fun reset_so_far :: "receiver \<Rightarrow> request_pc \<Rightarrow> bool" where
  "reset_so_far app (Resetting n) \<longleftrightarrow> (1 \<le> n \<longrightarrow> receivedCount app = 0) \<and> (2 \<le> n \<longrightarrow> successCount app = 0) \<and>
     (3 \<le> n \<longrightarrow> failedCount app = 0)"
| "reset_so_far app pc \<longleftrightarrow> True"

definition apart_inv :: "serving \<Rightarrow> bool" where
  "apart_inv s \<longleftrightarrow>
    ((\<exists>pc \<in> set (under_way s). resetting pc) \<longrightarrow> (\<forall>pc \<in> set (under_way s). \<not> webhook_under_way pc)) \<and>
    (\<forall>pc \<in> set (under_way s). reset_so_far (receiver_now s) pc) \<and>
    ((\<forall>pc \<in> set (under_way s). \<not> resetting pc) \<longrightarrow>
      missing (receiver_now s) = (over_requests undecided s, over_requests unrecorded s))"

lemma over_requests_update:
  assumes "i < length (under_way s)"
  shows "over_requests f \<lparr>receiver_now = app, under_way = (under_way s)[i := pc]\<rparr> = over_requests f s - f (under_way s ! i) + f pc"
proof -
  have "i < length pcs \<Longrightarrow> sum_list (map f (pcs[i := pc])) = sum_list (map f pcs) - f (pcs ! i) + f pc" for pcs
  proof (induction pcs arbitrary: i)
    case (Cons x pcs) then show ?case by (cases i) auto
  qed simp
  then show ?thesis using assms by (simp add: over_requests_def)
qed

lemma quiet_sums:
  assumes "\<forall>pc \<in> set (under_way s). \<not> webhook_under_way pc"
  shows "over_requests undecided s = 0" "over_requests unrecorded s = 0"
proof -
  have "\<not> webhook_under_way pc \<Longrightarrow> undecided pc = 0 \<and> unrecorded pc = 0" for pc by (cases pc) simp_all
  moreover have "\<forall>pc \<in> set pcs. f pc = 0 \<Longrightarrow> sum_list (map f pcs) = 0" for f :: "request_pc \<Rightarrow> int" and pcs
    by (induction pcs) simp_all
  ultimately show "over_requests undecided s = 0" "over_requests unrecorded s = 0" using assms by (simp_all add: over_requests_def)
qed

text \<open>A step of a webhook or of a quiet request, and a step of a reset.\<close>

lemma apart_advance:
  assumes "apart_inv s" and "customers_inv (receiver_now s)" and i: "i < length (under_way s)" and "\<not> resetting (under_way s ! i)"
    and adv: "advance float64 clock (under_way s ! i) (receiver_now s) = (pc', app')"
  shows "apart_inv \<lparr>receiver_now = app', under_way = (under_way s)[i := pc']\<rparr>"
proof -
  let ?s = "\<lparr>receiver_now = app', under_way = (under_way s)[i := pc']\<rparr>" and ?pc = "under_way s ! i"
  note eff = advance_missing [OF assms(2,4) adv]
  have pcs: "pc \<in> set (under_way ?s) \<Longrightarrow> pc = pc' \<or> pc \<in> set (under_way s)" for pc
    using set_update_subset_insert by fastforce
  have kept: "resetting pc \<Longrightarrow> pc \<in> set (under_way s) \<Longrightarrow> pc \<in> set (under_way ?s)" for pc
    using assms(4) i by (auto simp: in_set_conv_nth nth_list_update intro: exI)
  have under: "webhook_under_way ?pc \<Longrightarrow> pc \<in> set (under_way s) \<Longrightarrow> \<not> resetting pc" for pc
    using assms(1) i by (auto simp: apart_inv_def)
  have "reset_so_far app' pc" if "pc \<in> set (under_way ?s)" for pc
  proof (cases "resetting pc")
    case True
    then have "pc \<in> set (under_way s)" using pcs [OF that] eff(2) by auto
    then have "\<not> webhook_under_way ?pc" "reset_so_far (receiver_now s) pc" using under True assms(1) by (auto simp: apart_inv_def)
    then show ?thesis using eff(4) by (cases pc) auto
  next
    case False then show ?thesis by (cases pc) simp_all
  qed
  moreover have "missing app' = (over_requests undecided ?s, over_requests unrecorded ?s)"
    if "\<forall>pc \<in> set (under_way ?s). \<not> resetting pc"
  proof -
    have "\<forall>pc \<in> set (under_way s). \<not> resetting pc" using that kept by blast
    then have "missing (receiver_now s) = (over_requests undecided s, over_requests unrecorded s)" using assms(1) by (simp add: apart_inv_def)
    then show ?thesis using eff(1) by (simp add: over_requests_update [OF i])
  qed
  moreover have "\<not> webhook_under_way pc" if "reset \<in> set (under_way ?s)" "resetting reset" "pc \<in> set (under_way ?s)" for reset pc
  proof -
    have "reset \<in> set (under_way s)" using that pcs eff(2) by blast
    then have "\<forall>pc \<in> set (under_way s). \<not> webhook_under_way pc" using assms(1) that(2) by (auto simp: apart_inv_def)
    then show ?thesis using pcs [OF that(3)] eff(3) i by auto
  qed
  ultimately show ?thesis by (auto simp: apart_inv_def)
qed

lemma apart_reset:
  assumes "apart_inv s" and i: "i < length (under_way s)" and n: "under_way s ! i = Resetting n"
    and adv: "advance float64 clock (under_way s ! i) (receiver_now s) = (pc', app')"
  shows "apart_inv \<lparr>receiver_now = app', under_way = (under_way s)[i := pc']\<rparr>"
proof -
  let ?s = "\<lparr>receiver_now = app', under_way = (under_way s)[i := pc']\<rparr>"
  have pcs: "pc \<in> set (under_way ?s) \<Longrightarrow> pc = pc' \<or> pc \<in> set (under_way s)" for pc
    using set_update_subset_insert by fastforce
  have mem: "Resetting n \<in> set (under_way s)" using i n nth_mem by metis
  then have no_webhook: "\<forall>pc \<in> set (under_way s). \<not> webhook_under_way pc" using assms(1) by (force simp: apart_inv_def)
  have so_far: "reset_so_far (receiver_now s) pc" if "pc \<in> set (under_way s)" for pc using assms(1) that by (simp add: apart_inv_def)
  have new: "\<not> webhook_under_way pc'" "reset_so_far app' pc'"
    using adv so_far [OF mem] n by (auto split: if_splits)
  have others: "reset_so_far app' pc" if "pc \<in> set (under_way s)" for pc
    using so_far [OF that] adv n by (cases pc) (auto split: if_splits)
  have quiet: "\<forall>pc \<in> set (under_way ?s). \<not> webhook_under_way pc" using pcs new(1) no_webhook by blast
  moreover have "\<forall>pc \<in> set (under_way ?s). reset_so_far app' pc" using pcs new(2) others by blast
  moreover have "missing app' = (0, 0)" if "\<forall>pc \<in> set (under_way ?s). \<not> resetting pc"
  proof -
    have "pc' \<in> set (under_way ?s)" using i by (simp add: set_update_memI)
    then have "\<not> resetting pc'" using that by blast
    then have "4 \<le> n" "app' = (receiver_now s)\<lparr>customerStats := Map.empty\<rparr>" using adv n by (auto split: if_splits)
    then show ?thesis using so_far [OF mem] by (simp add: missing_def over_customers_def)
  qed
  ultimately show ?thesis using quiet_sums [OF quiet] by (simp add: apart_inv_def)
qed

lemma serving_apart: "serving_run True s \<Longrightarrow> apart_inv s"
proof (induction rule: serving_run.induct)
  case serving_start
  show ?case by (simp add: apart_inv_def missing_def over_requests_def over_customers_def recv_NewApplication_def)
next
  case (serving_accept s pc)
  have "undecided pc = 0" "unrecorded pc = 0" using serving_accept(2) by (cases pc; simp)+
  moreover have "reset_so_far (receiver_now s) pc" using serving_accept(2) by (cases pc) simp_all
  moreover have "\<not> (resetting pc \<and> webhook_under_way pc)" by (cases pc) simp_all
  ultimately show ?case using serving_accept(3,4)
    by (auto simp: apart_inv_def overlaps_def over_requests_def)
next
  case (serving_advance s i float64 clock pc' app')
  show ?case
  proof (cases "resetting (under_way s ! i)")
    case True
    then obtain n where "under_way s ! i = Resetting n" by (cases "under_way s ! i") simp_all
    then show ?thesis using apart_reset serving_advance by blast
  next
    case False
    then show ?thesis using apart_advance [OF _ serving_customers [OF serving_advance(1)]] serving_advance by blast
  qed
qed

section \<open>Properties\<close>

text \<open>
  C36. What holds of the receiver's numbers while requests overlap. In every state of every
  interleaving the statistics of each customer add up: every webhook recorded is a success or a
  failure and is undecodable or counted by its event type, and the last event is set exactly when one
  was decoded. As long as no reset has overlapped a webhook, and none is half done, the received
  webhooks are the successes, the failures and those that are still undecided, and they are those
  recorded for the customers and those still to be recorded; so the totals agree exactly when no
  webhook is under way.
\<close>

theorem receiver_statistics_add_up:
  assumes "serving_run apart s" and "app = receiver_now s"
  shows "(\<forall>c st. customerStats app c = Some st \<longrightarrow> stat_CustomerID st = c \<and>
      stat_Received st = stat_Success st + stat_Failed st \<and>
      stat_Received st = PayloadDecodeFailures st + counted (counts_heap app (EventTypeCounts st)) \<and>
      0 \<le> PathPayloadCustomerMismatches st \<and>
      PathPayloadCustomerMismatches st \<le> counted (counts_heap app (EventTypeCounts st)) \<and>
      (LastEvent st = None \<longleftrightarrow> counted (counts_heap app (EventTypeCounts st)) = 0)) \<and>
    (apart \<and> (\<forall>pc \<in> set (under_way s). \<not> resetting pc) \<longrightarrow>
      receivedCount app = successCount app + failedCount app + over_requests undecided s \<and>
      receivedCount app = (\<Sum>c \<in> dom (customerStats app). stat_Received (the (customerStats app c))) + over_requests unrecorded s \<and>
      ((\<forall>pc \<in> set (under_way s). \<not> webhook_under_way pc) \<longrightarrow>
        receivedCount app = successCount app + failedCount app \<and>
        receivedCount app = (\<Sum>c \<in> dom (customerStats app). stat_Received (the (customerStats app c)))))"
proof -
  have st: "statistic_inv (counts_heap app) c st" if "customerStats app c = Some st" for c st
    using serving_customers [OF assms(1)] that assms(2) by (simp add: customers_inv_def)
  have each: "stat_CustomerID st = c \<and> stat_Received st = stat_Success st + stat_Failed st \<and>
      stat_Received st = PayloadDecodeFailures st + counted (counts_heap app (EventTypeCounts st)) \<and>
      0 \<le> PathPayloadCustomerMismatches st \<and>
      PathPayloadCustomerMismatches st \<le> counted (counts_heap app (EventTypeCounts st)) \<and>
      (LastEvent st = None \<longleftrightarrow> counted (counts_heap app (EventTypeCounts st)) = 0)"
    if c: "customerStats app c = Some st" for c st
    using st [OF c] unfolding statistic_inv_def by linarith
  have "receivedCount app = successCount app + failedCount app + over_requests undecided s \<and>
      receivedCount app = (\<Sum>c \<in> dom (customerStats app). stat_Received (the (customerStats app c))) + over_requests unrecorded s"
    if "apart" and "\<forall>pc \<in> set (under_way s). \<not> resetting pc"
  proof -
    have "apart_inv s" using serving_apart assms(1) that(1) by simp
    then have "missing app = (over_requests undecided s, over_requests unrecorded s)"
      using that(2) assms(2) by (simp add: apart_inv_def)
    then show ?thesis by (simp add: missing_def over_customers_def algebra_simps)
  qed
  then show ?thesis by (intro conjI [OF _ impI]) (use each in blast, use quiet_sums [of s] in auto)
qed

text \<open>Several steps of one request in a row.\<close>

lemma serving_undisturbed:
  assumes "serving_run apart s" and "i < length (under_way s)"
    and "undisturbed n float64 clock (under_way s ! i, receiver_now s) = (pc', app')"
  shows "serving_run apart \<lparr>receiver_now = app', under_way = (under_way s)[i := pc']\<rparr>"
  using assms
proof (induction n arbitrary: s)
  case 0
  then show ?case by (cases s) auto
next
  case (Suc n)
  obtain pc1 app1 where adv: "advance float64 clock (under_way s ! i) (receiver_now s) = (pc1, app1)" by fastforce
  from Suc(1) [OF serving_advance [OF Suc(2,3) adv]] Suc(3,4) adv show ?case by simp
qed

definition one_received :: serving where
  "one_received = \<lparr>receiver_now = recv_NewApplication\<lparr>receivedCount := 1\<rparr>, under_way = [Received ''acme'' (Inr (sample_event ''e1'' ''acme''))]\<rparr>"

lemma one_received_run: "serving_run apart one_received"
proof -
  let ?pc = "Arrived ''acme'' (Inr (sample_event ''e1'' ''acme''))"
  have "serving_run apart \<lparr>receiver_now = recv_NewApplication, under_way = [?pc]\<rparr>"
    using serving_accept [OF serving_start, of ?pc apart] by (simp add: overlaps_def)
  from serving_undisturbed [OF this, of 0 1] show ?thesis
    by (simp add: one_received_def recv_NewApplication_def trim_acme)
qed

theorem receiver_statistics_add_up_witness:
  "receivedCount (receiver_now one_received) = successCount (receiver_now one_received) + failedCount (receiver_now one_received) + 1"
  using receiver_statistics_add_up [OF one_received_run [of True] refl]
  by (simp add: one_received_def over_requests_def)

text \<open>
  A reset in the middle of a webhook leaves totals that do not agree, for good: nothing was received and
  one webhook succeeded.
\<close>

lemma overlapping_reset:
  "\<exists>s. serving_run False s \<and> (\<forall>pc \<in> set (under_way s). \<exists>reply. pc = Answered reply) \<and>
    receivedCount (receiver_now s) = 0 \<and> successCount (receiver_now s) = 1"
proof -
  let ?pc = "Received ''acme'' (Inr (sample_event ''e1'' ''acme''))"
  have accepted: "serving_run False (one_received\<lparr>under_way := under_way one_received @ [Resetting 0]\<rparr>)"
    by (rule serving_accept [OF one_received_run]) simp_all
  obtain r where "serving_run False \<lparr>receiver_now = recv_NewApplication, under_way = [?pc, Answered r]\<rparr>"
    using serving_undisturbed [OF accepted, of 1 5 "\<lambda>_. 0" "\<lambda>_. 0"] undisturbed_reset [of "\<lambda>_. 0" "\<lambda>_. 0" "receiver_now one_received"]
    by (auto simp: one_received_def handleResetStats_def recv_NewApplication_def)
  moreover obtain reply app where "undisturbed 5 (\<lambda>_. 0) (\<lambda>_. 0) (?pc, recv_NewApplication) = (Answered reply, app)"
      "receivedCount app = 0" "successCount app = 1"
    by (simp add: eval_nat_numeral lookupScenario_def success_scenario_def resolveStatusCode_def trim_acme
        recv_NewApplication_def record_frame)
  ultimately have "serving_run False \<lparr>receiver_now = app, under_way = [Answered reply, Answered r]\<rparr>"
    using serving_undisturbed [of False "\<lparr>receiver_now = recv_NewApplication, under_way = [?pc, Answered r]\<rparr>" 0 5 "\<lambda>_. 0" "\<lambda>_. 0"] by simp
  then show ?thesis using \<open>receivedCount app = 0\<close> \<open>successCount app = 1\<close>
    by (intro exI [of _ "\<lparr>receiver_now = app, under_way = [Answered reply, Answered r]\<rparr>"]) simp
qed

end
