(* ===== verification/Notifier_Ingest.thy ===== *)
theory Notifier_Ingest
  imports Runtime_Example
begin

text \<open>
  The properties of one instance: what a request to ingest events leaves in the queue and answers,
  what the worker does with one job, and the routes of the server.
\<close>

section \<open>Ingest\<close>

definition acceptable :: "Registry \<Rightarrow> SubscriberEvent \<Rightarrow> bool" where
  "acceptable reg ev \<longleftrightarrow> validateEvent ev = None \<and> (\<exists>urls. reg_ResolveWebhookURLs reg None (CustomerID ev) = Inr urls)"

definition urls_for :: "Registry \<Rightarrow> SubscriberEvent \<Rightarrow> string list" where
  "urls_for reg ev = (case reg_ResolveWebhookURLs reg None (CustomerID ev) of Inl e \<Rightarrow> [] | Inr urls \<Rightarrow> urls)"

text \<open>The deliveries an event stands for, as a row shows them.\<close>

definition deliveries_of :: "Registry \<Rightarrow> SubscriberEvent list \<Rightarrow> (string \<times> string \<times> string) list" where
  "deliveries_of reg events = concat (map (\<lambda>ev. map (\<lambda>url. (EventID ev, CustomerID ev, url)) (urls_for reg ev)) events)"

definition row_delivery :: "queue_row \<Rightarrow> string \<times> string \<times> string" where
  "row_delivery r = (event_id r, customer_id r, webhook_url r)"

definition first_failure :: "Registry \<Rightarrow> SubscriberEvent \<Rightarrow> go_error" where
  "first_failure reg ev = (case validateEvent ev of Some e \<Rightarrow> e
     | None \<Rightarrow> (case reg_ResolveWebhookURLs reg None (CustomerID ev) of Inl e \<Rightarrow> e | Inr urls \<Rightarrow> Err []))"

lemma Enqueue_rows_no_faults:
  "EnqueueDeliveries ts no_faults now None ev urls t db =
    (Inr (int (length urls)), db\<lparr>rows := rows db @ map2 (new_row ts ev t now) [next_id db .. next_id db + int (length urls) - 1] urls,
       next_id := next_id db + int (length urls)\<rparr>)"
  by (simp add: EnqueueDeliveries_def insert_rows_no_faults commit_def)

lemma new_rows_delivery:
  "length ids = length urls \<Longrightarrow>
    map row_delivery (map2 (new_row ts ev t now) ids urls) = map (\<lambda>url. (EventID ev, CustomerID ev, url)) urls \<and>
    list_all (\<lambda>r. status r = Pending \<and> retry_count r = 0) (map2 (new_row ts ev t now) ids urls)"
  by (induction ids urls rule: list_induct2) (simp_all add: row_delivery_def new_row_def)

lemma enqueueEvents_postgres:
  assumes "workQueue app = PostgresRepository ts locked returning no_faults now"
    and "enqueueEvents_from clock k n events app db = ((m, failure), app', db')"
  shows "\<exists>new. rows db' = rows db @ new \<and> m = n + int (length new) \<and>
    map row_delivery new = deliveries_of (registry app) (takeWhile (acceptable (registry app)) events) \<and>
    list_all (\<lambda>r. status r = Pending \<and> retry_count r = 0) new \<and>
    receivedEvents app' = receivedEvents app + int (length (takeWhile (acceptable (registry app)) events)) \<and>
    failure = (case dropWhile (acceptable (registry app)) events of [] \<Rightarrow> None | ev # _ \<Rightarrow> Some (first_failure (registry app) ev))"
  using assms
proof (induction events arbitrary: k n app db)
  case (Cons ev rest)
  show ?case
  proof (cases "acceptable (registry app) ev")
    case False
    then have "(m, failure) = (n, Some (first_failure (registry app) ev)) \<and> app' = app \<and> db' = db"
    proof (cases "validateEvent ev")
      case None
      then show ?thesis
        using Cons.prems(2) False unfolding enqueueEvents_Cons
        by (auto simp: acceptable_def first_failure_def split: sum.splits)
    next
      case (Some e)
      then have "first_failure (registry app) ev = e" by (simp add: first_failure_def)
      then show ?thesis using Cons.prems(2) unfolding enqueueEvents_Cons Some by simp
    qed
    then show ?thesis using False by (simp add: deliveries_of_def)
  next
    case True
    then obtain urls where ev: "validateEvent ev = None" "reg_ResolveWebhookURLs (registry app) None (CustomerID ev) = Inr urls"
      by (auto simp: acceptable_def)
    let ?new = "map2 (new_row ts ev (clock k) now) [next_id db .. next_id db + int (length urls) - 1] urls"
    let ?db = "db\<lparr>rows := rows db @ ?new, next_id := next_id db + int (length urls)\<rparr>"
    have rest: "enqueueEvents_from clock (Suc k) (n + int (length urls)) rest (received app) ?db = ((m, failure), app', db')"
      using Cons.prems(2) unfolding enqueueEvents_Cons
      by (simp add: ev Cons.prems(1) PostgresRepository_def Enqueue_rows_no_faults)
    have new: "map row_delivery ?new = map (\<lambda>url. (EventID ev, CustomerID ev, url)) urls"
      "list_all (\<lambda>r. status r = Pending \<and> retry_count r = 0) ?new"
      using new_rows_delivery [of "[next_id db .. next_id db + int (length urls) - 1]" urls] by simp_all
    obtain more where more: "rows db' = (rows db @ ?new) @ more" "m = n + int (length urls) + int (length more)"
      "map row_delivery more = deliveries_of (registry app) (takeWhile (acceptable (registry app)) rest)"
      "list_all (\<lambda>r. status r = Pending \<and> retry_count r = 0) more"
      "receivedEvents app' = receivedEvents app + 1 + int (length (takeWhile (acceptable (registry app)) rest))"
      "failure = (case dropWhile (acceptable (registry app)) rest of [] \<Rightarrow> None | ev # _ \<Rightarrow> Some (first_failure (registry app) ev))"
      using Cons.IH [OF _ rest, unfolded received_frame] Cons.prems(1) by auto
    show ?thesis
      using True new more by (intro exI [of _ "?new @ more"]) (simp add: deliveries_of_def urls_for_def ev)
  qed
qed (simp add: deliveries_of_def)

text \<open>
  C10. A batch is ingested up to its first bad event. On a database without faults, exactly the events
  before the first one that is invalid or whose customer has no registration are queued, in order, one pending row per
  registered URL, behind the rows that were there; the answer is 202 with the numbers of events and
  rows when every event was accepted, 404 when the first bad event has an unregistered customer, 400
  otherwise. (A rejected batch therefore leaves the deliveries of its first events behind.)
\<close>

theorem batch_is_ingested_up_to_the_first_bad_event:
  assumes "workQueue app = PostgresRepository ts locked returning no_faults now"
    and "handleBatchEvents clock (Inr events) app db = (answer, app', db')"
  shows "\<exists>new. rows db' = rows db @ new \<and>
    map row_delivery new = deliveries_of (registry app) (takeWhile (acceptable (registry app)) events) \<and>
    list_all (\<lambda>r. status r = Pending \<and> retry_count r = 0) new \<and>
    answer = (case dropWhile (acceptable (registry app)) events of
       [] \<Rightarrow> WriteJSON 202 (Some (ingestResponse (int (length events)) (int (length new))))
     | bad # _ \<Rightarrow> WriteError ErrorPayload
         (if errors_Is (first_failure (registry app) bad) ErrCustomerNotRegistered then 404 else 400)
         (error_text (first_failure (registry app) bad)))"
proof -
  obtain m failure where run: "enqueueEvents_from clock 0 0 events app db = ((m, failure), app', db')"
    and answer: "answer = ingest_reply (int (length events)) (m, failure)"
    using assms(2) by (auto simp: handleBatchEvents_def enqueueEvents_def split: prod.splits)
  from enqueueEvents_postgres [OF assms(1) run] obtain new where new: "rows db' = rows db @ new" "m = int (length new)"
    "map row_delivery new = deliveries_of (registry app) (takeWhile (acceptable (registry app)) events)"
    "list_all (\<lambda>r. status r = Pending \<and> retry_count r = 0) new"
    and failure: "failure = (case dropWhile (acceptable (registry app)) events of [] \<Rightarrow> None | ev # _ \<Rightarrow> Some (first_failure (registry app) ev))"
    by auto
  show ?thesis
    using new
    by (intro exI [of _ new]; cases "dropWhile (acceptable (registry app)) events")
       (simp_all add: answer failure ingest_reply_def del: dropWhile_eq_Nil_conv)
qed

text \<open>One event of a registered customer, then one without an id.\<close>

theorem batch_is_ingested_up_to_the_first_bad_event_witness:
  "reply_code (fst (handleBatchEvents (\<lambda>_. 9) (Inr [sample_event ''e1'' ''acme'', sample_event [] ''acme'']) sample_app empty_queue)) = 400 \<and>
   map row_delivery (rows (snd (snd (handleBatchEvents (\<lambda>_. 9) (Inr [sample_event ''e1'' ''acme'', sample_event [] ''acme'']) sample_app empty_queue)))) =
     [(''e1'', ''acme'', ''http://a'')]"
proof -
  let ?good = "sample_event ''e1'' ''acme''" and ?bad = "sample_event [] ''acme''"
  have "\<forall>p \<in> set space_encodings. CHR ''e'' \<notin> set p" by code_simp
  then have trim: "TrimSpace s \<noteq> []" if "CHR ''e'' \<in> set s" for s using TrimSpace_visible that by blast
  have blank: "TrimSpace [] = []" by code_simp
  have reg: "registry sample_app = open_registry" by (simp add: sample_app_def)
  have good: "acceptable open_registry ?good"
    by (simp add: acceptable_def validateEvent_def sample_event_def open_registry_def time_IsZero_def trim
        SubscriberCreatedEventType_def)
  have bad: "\<not> acceptable open_registry ?bad" "first_failure open_registry ?bad = Err ''eventId is required''"
    by (simp_all add: acceptable_def first_failure_def validateEvent_def sample_event_def blank)
  have "workQueue sample_app = PostgresRepository id {2} id no_faults 5" by (simp add: sample_app_def sample_repo_def)
  moreover obtain answer app' db' where run: "handleBatchEvents (\<lambda>_. 9) (Inr [?good, ?bad]) sample_app empty_queue = (answer, app', db')"
    using prod_cases3 by blast
  ultimately obtain new where "rows db' = rows empty_queue @ new"
    "map row_delivery new = deliveries_of open_registry [?good]" "reply_code answer = 400"
    using batch_is_ingested_up_to_the_first_bad_event [of sample_app id "{2}" id 5 "\<lambda>_. 9" "[?good, ?bad]" empty_queue answer app' db']
    by (auto simp: reg good bad WriteError_def WriteJSON_def)
  then show ?thesis
    unfolding run by (simp add: empty_queue_def deliveries_of_def urls_for_def open_registry_def)
qed

section \<open>The worker\<close>

text \<open>
  C9. One round of a worker always comes to an end and implements its specification: exactly one
  outcome, delivered for a status in the 200s, retried when the attempt may be repeated and the
  policy allows another one, dead-lettered otherwise; exactly the queue call of that outcome (a
  retry becomes due after \<open>InitialDelay * 2^attempt\<close>), and the counters of that outcome.
\<close>

theorem worker_implements_the_outcome:
  assumes "int64 (InitialDelay (retryPolicy app))" and "int64 (MaxRetryAttempt (retryPolicy app))"
    and "int64 (Attempt (ResultJob (deliver app ctx job)))"
    and "result = deliver app ctx job" and "outcome = outcome_of app result"
  shows "\<exists>app'. runWorker_job clock ctx job app q = Some (app', snd (outcome_mark clock ctx app result q)) \<and>
    deliveredEvents app' = deliveredEvents app + (if outcome = Delivered then 1 else 0) \<and>
    failedDeliveries app' = failedDeliveries app + (if outcome = Delivered then 0 else 1) \<and>
    retriedDeliveries app' = retriedDeliveries app + (if outcome = Retried then 1 else 0) \<and>
    deadLetterCount app' = deadLetterCount app + (if outcome = Buried then 1 else 0) \<and>
    map DeadJob (deadLetters app') = map DeadJob (deadLetters app) @ (if outcome = Buried then [ResultJob result] else [])"
proof -
  have "policy_int64 app" using assms(1,2) by (simp add: policy_int64_def)
  from runWorker_job_outcome [OF this assms(3), of clock q] show ?thesis
    unfolding assms(4,5) Let_def by auto
qed

theorem worker_implements_the_outcome_witness:
  "\<exists>app'. runWorker_job (\<lambda>k. 30) None (scan_job first_row) sample_app claimed_queue =
     Some (app', snd (outcome_mark (\<lambda>k. 30) None sample_app (deliver sample_app None (scan_job first_row)) claimed_queue)) \<and>
     deliveredEvents app' = 1"
proof -
  let ?r = "deliver sample_app None (scan_job first_row)"
  have r: "ResultJob ?r = scan_job first_row" "StatusCode ?r = 204"
    by (simp_all add: sample_app_def Deliver_def attempt_result_def sample_http_def)
  then have "outcome_of sample_app ?r = Delivered" by (simp add: outcome_of_def)
  moreover have "int64 (InitialDelay (retryPolicy sample_app))" "int64 (MaxRetryAttempt (retryPolicy sample_app))"
    "deliveredEvents sample_app = 0"
    by (simp_all add: sample_app_def int64_def)
  moreover have "int64 (Attempt (ResultJob ?r))" unfolding r(1) by (simp add: first_row_def new_row_def int64_def)
  ultimately show ?thesis
    using worker_implements_the_outcome [of sample_app None "scan_job first_row", OF _ _ _ refl refl, of "\<lambda>k. 30" claimed_queue]
    by auto
qed

end
