(* ===== verification/Lifecycle.thy ===== *)
theory Lifecycle
  imports Runtime
begin

text \<open>
  How a program ends: \<open>Run\<close> and \<open>shutdown\<close> of the notifier (\<open>internal/notifier/runtime.go\<close>) and \<open>Run\<close>
  of the two mocks (\<open>internal/mockreceiver/runtime.go\<close>, \<open>internal/mockgenerator/runtime.go\<close>).

  The notifier is a process: an instance of \<open>Runtime\<close>, whose goroutines take the steps of \<open>step\<close>, beside
  the goroutine of the HTTP server and the main goroutine, which goes through \<open>Run\<close> and \<open>shutdown\<close> line
  by line. The variables of type \<open>sync.WaitGroup\<close> are cells of a store: the workers and \<open>startWorkers\<close>
  have the address of the variable of \<open>Run\<close>, and a call that passes the group by value makes a new
  cell with a copy of its counter, as every parameter of a Go function is a variable of its own.
  Other instances change the queue at any time.
\<close>

datatype release = ReleaseScheduler | ReleaseServer | ReleaseRegistry | ReleaseQueue

text \<open>What \<open>select\<close> finds: the end of the context, of the server, or of the poller.\<close>

datatype run_end = ContextEnded | ServerEnded "go_error option" | PollerEnded "go_error option"

text \<open>\<open>log.Fatalf\<close> prints and exits with code 1; a \<open>main\<close> that returns exits with code 0.\<close>

datatype main_end = Exited go_int string | Panicked string

definition fatal :: "string \<Rightarrow> go_error \<Rightarrow> main_end" where
  "fatal message e = Exited 1 (message @ '': '' @ error_text e)"

definition end_of_main :: "string \<Rightarrow> go_error option \<Rightarrow> main_end" where
  "end_of_main message runError = (case runError of None \<Rightarrow> Exited 0 [] | Some e \<Rightarrow> fatal message e)"

section \<open>The notifier\<close>

text \<open>What \<open>serveHTTP\<close> sends to \<open>serverErrors\<close> when \<open>ListenAndServe\<close> has returned \<open>listenError\<close>.\<close>

definition serveHTTP :: "go_error option \<Rightarrow> go_error option" where
  "serveHTTP listenError =
    (case listenError of
       None \<Rightarrow> None
     | Some e \<Rightarrow> if \<not> errors_Is e ErrServerClosed then Some e else None)"

definition waitForRuntimeCompletion :: "run_end \<Rightarrow> go_error option" where
  "waitForRuntimeCompletion ended =
    (case ended of ContextEnded \<Rightarrow> None | ServerEnded serverError \<Rightarrow> serverError | PollerEnded queueError \<Rightarrow> queueError)"

definition shutdown_result :: "go_error option \<Rightarrow> go_error option \<Rightarrow> go_error option \<Rightarrow> go_error option" where
  "shutdown_result shutdownError registryCloseError queueCloseError =
    (if shutdownError \<noteq> None then shutdownError
     else if registryCloseError \<noteq> None then registryCloseError
     else if queueCloseError \<noteq> None then queueCloseError
     else None)"

text \<open>
  Where the main goroutine is: in the \<open>select\<close>, before \<open>scheduler.Close\<close> with what the \<open>select\<close> returned,
  before the call of \<open>shutdown\<close>, and in \<open>shutdown\<close>, whose parameter is the cell at the address, with the
  errors collected so far; at last \<open>Run\<close> has returned, and then the process has ended.
\<close>

datatype main_pc =
    Selecting
  | Closing "go_error option"
  | CallingShutdown
  | StoppingServer nat
  | ClosingRegistry nat "go_error option"
  | ClosingQueue nat "go_error option" "go_error option"
  | Waiting nat "go_error option" "go_error option" "go_error option"
  | Returned "go_error option"
  | Ended main_end

record 'q process =
  node :: "'q node"
  shared_queue :: 'q
  begun :: "(go_int \<times> go_int) list"
  main_pc :: main_pc
  serverErrors :: "go_error option option"
  queueErrors :: "go_error option option"
  wait_groups :: "nat list"
  done_calls :: nat
  released :: "release list"

text \<open>The process as a system of one instance.\<close>

definition system_of :: "'q process \<Rightarrow> 'q system" where
  "system_of p = \<lparr>instances = [node p], queue = shared_queue p, attempts = begun p\<rparr>"

definition with_system :: "'q system \<Rightarrow> 'q process \<Rightarrow> 'q process" where
  "with_system sys p = p\<lparr>node := instances sys ! 0, shared_queue := queue sys, begun := attempts sys\<rparr>"

definition stopped_workers :: "'q node \<Rightarrow> nat" where
  "stopped_workers inst = length (filter (\<lambda>w. w = WStopped) (workers inst))"

definition alive :: "'q process \<Rightarrow> bool" where
  "alive p \<longleftrightarrow> (case main_pc p of Ended _ \<Rightarrow> False | _ \<Rightarrow> True)"

text \<open>\<open>Run\<close> up to the \<open>select\<close>: \<open>startWorkers\<close> has added one to the group for each worker.\<close>

definition start_process :: "'q Application \<Rightarrow> 'q \<Rightarrow> 'q process" where
  "start_process app q =
    \<lparr>node = start_instance app, shared_queue = q, begun = [], main_pc = Selecting, serverErrors = None, queueErrors = None,
     wait_groups = [nat (WorkerCount (config app))], done_calls = 0, released = []\<rparr>"

inductive process_step :: "'q Repository set \<Rightarrow> 'q process \<Rightarrow> 'q process \<Rightarrow> bool" for repos where
  own_step: "alive p \<Longrightarrow> step {} repos l (system_of p) sys' \<Longrightarrow> l \<notin> {Start, Crash, Poll} \<Longrightarrow>
    process_step repos p ((with_system sys' p)\<lparr>queueErrors :=
      (if poller_running (node p) \<and> \<not> poller_running (instances sys' ! 0) then Some None else queueErrors p)\<rparr>)"
| own_poll: "alive p \<Longrightarrow> inst = node p \<Longrightarrow> poller_running inst \<Longrightarrow> repo \<in> repos \<Longrightarrow>
    claimAndSchedule (inst_context inst) owner now ((application inst)\<lparr>workQueue := repo\<rparr>) (shared_queue p) =
      (failure, app', q') \<Longrightarrow>
    process_step repos p (p\<lparr>node := inst\<lparr>application := app', poller_running := (failure = None)\<rparr>, shared_queue := q',
      queueErrors := (if failure = None then queueErrors p else Some failure)\<rparr>)"
| others: "alive p \<Longrightarrow> process_step repos p (p\<lparr>shared_queue := q'\<rparr>)"
| server_ends: "alive p \<Longrightarrow> serverErrors p = None \<Longrightarrow>
    process_step repos p (p\<lparr>serverErrors := Some (serveHTTP listenError)\<rparr>)"
| worker_Done: "alive p \<Longrightarrow> done_calls p < stopped_workers (node p) \<Longrightarrow>
    process_step repos p (p\<lparr>done_calls := Suc (done_calls p), wait_groups := (wait_groups p)[0 := wait_groups p ! 0 - 1]\<rparr>)"
| ticker_panics: "alive p \<Longrightarrow>
    QueuePollInterval (config (application (node p))) \<le> 0 \<or> MetricsReportInterval (config (application (node p))) \<le> 0 \<Longrightarrow>
    process_step repos p (p\<lparr>main_pc := Ended (Panicked ''non-positive interval for NewTicker'')\<rparr>)"
| select_context: "main_pc p = Selecting \<Longrightarrow> context_done (node p) \<Longrightarrow>
    process_step repos p (p\<lparr>main_pc := Closing (waitForRuntimeCompletion ContextEnded)\<rparr>)"
| select_server: "main_pc p = Selecting \<Longrightarrow> serverErrors p = Some e \<Longrightarrow>
    process_step repos p (p\<lparr>main_pc := Closing (waitForRuntimeCompletion (ServerEnded e))\<rparr>)"
| select_queue: "main_pc p = Selecting \<Longrightarrow> queueErrors p = Some e \<Longrightarrow>
    process_step repos p (p\<lparr>main_pc := Closing (waitForRuntimeCompletion (PollerEnded e))\<rparr>)"
| close_scheduler: "main_pc p = Closing runError \<Longrightarrow>
    process_step repos p (p\<lparr>node := set_scheduler (Close (inst_scheduler (node p))) (node p),
      released := released p @ [ReleaseScheduler],
      main_pc := (if runError \<noteq> None then Returned runError else CallingShutdown)\<rparr>)"
| call_shutdown: "main_pc p = CallingShutdown \<Longrightarrow>
    process_step repos p (p\<lparr>wait_groups := wait_groups p @ [wait_groups p ! 0],
      main_pc := StoppingServer (length (wait_groups p))\<rparr>)"
| server_Shutdown: "main_pc p = StoppingServer a \<Longrightarrow>
    process_step repos p (p\<lparr>released := released p @ [ReleaseServer], main_pc := ClosingRegistry a shutdownError\<rparr>)"
| registry_Close: "main_pc p = ClosingRegistry a e1 \<Longrightarrow>
    process_step repos p (p\<lparr>released := released p @ [ReleaseRegistry], main_pc := ClosingQueue a e1 registryCloseError\<rparr>)"
| queue_Close: "main_pc p = ClosingQueue a e1 e2 \<Longrightarrow>
    process_step repos p (p\<lparr>released := released p @ [ReleaseQueue], main_pc := Waiting a e1 e2 queueCloseError\<rparr>)"
| group_Wait: "main_pc p = Waiting a e1 e2 e3 \<Longrightarrow> wait_groups p ! a = 0 \<Longrightarrow>
    process_step repos p (p\<lparr>main_pc := Returned (shutdown_result e1 e2 e3)\<rparr>)"
| main_returns: "main_pc p = Returned runError \<Longrightarrow>
    process_step repos p (p\<lparr>main_pc := Ended (end_of_main ''run notifier'' runError)\<rparr>)"

abbreviation process_steps :: "'q Repository set \<Rightarrow> 'q process \<Rightarrow> 'q process \<Rightarrow> bool" where
  "process_steps repos \<equiv> (process_step repos)\<^sup>*\<^sup>*"

inductive_cases process_stepE: "process_step repos p p'"

section \<open>The mocks\<close>

text \<open>\<open>listened\<close> is what \<open>ListenAndServe\<close> returned, if it did so before the context ended.\<close>

definition mock_Run :: "go_error option \<Rightarrow> go_error option option \<Rightarrow> go_error option \<times> release list" where
  "mock_Run shutdownError listened =
    (case listened of
       None \<Rightarrow> (shutdownError, [ReleaseServer])
     | Some listenError \<Rightarrow>
        (case serveHTTP listenError of
           Some serverError \<Rightarrow> (Some serverError, [])
         | None \<Rightarrow> (shutdownError, [ReleaseServer])))"

text \<open>\<open>Run\<close> of the generator is the same code as that of the receiver.\<close>

definition gen_Run :: "go_error option \<Rightarrow> go_error option option \<Rightarrow> go_error option \<times> release list" where
  "gen_Run = mock_Run"

section \<open>The wait groups of a process\<close>

text \<open>No own step of an instance changes the number of its workers or its configuration.\<close>

lemma own_frame:
  assumes "step {} repos l (system_of p) sys'" and "l \<notin> {Start, Crash, Poll}"
  shows "length (instances sys') = 1 \<and> length (workers (instances sys' ! 0)) = length (workers (node p)) \<and>
    config (application (instances sys' ! 0)) = config (application (node p))"
  using assms
proof (cases rule: step.cases)
  case (step_control n inst')
  then show ?thesis
    by (auto simp: system_of_def set_scheduler_def elim!: controlE worker_stop.cases)
next
  case (step_dispatch n inst')
  then show ?thesis by (auto simp: system_of_def set_scheduler_def elim!: dispatchE)
next
  case (step_ingest n inst repo clock decoded reg answer app' q')
  then show ?thesis
    by (auto simp: system_of_def handleBatchEvents_def enqueueEvents_def split: sum.splits prod.splits
        dest!: enqueueEvents_frame)
next
  case (step_ingest_one n inst repo clock decoded_one reg answer app' q')
  then show ?thesis
    by (auto simp: system_of_def handleSingleEvent_def enqueueEvents_def simp del: enqueueEvents_from.simps
        split: sum.splits prod.splits dest!: enqueueEvents_frame)
next
  case (step_report n inst repo now)
  then show ?thesis by (auto simp: system_of_def report_metrics_def log_entry_def Let_def split: sum.splits)
next
  case (step_receive n w job inst')
  then show ?thesis by (auto simp: system_of_def set_scheduler_def elim!: receiveE)
next
  case (step_finish n inst w job repo clock env timeout app' q')
  then show ?thesis using runWorker_frame [OF step_finish(8)] by (auto simp: system_of_def)
qed (auto simp: system_of_def)

text \<open>
  The cell of \<open>Run\<close> counts the workers that have not called \<open>Done\<close>. There is no other cell before the
  call of \<open>shutdown\<close>.
\<close>

definition before_shutdown :: "main_pc \<Rightarrow> bool" where
  "before_shutdown pc \<longleftrightarrow> pc = Selecting \<or> pc = CallingShutdown \<or> (\<exists>e. pc = Closing e)"

definition groups_inv :: "'q process \<Rightarrow> bool" where
  "groups_inv p \<longleftrightarrow> wait_groups p \<noteq> [] \<and> wait_groups p ! 0 + done_calls p = length (workers (node p)) \<and>
     (before_shutdown (main_pc p) \<longrightarrow> length (wait_groups p) = 1)"

lemma stopped_le: "stopped_workers inst \<le> length (workers inst)"
  by (simp add: stopped_workers_def)

lemma groups_inv_step:
  assumes "process_step repos p p'" and "groups_inv p"
  shows "groups_inv p'"
  using assms
proof (cases rule: process_step.cases)
  case (own_step l sys')
  then show ?thesis using assms(2) own_frame [OF own_step(3,4)] by (simp add: groups_inv_def with_system_def)
next
  case worker_Done
  then have "done_calls p < length (workers (node p))" using stopped_le [of "node p"] by linarith
  then show ?thesis using worker_Done assms(2) by (auto simp: groups_inv_def)
qed (auto simp: groups_inv_def before_shutdown_def set_scheduler_def nth_append)

lemma groups_inv_start: "groups_inv (start_process app q)"
  by (simp add: groups_inv_def start_process_def start_instance_def)

lemma groups_inv_steps: "process_steps repos p p' \<Longrightarrow> groups_inv p \<Longrightarrow> groups_inv p'"
  by (induction rule: rtranclp_induct) (auto intro: groups_inv_step)

lemma config_steps: "process_steps repos p p' \<Longrightarrow> config (application (node p')) = config (application (node p))"
proof (induction rule: rtranclp_induct)
  case (step p1 p2)
  from step(2) have "config (application (node p2)) = config (application (node p1))"
  proof (cases rule: process_step.cases)
    case (own_step l sys')
    then show ?thesis using own_frame [OF own_step(3,4)] by (simp add: with_system_def)
  next
    case (own_poll inst repo owner now failure app' q')
    then show ?thesis by (auto simp: claimAndSchedule_def split: if_splits sum.splits prod.splits)
  qed (auto simp: set_scheduler_def)
  with step show ?case by simp
qed simp

section \<open>A shutdown that does not end\<close>

text \<open>In \<open>shutdown\<close> with a parameter that is not zero: no step leaves this.\<close>

fun shutdown_cell :: "main_pc \<Rightarrow> nat option" where
  "shutdown_cell (StoppingServer a) = Some a"
| "shutdown_cell (ClosingRegistry a _) = Some a"
| "shutdown_cell (ClosingQueue a _ _) = Some a"
| "shutdown_cell (Waiting a _ _ _) = Some a"
| "shutdown_cell _ = None"

definition waits_for_ever :: "'q process \<Rightarrow> bool" where
  "waits_for_ever p \<longleftrightarrow> 0 < QueuePollInterval (config (application (node p))) \<and>
     0 < MetricsReportInterval (config (application (node p))) \<and>
     (\<exists>a. shutdown_cell (main_pc p) = Some a \<and> 0 < a \<and> a < length (wait_groups p) \<and> wait_groups p ! a \<noteq> 0)"

lemma waits_step:
  assumes "process_step repos p p'" and "waits_for_ever p"
  shows "waits_for_ever p'"
proof -
  have config: "config (application (node p')) = config (application (node p))"
    by (rule config_steps [OF r_into_rtranclp [of "process_step repos", OF assms(1)]])
  obtain a where a: "shutdown_cell (main_pc p) = Some a" "0 < a" "a < length (wait_groups p)" "wait_groups p ! a \<noteq> 0"
    using assms(2) by (auto simp: waits_for_ever_def)
  from assms(1) have "shutdown_cell (main_pc p') = Some a \<and> a < length (wait_groups p') \<and> wait_groups p' ! a \<noteq> 0"
  proof (cases rule: process_step.cases)
    case (own_step l sys')
    then show ?thesis using a by (simp add: with_system_def)
  next
    case ticker_panics
    then show ?thesis using assms(2) by (auto simp: waits_for_ever_def)
  qed (use a in auto)
  with a(2) assms(2) config show ?thesis unfolding waits_for_ever_def by auto
qed

lemma waits_steps: "process_steps repos p p' \<Longrightarrow> waits_for_ever p \<Longrightarrow> waits_for_ever p'"
  by (induction rule: rtranclp_induct) (auto intro: waits_step)

text \<open>The main goroutine goes through \<open>shutdown\<close> up to \<open>Wait\<close> on its own, and leaves it when the cell is zero.\<close>

lemma shutdown_reaches_Wait:
  assumes "main_pc p = StoppingServer a"
  shows "\<exists>p'. process_steps repos p p' \<and> main_pc p' = Waiting a None None None \<and> node p' = node p \<and>
    shared_queue p' = shared_queue p \<and> wait_groups p' = wait_groups p \<and> done_calls p' = done_calls p"
proof -
  let ?p1 = "p\<lparr>released := released p @ [ReleaseServer], main_pc := ClosingRegistry a None\<rparr>"
  let ?p2 = "?p1\<lparr>released := released ?p1 @ [ReleaseRegistry], main_pc := ClosingQueue a None None\<rparr>"
  let ?p3 = "?p2\<lparr>released := released ?p2 @ [ReleaseQueue], main_pc := Waiting a None None None\<rparr>"
  have "process_step repos p ?p1" by (rule server_Shutdown [OF assms])
  moreover have "process_step repos ?p1 ?p2" by (rule registry_Close) simp
  moreover have "process_step repos ?p2 ?p3" by (rule queue_Close) simp
  ultimately have "process_steps repos p ?p3" by (meson converse_rtranclp_into_rtranclp rtranclp.rtrancl_refl)
  then show ?thesis by (intro exI [of _ ?p3]) simp
qed

lemma Wait_returns:
  assumes "main_pc p = Waiting a None None None" and "wait_groups p ! a = 0"
  shows "\<exists>p'. process_steps repos p p' \<and> main_pc p' = Ended (Exited 0 [])"
proof -
  let ?p1 = "p\<lparr>main_pc := Returned None\<rparr>"
  have "process_step repos p ?p1" using group_Wait [OF assms] by (simp add: shutdown_result_def)
  moreover have "process_step repos ?p1 (?p1\<lparr>main_pc := Ended (Exited 0 [])\<rparr>)"
    using main_returns [of ?p1 None repos] by (simp add: end_of_main_def)
  ultimately have "process_steps repos p (?p1\<lparr>main_pc := Ended (Exited 0 [])\<rparr>)"
    by (meson converse_rtranclp_into_rtranclp rtranclp.rtrancl_refl)
  then show ?thesis by (intro exI [of _ "?p1\<lparr>main_pc := Ended (Exited 0 [])\<rparr>"]) simp
qed

section \<open>Workers after the end of the context\<close>

text \<open>A delivery that meets the end of its context fails for good, so that its round is over.\<close>

definition cancelled_http :: http_env where
  "cancelled_http = \<lparr>marshal = (\<lambda>ev. Inr []), request_fault = (\<lambda>url. None),
     http_do = (\<lambda>timeout ctx req. Inl (NetError ''context canceled'' False False)), http_clock = (\<lambda>k. 0)\<rparr>"

lemma cancelled_round:
  "\<exists>app' q'. runWorker_job clock ctx job (app\<lparr>deliver := Deliver cancelled_http client\<rparr>) q = Some (app', q')"
  by (simp add: runWorker_job_def performDeliveryAttempt_def handleSuccessfulDelivery_def handleRetryableFailure_def
      handlePermanentFailure_def recordDeadLetter_def Deliver_def cancelled_http_def attempt_result_def Let_def split_def)

text \<open>What the steps of workers leave as it is.\<close>

definition same_main :: "'q process \<Rightarrow> 'q process \<Rightarrow> bool" where
  "same_main p p' \<longleftrightarrow> main_pc p' = main_pc p \<and> context_done (node p') = context_done (node p) \<and>
     length (workers (node p')) = length (workers (node p))"

lemma same_main_trans: "same_main p p' \<Longrightarrow> same_main p' p'' \<Longrightarrow> same_main p p''"
  by (simp add: same_main_def)

fun work_left :: "worker_pc \<Rightarrow> nat" where
  "work_left (WBusy job) = 2"
| "work_left WIdle = 1"
| "work_left WStopped = 0"

definition all_work :: "'q process \<Rightarrow> nat" where
  "all_work p = sum_list (map work_left (workers (node p)))"

lemma work_decreases:
  assumes "w < length pcs" and "work_left pc < work_left (pcs ! w)"
  shows "sum_list (map work_left (pcs[w := pc])) < sum_list (map work_left pcs)"
proof -
  have "work_left (pcs ! w) \<le> sum_list (map work_left pcs)" using assms(1) by (intro member_le_sum_list) simp_all
  then show ?thesis using assms by (simp add: map_update sum_list_update)
qed

text \<open>A worker's step: \<open>inst\<close> is the instance after it, with the worker \<open>w\<close> further on.\<close>

lemma worker_own_step:
  assumes "alive p" and "step {} repos l (system_of p) ((system_of p)\<lparr>instances := [inst], queue := q'\<rparr>)"
    and "l \<notin> {Start, Crash, Poll}" and "w < length (workers (node p))" and "work_left pc < work_left (workers (node p) ! w)"
    and "workers inst = (workers (node p))[w := pc]" and "context_done inst = context_done (node p)"
    and "poller_running inst = poller_running (node p)"
  shows "\<exists>p'. process_step repos p p' \<and> same_main p p' \<and> alive p' \<and> all_work p' < all_work p"
proof -
  let ?p = "p\<lparr>node := inst, shared_queue := q'\<rparr>"
  have "process_step repos p ?p"
    using own_step [OF assms(1-3)] assms(8) by (simp add: with_system_def system_of_def)
  moreover have "same_main p ?p \<and> alive ?p \<and> all_work ?p < all_work p"
    using assms work_decreases [OF assms(4,5)] by (simp add: same_main_def alive_def all_work_def)
  ultimately show ?thesis by blast
qed

lemma worker_moves:
  assumes "alive p" and "repo \<in> repos" and "context_done (node p)" and "w < length (workers (node p))"
    and "workers (node p) ! w \<noteq> WStopped"
  shows "\<exists>p'. process_step repos p p' \<and> same_main p p' \<and> alive p' \<and> all_work p' < all_work p"
proof (cases "workers (node p) ! w")
  case WIdle
  let ?inst = "(node p)\<lparr>workers := (workers (node p))[w := WStopped]\<rparr>"
  have "control (node p) ?inst" by (rule worker_done [OF stop_context]) (use assms WIdle in simp_all)
  then have "step {} repos Control (system_of p) ((system_of p)\<lparr>instances := [?inst], queue := shared_queue p\<rparr>)"
    using step_control [of 0 "system_of p" ?inst "{}" repos] by (simp add: system_of_def)
  from worker_own_step [OF assms(1) this _ assms(4), of WStopped] show ?thesis using WIdle by simp
next
  case (WBusy job)
  obtain app' q' where run: "runWorker_job (\<lambda>k. 0) (inst_context (node p)) job
      ((application (node p))\<lparr>workQueue := repo, deliver := Deliver cancelled_http (NewHTTPClient 0)\<rparr>) (shared_queue p) = Some (app', q')"
    using cancelled_round [where app = "(application (node p))\<lparr>workQueue := repo\<rparr>"] by blast
  let ?inst = "(node p)\<lparr>application := app', workers := (workers (node p))[w := WIdle]\<rparr>"
  have sys: "queue (system_of p) = shared_queue p" "instances (system_of p) = [node p]" by (simp_all add: system_of_def)
  have "step {} repos Finish (system_of p) ((system_of p)\<lparr>instances := (instances (system_of p))[0 := ?inst], queue := q'\<rparr>)"
    by (rule step_finish [OF _ _ assms(4) WBusy assms(2) run [folded sys(1)]]) (simp_all only: sys, simp_all)
  then have "step {} repos Finish (system_of p) ((system_of p)\<lparr>instances := [?inst], queue := q'\<rparr>)" unfolding sys(2) list_update.simps nat.case .
  from worker_own_step [OF assms(1) this _ assms(4), of WIdle] show ?thesis using WBusy by simp
qed (use assms in simp)

lemma workers_stop:
  assumes "alive p" and "repo \<in> repos" and "context_done (node p)"
  shows "\<exists>p'. process_steps repos p p' \<and> same_main p p' \<and> alive p' \<and> stopped_workers (node p') = length (workers (node p'))"
  using assms
proof (induction "all_work p" arbitrary: p rule: less_induct)
  case less
  show ?case
  proof (cases "\<forall>w < length (workers (node p)). workers (node p) ! w = WStopped")
    case True
    then have "filter (\<lambda>w. w = WStopped) (workers (node p)) = workers (node p)"
      by (auto simp: filter_id_conv in_set_conv_nth)
    then have "stopped_workers (node p) = length (workers (node p))" by (simp add: stopped_workers_def)
    then show ?thesis using less(2) by (intro exI [of _ p]) (simp add: same_main_def)
  next
    case False
    then obtain p1 where p1: "process_step repos p p1" "same_main p p1" "alive p1" "all_work p1 < all_work p"
      using worker_moves less(2-4) by blast
    then obtain p2 where "process_steps repos p1 p2" "same_main p1 p2" "alive p2"
        "stopped_workers (node p2) = length (workers (node p2))"
      using less(1) [of p1] less(3,4) by (auto simp: same_main_def)
    then show ?thesis using p1 same_main_trans by (meson converse_rtranclp_into_rtranclp)
  qed
qed

lemma workers_call_Done:
  assumes "alive p" and "stopped_workers (node p) = length (workers (node p))" and "groups_inv p"
  shows "\<exists>p'. process_steps repos p p' \<and> same_main p p' \<and> done_calls p' = length (workers (node p'))"
  using assms
proof (induction "length (workers (node p)) - done_calls p" arbitrary: p)
  case 0
  then have "done_calls p = length (workers (node p))" by (simp add: groups_inv_def)
  then show ?case by (intro exI [of _ p]) (simp add: same_main_def)
next
  case (Suc n)
  let ?p = "p\<lparr>done_calls := Suc (done_calls p), wait_groups := (wait_groups p)[0 := wait_groups p ! 0 - 1]\<rparr>"
  have one: "process_step repos p ?p" by (rule worker_Done) (use Suc in simp_all)
  have "\<exists>p'. process_steps repos ?p p' \<and> same_main ?p p' \<and> done_calls p' = length (workers (node p'))"
    by (rule Suc(1)) (use Suc groups_inv_step [OF one] in \<open>simp_all add: alive_def\<close>)
  then show ?case using one by (auto simp: same_main_def intro: converse_rtranclp_into_rtranclp)
qed

text \<open>A shutdown after the end of the context comes to \<open>Wait\<close>, and all workers to the end of theirs.\<close>

lemma shutdown_comes_to_Wait:
  assumes "main_pc p = StoppingServer a" and "repo \<in> repos" and "context_done (node p)" and "groups_inv p"
  shows "\<exists>p'. process_steps repos p p' \<and> main_pc p' = Waiting a None None None \<and>
    done_calls p' = length (workers (node p')) \<and> wait_groups p' ! 0 = 0"
proof -
  obtain p1 where p1: "process_steps repos p p1" "main_pc p1 = Waiting a None None None" "node p1 = node p"
    using shutdown_reaches_Wait [OF assms(1)] by blast
  then have "alive p1" by (simp add: alive_def)
  from workers_stop [OF this assms(2)] obtain p2 where p2: "process_steps repos p1 p2" "same_main p1 p2" "alive p2"
      "stopped_workers (node p2) = length (workers (node p2))" using p1(3) assms(3) by auto
  have "groups_inv p2" using groups_inv_steps p1(1) p2(1) assms(4) by blast
  from workers_call_Done [OF p2(3,4) this] obtain p3 where p3: "process_steps repos p2 p3" "same_main p2 p3"
      "done_calls p3 = length (workers (node p3))" by blast
  have steps: "process_steps repos p p3" using p1(1) p2(1) p3(1) by (meson rtranclp_trans)
  have "wait_groups p3 ! 0 = 0" using groups_inv_steps [OF steps assms(4)] p3(3) by (simp add: groups_inv_def)
  then show ?thesis using steps p1(2) p2(2) p3(2,3) by (auto simp: same_main_def)
qed

lemma call_of_shutdown:
  assumes "process_step repos p p1" and "main_pc p = CallingShutdown" and "main_pc p1 \<noteq> CallingShutdown"
    and "0 < QueuePollInterval (config (application (node p)))" and "0 < MetricsReportInterval (config (application (node p)))"
    and "groups_inv p"
  shows "main_pc p1 = StoppingServer 1 \<and> wait_groups p1 = [wait_groups p ! 0, wait_groups p ! 0] \<and> node p1 = node p"
  using assms
proof (cases rule: process_step.cases)
  case call_shutdown
  then show ?thesis using assms(6)
    by (cases "wait_groups p") (auto simp: groups_inv_def before_shutdown_def)
qed (auto simp: with_system_def)

end
