(* ===== verification/MockGenerator.thy ===== *)
theory MockGenerator
  imports Config Delivery Httpx
begin

text \<open>
  The mock event generator (\<open>internal/mockgenerator\<close>): events with numbered ids, and the requests
  that generate batches of them and publish each batch to the notifier. \<open>intn k n\<close> is the k-th draw
  of the random source asked for a number below \<open>n\<close>; the state counts the draws. The events
  counter grows by one and is an integer. A request whose slice cannot be made (a capacity that is
  negative or beyond \<open>max_cap\<close>) panics before it generates an event and is answered by nothing
  (\<open>None\<close>).
\<close>

section \<open>State\<close>

record GenerateRequest =
  req_CustomerID :: string
  req_EventType :: string
  req_Count :: go_int

record BulkGenerateRequest =
  req_Customers :: go_int
  EventsPerCustomer :: go_int

record generator =
  gen_config :: MockGeneratorConfig
  generatedEventCount :: int
  baseOccurredAt :: time
  gen_draws :: nat

text \<open>\<open>time.Unix(0, n)\<close>: nanoseconds after the Unix epoch, which is so many seconds after Go's zero instant.\<close>

definition unix_nano :: "go_int \<Rightarrow> time" where
  "unix_nano n = 62135596800 * Second + n"

definition gen_NewApplication :: "MockGeneratorConfig \<Rightarrow> generator" where
  "gen_NewApplication cfg =
    \<lparr>gen_config = cfg, generatedEventCount = 0, baseOccurredAt = unix_nano (RandomSeed cfg), gen_draws = 0\<rparr>"

section \<open>Events\<close>

definition generated_event_id :: "go_int \<Rightarrow> go_int \<Rightarrow> go_int \<Rightarrow> string" where
  "generated_event_id seed eventSequence eventIndex =
    ''seed-'' @ Itoa seed @ ''-'' @ Sprintf_0d 6 eventSequence @ ''-'' @ Sprintf_0d 6 eventIndex"

definition newEvent :: "(nat \<Rightarrow> go_int \<Rightarrow> go_int) \<Rightarrow> string \<Rightarrow> string \<Rightarrow> go_int \<Rightarrow> generator \<Rightarrow> SubscriberEvent \<times> generator" where
  "newEvent intn customerID eventType eventIndex app =
    (let subscriberID = ''subscriber-'' @ Sprintf_0d 6 (intn (gen_draws app) 999999);
         eventSequence = generatedEventCount app;
         occurredAt = time_Add (baseOccurredAt app) (wrap64 (eventSequence * Millisecond))
     in (\<lparr>EventID = generated_event_id (RandomSeed (gen_config app)) eventSequence eventIndex, CustomerID = customerID,
          SubscriberID = subscriberID, EventType = eventType, OccurredAt = occurredAt\<rparr>,
         app\<lparr>generatedEventCount := eventSequence + 1, gen_draws := Suc (gen_draws app)\<rparr>))"

text \<open>The loop that appends \<open>n\<close> events of one customer and type, from the index \<open>i\<close> on.\<close>

fun append_events :: "(nat \<Rightarrow> go_int \<Rightarrow> go_int) \<Rightarrow> string \<Rightarrow> string \<Rightarrow> go_int \<Rightarrow> nat \<Rightarrow> generator \<Rightarrow>
    SubscriberEvent list \<times> generator" where
  "append_events intn customerID eventType i 0 app = ([], app)"
| "append_events intn customerID eventType i (Suc n) app =
    (case newEvent intn customerID eventType i app of (ev, app1) \<Rightarrow>
       (case append_events intn customerID eventType (i + 1) n app1 of (evs, app2) \<Rightarrow> (ev # evs, app2)))"

definition numbered_customer :: "nat \<Rightarrow> string" where
  "numbered_customer customerIndex = ''customer-'' @ Sprintf_0d 2 (int customerIndex + 1)"

text \<open>The nested loops of a bulk request: \<open>m\<close> customers from the index \<open>k\<close> on, \<open>n\<close> events each.\<close>

fun bulk_events :: "(nat \<Rightarrow> go_int \<Rightarrow> go_int) \<Rightarrow> nat \<Rightarrow> nat \<Rightarrow> nat \<Rightarrow> generator \<Rightarrow> SubscriberEvent list \<times> generator" where
  "bulk_events intn k 0 n app = ([], app)"
| "bulk_events intn k (Suc m) n app =
    (case append_events intn (numbered_customer k) SubscriberCreatedEventType 0 n app of (evs, app1) \<Rightarrow>
       (case bulk_events intn (Suc k) m n app1 of (rest, app2) \<Rightarrow> (evs @ rest, app2)))"

definition whale_events :: "(nat \<Rightarrow> go_int \<Rightarrow> go_int) \<Rightarrow> generator \<Rightarrow> SubscriberEvent list \<times> generator" where
  "whale_events intn app =
    (case append_events intn ''customer-a'' SubscriberCreatedEventType 0 2000 app of (evs, app1) \<Rightarrow>
     (case append_events intn ''customer-b'' SubscriberCreatedEventType 0 100 app1 of (evs1, app2) \<Rightarrow>
     (case append_events intn ''customer-c'' SubscriberCreatedEventType 0 100 app2 of (evs2, app3) \<Rightarrow>
       (evs @ evs1 @ evs2, app3))))"

text \<open>One draw of the random source outside \<open>newEvent\<close>.\<close>

definition draw :: "(nat \<Rightarrow> go_int \<Rightarrow> go_int) \<Rightarrow> go_int \<Rightarrow> generator \<Rightarrow> go_int \<times> generator" where
  "draw intn n app = (intn (gen_draws app) n, app\<lparr>gen_draws := Suc (gen_draws app)\<rparr>)"

text \<open>An index beyond the supported event types panics (\<open>None\<close>).\<close>

fun mixed_customer :: "(nat \<Rightarrow> go_int \<Rightarrow> go_int) \<Rightarrow> string \<Rightarrow> go_int \<Rightarrow> nat \<Rightarrow> generator \<Rightarrow>
    (SubscriberEvent list \<times> generator) option" where
  "mixed_customer intn customerID i 0 app = Some ([], app)"
| "mixed_customer intn customerID i (Suc n) app =
    (case draw intn (int (length SupportedSubscriberEventTypes)) app of (typeIndex, app1) \<Rightarrow>
       if typeIndex < 0 \<or> typeIndex \<ge> int (length SupportedSubscriberEventTypes) then None
       else case newEvent intn customerID (SupportedSubscriberEventTypes ! nat typeIndex) i app1 of (ev, app2) \<Rightarrow>
         map_option (\<lambda>(evs, app3). (ev # evs, app3)) (mixed_customer intn customerID (i + 1) n app2))"

fun mixed_events :: "(nat \<Rightarrow> go_int \<Rightarrow> go_int) \<Rightarrow> nat \<Rightarrow> nat \<Rightarrow> generator \<Rightarrow> (SubscriberEvent list \<times> generator) option" where
  "mixed_events intn k 0 app = Some ([], app)"
| "mixed_events intn k (Suc m) app =
    (case draw intn 75 app of (drawn, app1) \<Rightarrow>
       (case mixed_customer intn (numbered_customer k) 0 (nat (25 + drawn)) app1 of
          None \<Rightarrow> None
        | Some (evs, app2) \<Rightarrow> map_option (\<lambda>(rest, app3). (evs @ rest, app3)) (mixed_events intn (Suc k) m app2)))"

section \<open>Publishing\<close>

record publish_env =
  marshal_events :: "SubscriberEvent list \<Rightarrow> go_error + string"
  publish_fault :: "string \<Rightarrow> go_error option"
  publish_do :: "duration \<Rightarrow> http_request \<Rightarrow> transport_error + http_response"

definition publishEvents :: "publish_env \<Rightarrow> generator \<Rightarrow> SubscriberEvent list \<Rightarrow> go_error option" where
  "publishEvents env app eventsBatch =
    (case marshal_events env eventsBatch of
       Inl e \<Rightarrow> Some e
     | Inr requestBody \<Rightarrow>
        (let url = NotifierBaseURL (gen_config app) @ ''/events/batch''
         in case publish_fault env url of
              Some e \<Rightarrow> Some e
            | None \<Rightarrow>
               (case publish_do env (HTTPRequestTimeout (gen_config app))
                   \<lparr>req_method = ''POST'', req_url = url,
                    req_header = header_set ''Content-Type'' ''application/json'' Map.empty, req_body = requestBody\<rparr> of
                  Inl e \<Rightarrow> Some (Err (transport_text e))
                | Inr response \<Rightarrow>
                    if resp_StatusCode response < 200 \<or> resp_StatusCode response \<ge> 300
                    then Some (Err (''notifier returned status '' @ Itoa (resp_StatusCode response)))
                    else None)))"

section \<open>Requests\<close>

text \<open>
  \<open>decoded\<close> is what the strict decoder makes of the body; \<open>trailing\<close> what a second call of it
  returns: \<open>io.EOF\<close> when there is nothing more.
\<close>

abbreviation (input) EOF :: go_error where "EOF \<equiv> Err ''EOF''"

definition decodeJSONRequest :: "go_error + 'a \<Rightarrow> go_error option \<Rightarrow> go_error + 'a" where
  "decodeJSONRequest decoded trailing =
    (case decoded of
       Inl e \<Rightarrow> Inl e
     | Inr destination \<Rightarrow>
        (case trailing of
           Some decodeError \<Rightarrow>
             if errors_Is decodeError EOF then Inr destination
             else Inl (Err ''request body must contain a single JSON object'')
         | None \<Rightarrow> Inl (Err ''request body must contain a single JSON object'')))"

definition validateGenerateRequest :: "GenerateRequest \<Rightarrow> go_error option" where
  "validateGenerateRequest generateRequest =
    (if TrimSpace (req_CustomerID generateRequest) = [] then Some (Err ''customerId is required'')
     else if req_Count generateRequest < 0 then Some (Err ''count must be zero or greater'')
     else None)"

definition validateBulkGenerateRequest :: "BulkGenerateRequest \<Rightarrow> go_error option" where
  "validateBulkGenerateRequest bulkRequest =
    (if req_Customers bulkRequest < 0 then Some (Err ''customers must be zero or greater'')
     else if EventsPerCustomer bulkRequest < 0 then Some (Err ''eventsPerCustomer must be zero or greater'')
     else None)"

datatype generator_payload = GeneratorError string | PublishResponse go_int | GeneratorStatus string

text \<open>How every request ends: the batch is published and the answer written.\<close>

definition publish_and_answer :: "publish_env \<Rightarrow> SubscriberEvent list \<Rightarrow> generator \<Rightarrow> generator_payload reply" where
  "publish_and_answer env eventsBatch app =
    (case publishEvents env app eventsBatch of
       Some publishError \<Rightarrow> WriteError GeneratorError StatusBadGateway (error_text publishError)
     | None \<Rightarrow> WriteJSON StatusAccepted (Some (PublishResponse (int (length eventsBatch)))))"

definition capacity_ok :: "go_int \<Rightarrow> go_int \<Rightarrow> bool" where
  "capacity_ok max_cap n \<longleftrightarrow> 0 \<le> n \<and> n \<le> max_cap"

definition handleGenerate :: "(nat \<Rightarrow> go_int \<Rightarrow> go_int) \<Rightarrow> go_int \<Rightarrow> publish_env \<Rightarrow> go_error + GenerateRequest \<Rightarrow> go_error option \<Rightarrow>
    generator \<Rightarrow> generator_payload reply option \<times> generator" where
  "handleGenerate intn max_cap env decoded trailing app =
    (case decodeJSONRequest decoded trailing of
       Inl decodeError \<Rightarrow> (Some (WriteError GeneratorError StatusBadRequest (error_text decodeError)), app)
     | Inr received \<Rightarrow>
        (case validateGenerateRequest received of
           Some e \<Rightarrow> (Some (WriteError GeneratorError StatusBadRequest (error_text e)), app)
         | None \<Rightarrow>
            (let count = (if req_Count received \<le> 0 then 1 else req_Count received);
                 eventType = (if req_EventType received = [] then SubscriberCreatedEventType else req_EventType received)
             in if \<not> capacity_ok max_cap count then (None, app)
                else case append_events intn (req_CustomerID received) eventType 0 (nat count) app of
                  (eventsBatch, app1) \<Rightarrow> (Some (publish_and_answer env eventsBatch app1), app1))))"

definition handleGenerateBulk :: "(nat \<Rightarrow> go_int \<Rightarrow> go_int) \<Rightarrow> go_int \<Rightarrow> publish_env \<Rightarrow> go_error + BulkGenerateRequest \<Rightarrow>
    go_error option \<Rightarrow> generator \<Rightarrow> generator_payload reply option \<times> generator" where
  "handleGenerateBulk intn max_cap env decoded trailing app =
    (case decodeJSONRequest decoded trailing of
       Inl decodeError \<Rightarrow> (Some (WriteError GeneratorError StatusBadRequest (error_text decodeError)), app)
     | Inr received \<Rightarrow>
        (case validateBulkGenerateRequest received of
           Some e \<Rightarrow> (Some (WriteError GeneratorError StatusBadRequest (error_text e)), app)
         | None \<Rightarrow>
            (let customers = (if req_Customers received \<le> 0 then DefaultCustomerCount (gen_config app) else req_Customers received);
                 perCustomer = (if EventsPerCustomer received \<le> 0 then 100 else EventsPerCustomer received)
             in if \<not> capacity_ok max_cap (wrap64 (customers * perCustomer)) then (None, app)
                else case bulk_events intn 0 (nat customers) (nat perCustomer) app of
                  (eventsBatch, app1) \<Rightarrow> (Some (publish_and_answer env eventsBatch app1), app1))))"

definition handleWhaleScenario :: "(nat \<Rightarrow> go_int \<Rightarrow> go_int) \<Rightarrow> publish_env \<Rightarrow> generator \<Rightarrow> generator_payload reply \<times> generator" where
  "handleWhaleScenario intn env app =
    (case whale_events intn app of (eventsBatch, app1) \<Rightarrow> (publish_and_answer env eventsBatch app1, app1))"

definition handleMixedScenario :: "(nat \<Rightarrow> go_int \<Rightarrow> go_int) \<Rightarrow> go_int \<Rightarrow> publish_env \<Rightarrow> generator \<Rightarrow>
    generator_payload reply option \<times> generator" where
  "handleMixedScenario intn max_cap env app =
    (if \<not> capacity_ok max_cap (wrap64 (DefaultCustomerCount (gen_config app) * 75)) then (None, app)
     else case mixed_events intn 0 (nat (DefaultCustomerCount (gen_config app))) app of
       None \<Rightarrow> (None, app)
     | Some (eventsBatch, app1) \<Rightarrow> (Some (publish_and_answer env eventsBatch app1), app1))"

definition gen_handleHealth :: "generator_payload reply" where
  "gen_handleHealth = WriteJSON StatusOK (Some (GeneratorStatus ''ok''))"

datatype generator_route = GenerateRoute | BulkRoute | WhaleRoute | MixedRoute | GeneratorHealthRoute

definition gen_router :: "string \<Rightarrow> string \<Rightarrow> generator_route routed" where
  "gen_router = serve_mux
    [((''POST'', ''/generate''), GenerateRoute), ((''POST'', ''/generate/bulk''), BulkRoute),
     ((''POST'', ''/scenario/whale''), WhaleRoute), ((''POST'', ''/scenario/mixed''), MixedRoute),
     ((''GET'', ''/health''), GeneratorHealthRoute)]"

end
