(* ===== verification/MockGenerator_Correct.thy ===== *)
theory MockGenerator_Correct
  imports MockGenerator Notifier
begin

text \<open>
  What the generator promises: its event ids never repeat, its events pass the notifier's validation
  but for a blank event type, and what each request publishes and answers.
\<close>

section \<open>Padded numbers\<close>

lemma digit_char_digit: "d < 10 \<Longrightarrow> digit_char d \<noteq> CHR ''-''"
  using digit_char_not_sign by blast

lemma show_nat_digits: "CHR ''-'' \<notin> set (show_nat n)"
proof (induction n rule: show_nat.induct)
  case (1 n)
  then show ?case
    by (subst show_nat.simps) (auto dest: digit_char_digit [OF mod_less_divisor] simp: digit_char_digit [symmetric])
qed

lemma parse_zeros: "parse_digits 0 (replicate k (CHR ''0'') @ s) = parse_digits 0 s"
proof (induction k)
  case (Suc k)
  have "digit_value (CHR ''0'') = Some 0" by code_simp
  then show ?case using Suc by simp
qed simp

lemma Sprintf_nat: "0 \<le> i \<Longrightarrow> Sprintf_0d w i = replicate (w - length (show_nat (nat i))) (CHR ''0'') @ show_nat (nat i)"
  by (simp add: Sprintf_0d_def Let_def)

lemma Sprintf_inj:
  assumes "0 \<le> i" and "0 \<le> j" and "Sprintf_0d w i = Sprintf_0d w j"
  shows "i = j"
proof -
  have "parse_digits 0 (Sprintf_0d w i) = Some (nat i)" and "parse_digits 0 (Sprintf_0d w j) = Some (nat j)"
    using assms(1,2) by (simp_all add: Sprintf_nat parse_zeros parse_show_nat)
  then show ?thesis using assms by simp
qed

lemma Sprintf_no_hyphen: "0 \<le> i \<Longrightarrow> CHR ''-'' \<notin> set (Sprintf_0d w i)"
  using show_nat_digits by (auto simp: Sprintf_nat)

text \<open>The sequence number can be read off an event id.\<close>

lemma generated_event_id_inj:
  assumes "0 \<le> n" and "0 \<le> m" and "generated_event_id seed n i = generated_event_id seed m j"
  shows "n = m"
proof -
  have split: "takeWhile (\<lambda>c. c \<noteq> CHR ''-'') (Sprintf_0d 6 k @ ''-'' @ s) = Sprintf_0d 6 k" if "0 \<le> k" for k s
    using Sprintf_no_hyphen [OF that, of 6] by (subst takeWhile_append2) auto
  have "Sprintf_0d 6 n @ ''-'' @ Sprintf_0d 6 i = Sprintf_0d 6 m @ ''-'' @ Sprintf_0d 6 j"
    using assms(3) by (simp add: generated_event_id_def)
  from arg_cong [OF this, of "takeWhile (\<lambda>c. c \<noteq> CHR ''-'')"] have "Sprintf_0d 6 n = Sprintf_0d 6 m"
    using split assms(1,2) by simp
  then show ?thesis by (rule Sprintf_inj [OF assms(1,2)])
qed

section \<open>Names that are not blank\<close>

lemma generated_names_visible:
  "TrimSpace (generated_event_id seed n i) \<noteq> []" "TrimSpace (''subscriber-'' @ s) \<noteq> []"
  "TrimSpace (numbered_customer k) \<noteq> []" "ty \<in> set SupportedSubscriberEventTypes \<Longrightarrow> TrimSpace ty \<noteq> []"
  by (rule TrimSpace_visible [OF _ visible_letters(1)], simp add: generated_event_id_def
      | rule TrimSpace_visible [OF _ visible_letters(1)], simp
      | rule TrimSpace_visible [OF _ visible_letters(2)], simp add: numbered_customer_def
      | rule TrimSpace_visible [OF _ visible_letters(1)],
        auto simp: SupportedSubscriberEventTypes_def SubscriberCreatedEventType_def
          SubscriberAddedToSegmentEventType_def SubscriberUnsubscribedEventType_def)+

section \<open>Batches\<close>

text \<open>
  A batch made from one state to another: one event per sequence number, in order. The notifier can
  object to nothing but a blank event type.
\<close>

definition type_verdict :: "SubscriberEvent \<Rightarrow> go_error option" where
  "type_verdict ev = (if TrimSpace (EventType ev) = [] then Some (Err ''eventType is required'') else None)"

definition batch :: "generator \<Rightarrow> SubscriberEvent list \<Rightarrow> generator \<Rightarrow> bool" where
  "batch app evs app' \<longleftrightarrow> gen_config app' = gen_config app \<and> baseOccurredAt app' = baseOccurredAt app \<and>
     generatedEventCount app' = generatedEventCount app + int (length evs) \<and>
     (\<forall>k < length evs. (\<exists>i. EventID (evs ! k) =
        generated_event_id (RandomSeed (gen_config app)) (generatedEventCount app + int k) i) \<and>
        validateEvent (evs ! k) = type_verdict (evs ! k))"

definition gen_ok :: "generator \<Rightarrow> bool" where
  "gen_ok app \<longleftrightarrow> 0 \<le> generatedEventCount app \<and> int64 (RandomSeed (gen_config app)) \<and>
     baseOccurredAt app = unix_nano (RandomSeed (gen_config app))"

lemma batch_Nil: "batch app [] app"
  by (simp add: batch_def)

lemma batch_append:
  assumes "batch app evs app1" and "batch app1 evs' app2"
  shows "batch app (evs @ evs') app2"
proof -
  have "\<exists>i. EventID ((evs @ evs') ! k) =
        generated_event_id (RandomSeed (gen_config app)) (generatedEventCount app + int k) i"
    and "validateEvent ((evs @ evs') ! k) = type_verdict ((evs @ evs') ! k)" if k: "k < length (evs @ evs')" for k
    using assms k unfolding batch_def by (cases "k < length evs"; auto simp: nth_append dest!: spec [of _ "k - length evs"])+
  then show ?thesis using assms by (simp add: batch_def)
qed

lemma batch_ok: "batch app evs app' \<Longrightarrow> gen_ok app \<Longrightarrow> gen_ok app'"
  by (simp add: batch_def gen_ok_def)

lemma batch_draw: "batch (app\<lparr>gen_draws := k\<rparr>) evs app' \<Longrightarrow> batch app evs app'"
  by (simp add: batch_def)

lemma newEvent_batch:
  assumes "gen_ok app" and "TrimSpace c \<noteq> []" and "newEvent intn c ty i app = (ev, app1)"
  shows "batch app [ev] app1" and "CustomerID ev = c" and "EventType ev = ty"
proof -
  have "int64 (wrap64 (generatedEventCount app * 1000000))" by (rule int64_wrap64)
  then have "OccurredAt ev > 0"
    using assms(1,3) by (auto simp: newEvent_def Let_def gen_ok_def unix_nano_def time_Add_def int64_def)
  then show "batch app [ev] app1"
    using assms(2,3) generated_names_visible(1,2)
    by (auto simp: newEvent_def Let_def batch_def validateEvent_def type_verdict_def time_IsZero_def)
  show "CustomerID ev = c" "EventType ev = ty" using assms(3) by (auto simp: newEvent_def Let_def)
qed

lemma append_events_batch:
  assumes "TrimSpace c \<noteq> []" and "gen_ok app" and "append_events intn c ty i n app = (evs, app')"
  shows "batch app evs app'" and "length evs = n" and "\<forall>ev \<in> set evs. CustomerID ev = c \<and> EventType ev = ty"
proof -
  have "batch app evs app' \<and> length evs = n \<and> (\<forall>ev \<in> set evs. CustomerID ev = c \<and> EventType ev = ty)"
    using assms(2,3)
  proof (induction n arbitrary: i app evs)
    case (Suc n)
    obtain ev app1 where new: "newEvent intn c ty i app = (ev, app1)" by fastforce
    obtain rest where rest: "append_events intn c ty (i + 1) n app1 = (rest, app')" "evs = ev # rest"
      using Suc.prems(2) new by (auto split: prod.splits)
    note ev = newEvent_batch [OF Suc.prems(1) assms(1) new]
    note IH = Suc.IH [OF batch_ok [OF ev(1) Suc.prems(1)] rest(1)]
    show ?case using batch_append [OF ev(1) conjunct1 [OF IH]] IH ev(2,3) by (simp add: rest(2))
  qed (simp add: batch_Nil)
  then show "batch app evs app'" "length evs = n" "\<forall>ev \<in> set evs. CustomerID ev = c \<and> EventType ev = ty" by auto
qed

lemma created_visible: "TrimSpace SubscriberCreatedEventType \<noteq> []"
  by (rule generated_names_visible(4)) (simp add: SupportedSubscriberEventTypes_def)

lemma bulk_events_batch:
  "gen_ok app \<Longrightarrow> bulk_events intn k m n app = (evs, app') \<Longrightarrow> batch app evs app' \<and> length evs = m * n"
proof (induction m arbitrary: k app evs)
  case (Suc m)
  obtain evs1 app1 where one: "append_events intn (numbered_customer k) SubscriberCreatedEventType 0 n app = (evs1, app1)" by fastforce
  obtain rest where rest: "bulk_events intn (Suc k) m n app1 = (rest, app')" "evs = evs1 @ rest"
    using Suc.prems(2) one by (auto split: prod.splits)
  note one' = append_events_batch [OF generated_names_visible(3) Suc.prems(1) one]
  show ?case
    using Suc.IH [OF batch_ok [OF one'(1) Suc.prems(1)] rest(1)] batch_append [OF one'(1)] one'(2) by (simp add: rest(2))
qed (simp add: batch_Nil)

lemma whale_events_batch:
  assumes "gen_ok app" and "whale_events intn app = (evs, app')"
  shows "batch app evs app'" and "length evs = 2200"
proof -
  have seen: "TrimSpace ''customer-a'' \<noteq> []" "TrimSpace ''customer-b'' \<noteq> []" "TrimSpace ''customer-c'' \<noteq> []"
    by (rule TrimSpace_visible [OF _ visible_letters(2)], simp)+
  obtain a app1 b app2 c where runs: "append_events intn ''customer-a'' SubscriberCreatedEventType 0 2000 app = (a, app1)"
    "append_events intn ''customer-b'' SubscriberCreatedEventType 0 100 app1 = (b, app2)"
    "append_events intn ''customer-c'' SubscriberCreatedEventType 0 100 app2 = (c, app')" "evs = a @ b @ c"
    using assms(2) by (auto simp: whale_events_def split: prod.splits)
  note A = append_events_batch [OF seen(1) assms(1) runs(1)]
  note okA = batch_ok [OF A(1) assms(1)]
  note B = append_events_batch [OF seen(2) okA runs(2)]
  note okB = batch_ok [OF B(1) okA]
  note C = append_events_batch [OF seen(3) okB runs(3)]
  show "batch app evs app'" using batch_append [OF A(1) batch_append [OF B(1) C(1)]] by (simp add: runs(4))
  show "length evs = 2200" using A(2) B(2) C(2) by (simp add: runs(4))
qed

text \<open>The documented range of \<open>Intn\<close>.\<close>

definition intn_range :: "(nat \<Rightarrow> go_int \<Rightarrow> go_int) \<Rightarrow> bool" where
  "intn_range intn \<longleftrightarrow> (\<forall>k n. 0 < n \<longrightarrow> 0 \<le> intn k n \<and> intn k n < n)"

lemma mixed_customer_batch:
  assumes "intn_range intn" and "TrimSpace c \<noteq> []"
  shows "gen_ok app \<Longrightarrow> \<exists>evs app'. mixed_customer intn c i n app = Some (evs, app') \<and> batch app evs app' \<and> length evs = n"
proof (induction n arbitrary: i app)
  case (Suc n)
  let ?m = "int (length SupportedSubscriberEventTypes)"
  let ?t = "intn (gen_draws app) ?m" and ?app1 = "app\<lparr>gen_draws := Suc (gen_draws app)\<rparr>"
  have t: "0 \<le> ?t \<and> ?t < ?m" using assms(1) by (simp add: intn_range_def SupportedSubscriberEventTypes_def)
  obtain ev app2 where new: "newEvent intn c (SupportedSubscriberEventTypes ! nat ?t) i ?app1 = (ev, app2)" by fastforce
  have ok: "gen_ok ?app1" using Suc.prems by (simp add: gen_ok_def)
  note ev = newEvent_batch [OF ok assms(2) new]
  obtain rest app' where rest: "mixed_customer intn c (i + 1) n app2 = Some (rest, app')" "batch app2 rest app'" "length rest = n"
    using Suc.IH [OF batch_ok [OF ev(1) ok]] by blast
  show ?case
    using t new rest(1,3) batch_draw [OF batch_append [OF ev(1) rest(2)]] by (simp add: draw_def)
qed (simp add: batch_Nil)

lemma mixed_events_batch:
  assumes "intn_range intn"
  shows "gen_ok app \<Longrightarrow> \<exists>evs app'. mixed_events intn k m app = Some (evs, app') \<and> batch app evs app' \<and>
    25 * m \<le> length evs \<and> length evs \<le> 99 * m"
proof (induction m arbitrary: k app)
  case (Suc m)
  let ?t = "intn (gen_draws app) 75" and ?app1 = "app\<lparr>gen_draws := Suc (gen_draws app)\<rparr>"
  have t: "0 \<le> ?t \<and> ?t < 75" using assms by (simp add: intn_range_def)
  have ok: "gen_ok ?app1" using Suc.prems by (simp add: gen_ok_def)
  obtain evs app2 where one: "mixed_customer intn (numbered_customer k) 0 (nat (25 + ?t)) ?app1 = Some (evs, app2)"
    and batch: "batch ?app1 evs app2" "length evs = nat (25 + ?t)"
    using mixed_customer_batch [OF assms generated_names_visible(3) ok] by blast
  obtain rest app' where rest: "mixed_events intn (Suc k) m app2 = Some (rest, app')" "batch app2 rest app'"
    "25 * m \<le> length rest" "length rest \<le> 99 * m"
    using Suc.IH [OF batch_ok [OF batch(1) ok]] by blast
  have "25 \<le> length evs \<and> length evs \<le> 99" using t batch(2) by linarith
  then show ?case
    using one rest batch_draw [OF batch_append [OF batch(1) rest(2)]] by (simp add: draw_def)
qed (simp add: batch_Nil)

lemma batch_distinct:
  assumes "batch (gen_NewApplication cfg) evs app"
  shows "distinct (map EventID evs)"
proof -
  have "EventID (evs ! k) \<noteq> EventID (evs ! l)" if "k < length evs" "l < length evs" "k \<noteq> l" for k l
    using assms that generated_event_id_inj [of "int k" "int l" "RandomSeed cfg"]
    by (auto simp: batch_def gen_NewApplication_def) metis
  then show ?thesis by (simp add: distinct_conv_nth)
qed

section \<open>Properties\<close>

text \<open>
  The customers and event types the handlers ask \<open>newEvent\<close> for: those of a generate request that
  passes the validation, those of the bulk and mixed requests, and the whale's.
\<close>

definition requested :: "string \<Rightarrow> string \<Rightarrow> bool" where
  "requested c ty \<longleftrightarrow>
    (\<exists>r. validateGenerateRequest r = None \<and> c = req_CustomerID r \<and>
       ty = (if req_EventType r = [] then SubscriberCreatedEventType else req_EventType r)) \<or>
    (\<exists>k. c = numbered_customer k \<and> ty \<in> set SupportedSubscriberEventTypes) \<or>
    (c \<in> {''customer-a'', ''customer-b'', ''customer-c''} \<and> ty = SubscriberCreatedEventType)"

lemma requested_visible: "requested c ty \<Longrightarrow> TrimSpace c \<noteq> []"
proof -
  have "TrimSpace ''customer-a'' \<noteq> []" "TrimSpace ''customer-b'' \<noteq> []" "TrimSpace ''customer-c'' \<noteq> []"
    by (rule TrimSpace_visible [OF _ visible_letters(2)], simp)+
  then show "requested c ty \<Longrightarrow> TrimSpace c \<noteq> []"
    using generated_names_visible(3) by (auto simp: requested_def validateGenerateRequest_def split: if_splits)
qed

text \<open>
  All events a generator makes in its life. \<open>newEvent\<close> holds a mutex, so the events of requests that
  overlap are made in some order, one at a time; the mixed scenario draws numbers in between.
\<close>

inductive generated :: "(nat \<Rightarrow> go_int \<Rightarrow> go_int) \<Rightarrow> MockGeneratorConfig \<Rightarrow> generator \<Rightarrow> SubscriberEvent list \<Rightarrow> bool"
  for intn cfg where
  gen_new: "generated intn cfg (gen_NewApplication cfg) []"
| gen_event: "generated intn cfg app evs \<Longrightarrow> requested c ty \<Longrightarrow> newEvent intn c ty i app = (ev, app') \<Longrightarrow>
    generated intn cfg app' (evs @ [ev])"
| gen_draw: "generated intn cfg app evs \<Longrightarrow> draw intn n app = (drawn, app') \<Longrightarrow> generated intn cfg app' evs"

text \<open>The loops of the handlers are lives of this kind.\<close>

lemma append_events_generated:
  "generated intn cfg app evs \<Longrightarrow> requested c ty \<Longrightarrow> append_events intn c ty i n app = (new, app') \<Longrightarrow>
    generated intn cfg app' (evs @ new)"
proof (induction n arbitrary: i app evs new)
  case (Suc n)
  obtain ev app1 where one: "newEvent intn c ty i app = (ev, app1)" by fastforce
  obtain rest where "append_events intn c ty (i + 1) n app1 = (rest, app')" "new = ev # rest"
    using Suc.prems(3) one by (auto split: prod.splits)
  then show ?case using Suc.IH [OF gen_event [OF Suc.prems(1,2) one] Suc.prems(2)] by simp
qed simp

lemma bulk_events_generated:
  "generated intn cfg app evs \<Longrightarrow> bulk_events intn k m n app = (new, app') \<Longrightarrow> generated intn cfg app' (evs @ new)"
proof (induction m arbitrary: k app evs new)
  case (Suc m)
  have asked: "requested (numbered_customer k) SubscriberCreatedEventType"
    by (auto simp: requested_def SupportedSubscriberEventTypes_def)
  obtain evs1 app1 where one: "append_events intn (numbered_customer k) SubscriberCreatedEventType 0 n app = (evs1, app1)" by fastforce
  obtain rest where "bulk_events intn (Suc k) m n app1 = (rest, app')" "new = evs1 @ rest"
    using Suc.prems(2) one by (auto split: prod.splits)
  then show ?case using Suc.IH [OF append_events_generated [OF Suc.prems(1) asked one]] by simp
qed simp

lemma whale_events_generated:
  assumes "generated intn cfg app evs" and "whale_events intn app = (new, app')"
  shows "generated intn cfg app' (evs @ new)"
proof -
  have asked: "requested ''customer-a'' SubscriberCreatedEventType" "requested ''customer-b'' SubscriberCreatedEventType"
    "requested ''customer-c'' SubscriberCreatedEventType" by (simp_all add: requested_def)
  obtain a app1 b app2 c where runs: "append_events intn ''customer-a'' SubscriberCreatedEventType 0 2000 app = (a, app1)"
    "append_events intn ''customer-b'' SubscriberCreatedEventType 0 100 app1 = (b, app2)"
    "append_events intn ''customer-c'' SubscriberCreatedEventType 0 100 app2 = (c, app')" "new = a @ b @ c"
    using assms(2) by (auto simp: whale_events_def split: prod.splits)
  show ?thesis
    using append_events_generated [OF append_events_generated [OF append_events_generated [OF assms(1) asked(1) runs(1)]
      asked(2) runs(2)] asked(3) runs(3)] by (simp add: runs(4))
qed

lemma mixed_customer_generated:
  "generated intn cfg app evs \<Longrightarrow> mixed_customer intn (numbered_customer k) i n app = Some (new, app') \<Longrightarrow>
    generated intn cfg app' (evs @ new)"
proof (induction n arbitrary: i app evs new)
  case (Suc n)
  obtain t app1 where draw: "draw intn (int (length SupportedSubscriberEventTypes)) app = (t, app1)" by fastforce
  have t: "\<not> (t < 0 \<or> int (length SupportedSubscriberEventTypes) \<le> t)" using Suc.prems(2) draw by (auto split: if_splits)
  then have "SupportedSubscriberEventTypes ! nat t \<in> set SupportedSubscriberEventTypes" by (intro nth_mem) linarith
  then have asked: "requested (numbered_customer k) (SupportedSubscriberEventTypes ! nat t)" by (auto simp: requested_def)
  obtain ev app2 where one: "newEvent intn (numbered_customer k) (SupportedSubscriberEventTypes ! nat t) i app1 = (ev, app2)" by fastforce
  obtain rest where "mixed_customer intn (numbered_customer k) (i + 1) n app2 = Some (rest, app')" "new = ev # rest"
    using Suc.prems(2) draw t one by auto
  then show ?case using Suc.IH [OF gen_event [OF gen_draw [OF Suc.prems(1) draw] asked one]] by simp
qed simp

lemma mixed_events_generated:
  "generated intn cfg app evs \<Longrightarrow> mixed_events intn k m app = Some (new, app') \<Longrightarrow> generated intn cfg app' (evs @ new)"
proof (induction m arbitrary: k app evs new)
  case (Suc m)
  obtain t app1 where draw: "draw intn 75 app = (t, app1)" by fastforce
  obtain evs1 app2 where one: "mixed_customer intn (numbered_customer k) 0 (nat (25 + t)) app1 = Some (evs1, app2)"
    using Suc.prems(2) draw by (auto split: option.splits)
  obtain rest where "mixed_events intn (Suc k) m app2 = Some (rest, app')" "new = evs1 @ rest"
    using Suc.prems(2) draw one by auto
  then show ?case using Suc.IH [OF mixed_customer_generated [OF gen_draw [OF Suc.prems(1) draw] one]] by simp
qed simp

text \<open>So every answered request of a generator continues its life.\<close>

lemma requests_generated:
  assumes "generated intn cfg app evs"
  shows "handleGenerate intn max_cap env decoded trailing app = (Some answer, app') \<Longrightarrow> \<exists>new. generated intn cfg app' (evs @ new)"
    and "handleGenerateBulk intn max_cap env decoded_bulk trailing app = (Some answer, app') \<Longrightarrow> \<exists>new. generated intn cfg app' (evs @ new)"
    and "handleWhaleScenario intn env app = (answer, app') \<Longrightarrow> \<exists>new. generated intn cfg app' (evs @ new)"
    and "handleMixedScenario intn max_cap env app = (Some answer, app') \<Longrightarrow> \<exists>new. generated intn cfg app' (evs @ new)"
proof -
  have none: "\<exists>new. generated intn cfg app (evs @ new)" using assms by (intro exI [of _ "[]"]) simp
  have asked: "requested (req_CustomerID r) (if req_EventType r = [] then SubscriberCreatedEventType else req_EventType r)"
    if "validateGenerateRequest r = None" for r using that unfolding requested_def by blast
  have one: "append_events intn (req_CustomerID r) (if req_EventType r = [] then SubscriberCreatedEventType else req_EventType r)
      0 n app = (made, app1) \<Longrightarrow> validateGenerateRequest r = None \<Longrightarrow> \<exists>new. generated intn cfg app1 (evs @ new)" for r n made app1
    using append_events_generated [OF assms asked] by blast
  have bulk: "bulk_events intn 0 m n app = (made, app1) \<Longrightarrow> \<exists>new. generated intn cfg app1 (evs @ new)" for m n made app1
    using bulk_events_generated [OF assms] by blast
  have mixed: "mixed_events intn 0 m app = Some (made, app1) \<Longrightarrow> \<exists>new. generated intn cfg app1 (evs @ new)" for m made app1
    using mixed_events_generated [OF assms] by blast
  show "\<exists>new. generated intn cfg app' (evs @ new)" if "handleGenerate intn max_cap env decoded trailing app = (Some answer, app')"
  proof (cases "decodeJSONRequest decoded trailing")
    case (Inl e)
    then show ?thesis using that none by (simp add: handleGenerate_def)
  next
    case (Inr r)
    let ?n = "if req_Count r \<le> 0 then 1 else req_Count r"
    obtain made app1 where made: "append_events intn (req_CustomerID r)
        (if req_EventType r = [] then SubscriberCreatedEventType else req_EventType r) 0 (nat ?n) app = (made, app1)" by fastforce
    show ?thesis
    proof (cases "validateGenerateRequest r")
      case None
      have "handleGenerate intn max_cap env decoded trailing app =
          (if \<not> capacity_ok max_cap ?n then (None, app) else (Some (publish_and_answer env made app1), app1))"
        unfolding handleGenerate_def Inr sum.case None option.case Let_def made prod.case by (rule refl)
      with that have "app' = app1" by (simp split: if_splits)
      then show ?thesis using one [OF made None] by simp
    next
      case (Some e)
      then show ?thesis using that Inr none by (simp add: handleGenerate_def)
    qed
  qed
  show "\<exists>new. generated intn cfg app' (evs @ new)" if "handleGenerateBulk intn max_cap env decoded_bulk trailing app = (Some answer, app')"
    using that none by (auto simp: handleGenerateBulk_def Let_def split: sum.splits option.splits if_splits prod.splits intro: bulk)
  show "\<exists>new. generated intn cfg app' (evs @ new)" if "handleWhaleScenario intn env app = (answer, app')"
    using that whale_events_generated [OF assms] by (auto simp: handleWhaleScenario_def split: prod.splits)
  show "\<exists>new. generated intn cfg app' (evs @ new)" if "handleMixedScenario intn max_cap env app = (Some answer, app')"
    using that by (auto simp: handleMixedScenario_def split: if_splits option.splits prod.splits intro: mixed)
qed

lemma generated_batch:
  assumes "generated intn cfg app evs" and "int64 (RandomSeed cfg)"
  shows "gen_ok app \<and> batch (gen_NewApplication cfg) evs app"
  using assms(1)
proof induction
  case gen_new
  show ?case using assms(2) by (simp add: gen_ok_def gen_NewApplication_def batch_Nil)
next
  case (gen_event app evs c ty i ev app')
  then show ?case using newEvent_batch(1) [OF _ requested_visible gen_event(3)] batch_ok batch_append by blast
next
  case (gen_draw app evs n drawn app')
  then show ?case by (auto simp: draw_def gen_ok_def batch_def)
qed

text \<open>
  C39. Whatever requests a generator serves, and however they overlap, no two of its events have the
  same id, their number is the counter, and the notifier's validation objects to an event exactly
  when its event type is blank, with the text for that. (Of the requests, only a generate request
  with an event type of blanks makes such events.)
\<close>

theorem generated_events_are_unique_and_valid:
  assumes "generated intn cfg app evs" and "int64 (RandomSeed cfg)"
  shows "distinct (map EventID evs) \<and> generatedEventCount app = int (length evs) \<and>
    list_all (\<lambda>ev. validateEvent ev =
      (if TrimSpace (EventType ev) = [] then Some (Err ''eventType is required'') else None)) evs"
proof -
  have batch: "batch (gen_NewApplication cfg) evs app" using generated_batch [OF assms] by simp
  then show ?thesis using batch_distinct [OF batch]
    by (auto simp: batch_def gen_NewApplication_def list_all_length type_verdict_def)
qed

definition sample_generator_config :: MockGeneratorConfig where
  "sample_generator_config = \<lparr>gen_HTTPAddress = '':8081'', NotifierBaseURL = ''http://notifier'', DefaultCustomerCount = 5,
     RandomSeed = 7, HTTPRequestTimeout = Second, gen_ShutdownTimeout = Second, gen_LogLevel = ''INFO''\<rparr>"

theorem generated_events_are_unique_and_valid_witness:
  "distinct (map EventID (fst (whale_events (\<lambda>k n. 0) (gen_NewApplication sample_generator_config))))"
proof -
  have "generated (\<lambda>k n. 0) sample_generator_config (snd (whale_events (\<lambda>k n. 0) (gen_NewApplication sample_generator_config)))
      ([] @ fst (whale_events (\<lambda>k n. 0) (gen_NewApplication sample_generator_config)))"
    by (rule whale_events_generated [OF gen_new surjective_pairing])
  from generated_events_are_unique_and_valid [OF this] show ?thesis
    by (simp add: sample_generator_config_def int64_def)
qed

lemma append_events_shape:
  "append_events intn c ty i n app = (evs, app') \<Longrightarrow> length evs = n \<and>
    generatedEventCount app' = generatedEventCount app + int n \<and> list_all (\<lambda>ev. CustomerID ev = c \<and> EventType ev = ty) evs"
proof (induction n arbitrary: i app evs)
  case (Suc n)
  obtain ev app1 where new: "newEvent intn c ty i app = (ev, app1)" by fastforce
  then obtain rest where "append_events intn c ty (i + 1) n app1 = (rest, app')" "evs = ev # rest"
    using Suc.prems by (auto split: prod.splits)
  then show ?case using Suc.IH [of "i + 1" app1 rest] new by (auto simp: newEvent_def Let_def)
qed simp

text \<open>
  A well-formed generate request: a blank customer or a negative count is answered with 400 and
  changes nothing; otherwise as many events as asked for (one when the count is zero) of the
  requested customer and type are made and published in one batch, and the answer is 202 with their
  number exactly when the notifier took the batch, 502 when not. (A count that no slice can hold
  makes the request panic.)
\<close>

lemma generate_request_outcome:
  "case handleGenerate intn max_cap env (Inr \<lparr>req_CustomerID = c, req_EventType = ty, req_Count = n\<rparr>) (Some EOF) app of
     (answer, app') \<Rightarrow>
       if TrimSpace c = [] \<or> n < 0
       then app' = app \<and> (\<exists>msg. answer = Some (WriteError GeneratorError 400 msg))
       else if max_cap < max 1 n then app' = app \<and> answer = None
       else \<exists>evs. int (length evs) = max 1 n \<and>
         list_all (\<lambda>ev. CustomerID ev = c \<and> EventType ev = (if ty = [] then SubscriberCreatedEventType else ty)) evs \<and>
         generatedEventCount app' = generatedEventCount app + max 1 n \<and>
         answer = Some (case publishEvents env app' evs of
           None \<Rightarrow> WriteJSON 202 (Some (PublishResponse (max 1 n)))
         | Some e \<Rightarrow> WriteError GeneratorError 502 (error_text e))"
proof -
  let ?ty = "if ty = [] then SubscriberCreatedEventType else ty" and ?n = "if n \<le> 0 then 1 else n"
  obtain evs app1 where run: "append_events intn c ?ty 0 (nat ?n) app = (evs, app1)" by fastforce
  have n: "?n = max 1 n" by auto
  note shape = append_events_shape [OF run]
  show ?thesis
  proof (cases "TrimSpace c = [] \<or> n < 0 \<or> max_cap < max 1 n")
    case True
    then show ?thesis
      by (cases "n \<le> 0") (auto simp: handleGenerate_def decodeJSONRequest_def validateGenerateRequest_def capacity_ok_def Let_def)
  next
    case False
    then have "handleGenerate intn max_cap env (Inr \<lparr>req_CustomerID = c, req_EventType = ty, req_Count = n\<rparr>) (Some EOF) app =
        (Some (publish_and_answer env evs app1), app1)"
      using run
      by (cases "n \<le> 0"; cases "ty = []")
         (simp_all add: handleGenerate_def decodeJSONRequest_def validateGenerateRequest_def capacity_ok_def Let_def
           del: append_events.simps)
    moreover have "int (length evs) = max 1 n" using shape n by simp
    ultimately show ?thesis
      using False shape by (auto simp: publish_and_answer_def n max_def intro!: exI [of _ evs] split: option.split)
  qed
qed

end
