(* ===== verification/Benchmark_Runner.thy ===== *)
theory Benchmark_Runner
  imports Complex_Main Notifier BenchmarkQueue "HOL-Library.Char_ord" "HOL-Library.List_Lexorder"
begin

text \<open>
  The in-memory fairness run of the notifier (\<open>internal/notifier/benchmark_runner.go\<close>): it builds an
  application on the in-memory queue, queues one event per requested job, lets the poller and the
  workers drain them, and summarises per customer when the jobs were completed. A Go map is the
  list of its entries in the order a \<open>range\<close> loop meets them, which is any order; each key occurs
  once, and an absent key reads as the zero value. \<open>sort.Strings\<close> compares bytes, the order of
  \<open>Char_ord\<close> and \<open>List_Lexorder\<close>.

  Which worker completes which job when is up to the Go scheduler: the calls of \<open>onCompletion\<close>, in the
  order in which they hold the mutex, are the argument \<open>completions\<close>, and the properties hold for
  every order. \<open>None\<close> is a run whose \<open>deliveryGroup.Wait\<close> never returns. A quotient of \<open>float64\<close> is
  the rational number before rounding, \<open>None\<close> when the divisor is 0.
\<close>

section \<open>Data\<close>

type_synonym event_counts = "(string \<times> go_int) list"

record BenchmarkFairnessScenario =
  scn_EventsPerCustomer :: event_counts
  CustomerSegments :: "string \<rightharpoonup> string"
  scn_WorkerCount :: go_int
  scn_SyntheticWorkIterations :: go_int
  scn_EarlyCompletionWindow :: go_int

record BenchmarkFairnessCustomerSummary =
  CustomerSegment :: string
  SummaryCustomerID :: string
  JobCount :: go_int
  FirstFinishDuration :: duration
  FinishDuration :: duration
  EarlyCompletionCount :: go_int
  EarlyCompletionShare :: "rat option"

record BenchmarkFairnessRunSummary =
  RunWorkerCount :: go_int
  TotalJobCount :: go_int
  RunEarlyCompletionWindow :: go_int
  TotalDuration :: duration
  TotalJobsPerSecond :: "rat option"
  CustomerSummaries :: "BenchmarkFairnessCustomerSummary list"

definition entry :: "event_counts \<Rightarrow> string \<Rightarrow> go_int" where
  "entry counts customer = (case map_of counts customer of None \<Rightarrow> 0 | Some n \<Rightarrow> n)"

definition float_quotient :: "go_int \<Rightarrow> go_int \<Rightarrow> rat option" where
  "float_quotient a b = (if b = 0 then None else Some (Fract a b))"

definition seconds_quotient :: "go_int \<Rightarrow> duration \<Rightarrow> rat option" where
  "seconds_quotient a d = float_quotient (a * Second) d"

section \<open>Events\<close>

definition benchmarkCustomerOrder :: "event_counts \<Rightarrow> string list" where
  "benchmarkCustomerOrder eventsPerCustomer = sort (map fst eventsPerCustomer)"

definition benchmarkTotalJobCount :: "event_counts \<Rightarrow> go_int" where
  "benchmarkTotalJobCount eventsPerCustomer =
    foldl (\<lambda>totalJobCount (_, eventCount). wrap64 (totalJobCount + eventCount)) 0 eventsPerCustomer"

definition benchmarkEventID :: "string \<Rightarrow> go_int \<Rightarrow> string" where
  "benchmarkEventID customer eventIndex = customer @ ''-event-'' @ Sprintf_0d 6 eventIndex"

text \<open>3 August 2026, 9:00 UTC: so many days and nine hours after the zero instant.\<close>

definition benchmark_occurredAt :: time where
  "benchmark_occurredAt = (739830 * 86400 + 9 * 3600) * Second"

definition benchmark_event :: "string \<Rightarrow> go_int \<Rightarrow> SubscriberEvent" where
  "benchmark_event customer eventIndex =
    (let eventID = benchmarkEventID customer eventIndex
     in \<lparr>EventID = eventID, CustomerID = customer, SubscriberID = ''subscriber-'' @ eventID,
         EventType = ''subscriber.created'', OccurredAt = benchmark_occurredAt\<rparr>)"

definition buildBenchmarkEvents :: "event_counts \<Rightarrow> SubscriberEvent list" where
  "buildBenchmarkEvents eventsPerCustomer =
    concat (map (\<lambda>customer. map (\<lambda>eventIndex. benchmark_event customer (int eventIndex))
        [0 ..< nat (entry eventsPerCustomer customer)])
      (benchmarkCustomerOrder eventsPerCustomer))"

definition max_int :: "go_int \<Rightarrow> go_int \<Rightarrow> go_int" where
  "max_int leftValue rightValue = (if leftValue > rightValue then leftValue else rightValue)"

section \<open>Recording completions\<close>

record completion_log =
  totalCompleted :: go_int
  completionCounts :: "string \<Rightarrow> go_int"
  firstCompletionTimes :: "string \<Rightarrow> time"
  finishCompletionTimes :: "string \<Rightarrow> time"
  earlyCompletionCounts :: "string \<Rightarrow> go_int"

definition no_completions :: completion_log where
  "no_completions = \<lparr>totalCompleted = 0, completionCounts = (\<lambda>_. 0), firstCompletionTimes = (\<lambda>_. 0),
     finishCompletionTimes = (\<lambda>_. 0), earlyCompletionCounts = (\<lambda>_. 0)\<rparr>"

text \<open>
  One completion under the mutex: \<open>firstNow\<close> and \<open>finishNow\<close> are the instants the two assignments
  take, the same one in this file and two calls of \<open>time.Now\<close> in the benchmark command.
\<close>

definition record_completion :: "(string \<Rightarrow> go_int) \<Rightarrow> go_int \<Rightarrow> string \<Rightarrow> time \<Rightarrow> time \<Rightarrow> completion_log \<Rightarrow> completion_log" where
  "record_completion targets earlyWindow customer firstNow finishNow tracked =
    (let total = totalCompleted tracked + 1;
         counts = (completionCounts tracked)(customer := completionCounts tracked customer + 1)
     in tracked\<lparr>totalCompleted := total,
          completionCounts := counts,
          firstCompletionTimes := (if counts customer = 1
             then (firstCompletionTimes tracked)(customer := firstNow) else firstCompletionTimes tracked),
          earlyCompletionCounts := (if total \<le> earlyWindow
             then (earlyCompletionCounts tracked)(customer := earlyCompletionCounts tracked customer + 1)
             else earlyCompletionCounts tracked),
          finishCompletionTimes := (if counts customer = targets customer
             then (finishCompletionTimes tracked)(customer := finishNow) else finishCompletionTimes tracked)\<rparr>)"

definition onCompletion :: "event_counts \<Rightarrow> go_int \<Rightarrow> string \<times> time \<Rightarrow> completion_log \<Rightarrow> completion_log" where
  "onCompletion eventsPerCustomer earlyWindow = (\<lambda>(customer, completedAt).
     record_completion (entry eventsPerCustomer) earlyWindow customer completedAt completedAt)"

definition at_least_one :: "duration \<Rightarrow> duration" where
  "at_least_one d = (if d \<le> 0 then Nanosecond else d)"

section \<open>The run\<close>

definition newBenchmarkNotifierMetrics :: NotifierMetrics where
  "newBenchmarkNotifierMetrics =
    \<lparr>ReceivedEventsCounter = 0, DeliveredEventsCounter = (\<lambda>_. 0), FailedDeliveriesCounter = (\<lambda>_. 0),
     RetriedDeliveriesCounter = 0, DeadLetterCounter = 0, DeliveryDurationHistogram = (\<lambda>_. []),
     ScheduledQueueDepthGauge = 0, PendingQueueDepthGauge = 0, OldestPendingAgeGauge = 0\<rparr>"

text \<open>
  The application of the run; \<open>clock\<close> are the instants of its queue, \<open>now\<close> those of its delivery
  client, whose global sink holds \<open>sink\<close>. (\<open>bench_Deliver_total\<close>: the client always returns.)
\<close>

definition benchmark_application :: "(nat \<Rightarrow> time) \<Rightarrow> (nat \<Rightarrow> time) \<Rightarrow> int \<Rightarrow> RoundRobinScheduler \<Rightarrow>
    BenchmarkFairnessScenario \<Rightarrow> benchmarkQueue Application" where
  "benchmark_application clock now sink newly scenario =
    \<lparr>config = \<lparr>HTTPAddress = [], WorkerCount = scn_WorkerCount scenario, RequestTimeout = 2 * Second,
       MaxRetryAttempts = 0, InitialRetryDelay = 10 * Millisecond,
       QueueClaimBatchSize = max_int 128 (wrap64 (scn_WorkerCount scenario * 64)),
       QueuePollInterval = Millisecond, SchedulerBufferMultiplier = 0, ScheduledQueueLimitFactor = 0,
       MetricsReportInterval = 0, ShutdownTimeout = 0, LogLevel = [], PostgresConnection = [],
       RegistrationResolveQuery = [], RegistrationSnapshotQuery = []\<rparr>,
     registry = benchmark_registry (newBenchmarkRegistry (map_of (scn_EventsPerCustomer scenario))),
     workQueue = benchmarkRepository clock, scheduler = newly,
     deliver = (\<lambda>ctx job. fst (the (bench_Deliver now
       \<lparr>syntheticWorkIterations = scn_SyntheticWorkIterations scenario, hasOnCompletion = True\<rparr> sink ctx job))),
     retryPolicy = \<lparr>InitialDelay = 10 * Millisecond, MaxRetryAttempt = 0\<rparr>,
     notifierMetrics = newBenchmarkNotifierMetrics, deadLetters = [], receivedEvents = 0,
     deliveredEvents = 0, failedDeliveries = 0, retriedDeliveries = 0, deadLetterCount = 0, logged = []\<rparr>"

definition customer_summary :: "BenchmarkFairnessScenario \<Rightarrow> go_int \<Rightarrow> time \<Rightarrow> completion_log \<Rightarrow> string \<Rightarrow>
    BenchmarkFairnessCustomerSummary" where
  "customer_summary scenario earlyWindow startedAt tracked customer =
    \<lparr>CustomerSegment = (case CustomerSegments scenario customer of None \<Rightarrow> [] | Some s \<Rightarrow> s),
     SummaryCustomerID = customer,
     JobCount = entry (scn_EventsPerCustomer scenario) customer,
     FirstFinishDuration = at_least_one (time_Sub (firstCompletionTimes tracked customer) startedAt),
     FinishDuration = at_least_one (time_Sub (finishCompletionTimes tracked customer) startedAt),
     EarlyCompletionCount = earlyCompletionCounts tracked customer,
     EarlyCompletionShare = float_quotient (earlyCompletionCounts tracked customer) earlyWindow\<rparr>"

definition early_window :: "go_int \<Rightarrow> go_int \<Rightarrow> go_int" where
  "early_window requested totalJobCount =
    (if requested \<le> 0 \<or> requested > totalJobCount then totalJobCount else requested)"

definition run_summary :: "BenchmarkFairnessScenario \<Rightarrow> time \<Rightarrow> time \<Rightarrow> completion_log \<Rightarrow> BenchmarkFairnessRunSummary" where
  "run_summary scenario startedAt stoppedAt tracked =
    (let customerOrder = benchmarkCustomerOrder (scn_EventsPerCustomer scenario);
         totalJobCount = benchmarkTotalJobCount (scn_EventsPerCustomer scenario);
         earlyWindow = early_window (scn_EarlyCompletionWindow scenario) totalJobCount;
         totalDuration = at_least_one (time_Sub stoppedAt startedAt)
     in \<lparr>RunWorkerCount = scn_WorkerCount scenario, TotalJobCount = totalJobCount,
         RunEarlyCompletionWindow = earlyWindow, TotalDuration = totalDuration,
         TotalJobsPerSecond = seconds_quotient totalJobCount totalDuration,
         CustomerSummaries = map (customer_summary scenario earlyWindow startedAt tracked) customerOrder\<rparr>)"

text \<open>
  The whole run: a panic is an error of that name; \<open>max_buffer\<close> is the largest buffer a channel can
  have, \<open>clocks\<close> are the instants of the enqueues.
\<close>

definition RunInMemoryFairnessScenario :: "go_int \<Rightarrow> (nat \<Rightarrow> time) \<Rightarrow> (nat \<Rightarrow> time) \<Rightarrow> (nat \<Rightarrow> time) \<Rightarrow> int \<Rightarrow>
    (string \<times> time) list \<Rightarrow> time \<Rightarrow> time \<Rightarrow> BenchmarkFairnessScenario \<Rightarrow>
    (go_error + BenchmarkFairnessRunSummary) option" where
  "RunInMemoryFairnessScenario max_buffer clocks clock now sink completions startedAt stoppedAt scenario =
    (let totalJobCount = benchmarkTotalJobCount (scn_EventsPerCustomer scenario);
         earlyWindow = early_window (scn_EarlyCompletionWindow scenario) totalJobCount
     in if totalJobCount < 0 then Some (Inl (Err ''panic: sync: negative WaitGroup counter''))
        else case NewRoundRobinScheduler max_buffer (max_int 128 (wrap64 (scn_WorkerCount scenario * 64))) of
          None \<Rightarrow> Some (Inl (Err ''panic: makechan: size out of range''))
        | Some newly \<Rightarrow>
           (case enqueueEvents clocks (buildBenchmarkEvents (scn_EventsPerCustomer scenario))
                  (benchmark_application clock now sink newly scenario) newBenchmarkQueue of
              ((createdJobs, Some enqueueError), app, q) \<Rightarrow> Some (Inl enqueueError)
            | ((createdJobs, None), app, q) \<Rightarrow>
                if createdJobs \<noteq> totalJobCount
                then Some (Inl (Err (''expected '' @ Itoa totalJobCount @ '' created jobs, got '' @ Itoa createdJobs)))
                else if int (length completions) < totalJobCount then None
                else Some (Inr (run_summary scenario startedAt stoppedAt
                  (fold (onCompletion (scn_EventsPerCustomer scenario) earlyWindow) completions no_completions)))))"

end
