(* ===== verification/Scheduler_Benchmark.thy ===== *)
theory Scheduler_Benchmark
  imports Benchmark_Runner
begin

text \<open>
  The benchmark command (\<open>cmd/scheduler-benchmark\<close>): its options, its scenarios, one fairness run per
  worker count in either mode, and the analysis and conclusions it prints. What a run observes (the
  completions in the order of the mutex, with the instants of its calls of \<open>time.Now\<close>, and the
  instants of its start and end) is the record \<open>observation\<close>. Go maps, \<open>float64\<close> quotients and runs
  that never return are modelled as in \<open>Benchmark_Runner\<close>.
\<close>

section \<open>Options\<close>

type_synonym benchmarkMode = string

definition benchmarkModeScheduler :: benchmarkMode where "benchmarkModeScheduler = ''scheduler''"
definition benchmarkModeApp :: benchmarkMode where "benchmarkModeApp = ''app''"

record benchmarkOptions =
  mode :: benchmarkMode
  includeLargeScenario :: bool

text \<open>
  \<open>modeFlag\<close> and \<open>includeFlag\<close> are what \<open>flag.Parse\<close> found on the command line; \<open>quote\<close> is the verb
  \<open>%q\<close>. No letter of \<open>true\<close> folds to one outside ASCII, so \<open>EqualFold\<close> with it compares lower-case
  letters.
\<close>

definition parseBenchmarkOptions :: "(string \<Rightarrow> string) \<Rightarrow> environment \<Rightarrow> string option \<Rightarrow> bool option \<Rightarrow>
    go_error + benchmarkOptions" where
  "parseBenchmarkOptions quote env modeFlag includeFlag =
    (let getenv = (\<lambda>v. case env v of None \<Rightarrow> [] | Some s \<Rightarrow> s);
         trimmed = TrimSpace (getenv ''SCHEDULER_BENCHMARK_MODE'');
         defaultMode = (if trimmed = [] then benchmarkModeScheduler else trimmed);
         defaultIncludeLargeScenario =
           (map lower_char (TrimSpace (getenv ''SCHEDULER_BENCHMARK_SKIP_LARGE_FAIRNESS_CASE'')) \<noteq> ''true'');
         modeValue = (case modeFlag of None \<Rightarrow> defaultMode | Some s \<Rightarrow> s);
         includeValue = (case includeFlag of None \<Rightarrow> defaultIncludeLargeScenario | Some b \<Rightarrow> b);
         selectedMode = ToLower (TrimSpace modeValue)
     in if selectedMode = benchmarkModeScheduler \<or> selectedMode = benchmarkModeApp
        then Inr \<lparr>mode = selectedMode, includeLargeScenario = includeValue\<rparr>
        else Inl (Err (''invalid benchmark mode '' @ quote modeValue @ '': expected scheduler or app'')))"

section \<open>Scenarios\<close>

record benchmarkScenario =
  scenario_name :: string
  jobs :: "DeliveryJob list"

definition totalJobs :: "event_counts \<Rightarrow> go_int" where
  "totalJobs eventsPerCustomer =
    foldl (\<lambda>totalJobCount (_, eventCount). wrap64 (totalJobCount + eventCount)) 0 eventsPerCustomer"

definition scenario_job :: "nat \<Rightarrow> string \<Rightarrow> go_int \<Rightarrow> DeliveryJob" where
  "scenario_job jobCount customer eventIndex =
    (let eventID = customer @ ''-event-'' @ Sprintf_0d 4 eventIndex
     in \<lparr>QueueItemID = int jobCount + 1,
         Event = \<lparr>EventID = eventID, CustomerID = customer, SubscriberID = ''subscriber-'' @ eventID,
           EventType = ''subscriber.created'', OccurredAt = benchmark_occurredAt\<rparr>,
         WebhookURL = ''https://example.com/webhook/'' @ customer, Attempt = 0,
         EnqueuedAt = benchmark_occurredAt, LastError = [], TraceID = eventID\<rparr>)"

text \<open>The two loops that append the jobs: over the indices of one customer, over the customers.\<close>

definition append_customer_jobs :: "event_counts \<Rightarrow> string \<Rightarrow> DeliveryJob list \<Rightarrow> DeliveryJob list" where
  "append_customer_jobs eventsPerCustomer customer js =
    fold (\<lambda>eventIndex js. js @ [scenario_job (length js) customer (int eventIndex)])
      [0 ..< nat (entry eventsPerCustomer customer)] js"

text \<open>A negative total is a slice with a negative capacity: the panic is \<open>None\<close>.\<close>

definition newScenario :: "string \<Rightarrow> event_counts \<Rightarrow> benchmarkScenario option" where
  "newScenario name eventsPerCustomer =
    (if totalJobs eventsPerCustomer < 0 then None
     else Some \<lparr>scenario_name = name,
       jobs = fold (append_customer_jobs eventsPerCustomer) (sort (map fst eventsPerCustomer)) []\<rparr>)"

record fairnessScenarioDefinition =
  definition_name :: string
  definition_description :: string
  eventsPerCustomer :: event_counts
  customerSegments :: "string \<rightharpoonup> string"
  workerCounts :: "go_int list"
  syntheticIterations :: go_int

definition four_customers :: "go_int \<Rightarrow> go_int \<Rightarrow> event_counts" where
  "four_customers whales others =
    [(''customer-a'', whales), (''customer-b'', whales), (''customer-c'', others), (''customer-d'', others)]"

definition four_segments :: "string \<rightharpoonup> string" where
  "four_segments = [''customer-a'' \<mapsto> ''whale'', ''customer-b'' \<mapsto> ''whale'',
     ''customer-c'' \<mapsto> ''non-whale'', ''customer-d'' \<mapsto> ''non-whale'']"

definition fairnessScenarioDefinitions :: "benchmarkOptions \<Rightarrow> fairnessScenarioDefinition list" where
  "fairnessScenarioDefinitions options =
    [\<lparr>definition_name = ''two-whales-100-two-normals-2'',
      definition_description = ''Two whale customers with 100 messages each and two normal customers with 2 messages each.'',
      eventsPerCustomer = four_customers 100 2, customerSegments = four_segments,
      workerCounts = [1, 4, 8], syntheticIterations = 60000\<rparr>] @
    (if includeLargeScenario options then
      [\<lparr>definition_name = ''two-whales-200000-two-normals-2'',
        definition_description = ''Two whale customers with 200000 messages each and two normal customers with 2 messages each.'',
        eventsPerCustomer = four_customers 200000 2, customerSegments = four_segments,
        workerCounts = [1, 4, 8], syntheticIterations = 64\<rparr>,
       \<lparr>definition_name = ''two-whales-200000-two-non-whales-1000'',
        definition_description = ''Two whale customers with 200000 messages each and two non-whale customers with 1000 messages each.'',
        eventsPerCustomer = four_customers 200000 1000, customerSegments = four_segments,
        workerCounts = [1, 4, 8], syntheticIterations = 64\<rparr>]
     else [])"

section \<open>One run per worker count\<close>

record customerFairnessSummary =
  customerSegment :: string
  summary_customerID :: string
  jobCount :: go_int
  firstFinishDuration :: duration
  finishDuration :: duration
  earlyCompletionCount :: go_int
  earlyCompletionShare :: "rat option"
  jobsPerSecond :: "rat option"

record fairnessWorkerRunSummary =
  workerCount :: go_int
  totalJobCount :: go_int
  earlyCompletionWindow :: go_int
  totalDuration :: duration
  totalJobsPerSecond :: "rat option"
  customerSummaries :: "customerFairnessSummary list"

record fairnessScenarioSummary =
  summary_name :: string
  summary_description :: string
  summary_jobCount :: go_int
  earlyWindowReason :: string
  workerRunSummaries :: "fairnessWorkerRunSummary list"

definition defaultEarlyCompletionWindow :: go_int where
  "defaultEarlyCompletionWindow = 20"

definition sortedCustomerIDs :: "DeliveryJob list \<Rightarrow> string list" where
  "sortedCustomerIDs js = sort (remdups (map job_customer js))"

definition customerJobCounts :: "DeliveryJob list \<Rightarrow> string \<Rightarrow> go_int" where
  "customerJobCounts js =
    foldl (\<lambda>counts job. counts(job_customer job := counts (job_customer job) + 1)) (\<lambda>_. 0) js"

text \<open>The new value of the global sink.\<close>

definition runSyntheticDelivery :: "DeliveryJob \<Rightarrow> go_int \<Rightarrow> int \<Rightarrow> int option" where
  "runSyntheticDelivery job iterations sink =
    map_option (\<lambda>checksum. wrap64 (sink + checksum)) (bench_checksum (bench_payload job) 0 (nat iterations) 0)"

record observation =
  completed :: "(string \<times> time \<times> time) list"
  run_startedAt :: time
  run_stoppedAt :: time

definition scheduler_customer_summary :: "(string \<rightharpoonup> string) \<Rightarrow> (string \<Rightarrow> go_int) \<Rightarrow> go_int \<Rightarrow> time \<Rightarrow> completion_log \<Rightarrow>
    string \<Rightarrow> customerFairnessSummary" where
  "scheduler_customer_summary segments targetCounts earlyWindow startedAt tracked customer =
    (let finish = at_least_one (time_Sub (finishCompletionTimes tracked customer) startedAt)
     in \<lparr>customerSegment = (case segments customer of None \<Rightarrow> [] | Some s \<Rightarrow> s),
         summary_customerID = customer, jobCount = targetCounts customer,
         firstFinishDuration = at_least_one (time_Sub (firstCompletionTimes tracked customer) startedAt),
         finishDuration = finish,
         earlyCompletionCount = earlyCompletionCounts tracked customer,
         earlyCompletionShare = float_quotient (earlyCompletionCounts tracked customer) earlyWindow,
         jobsPerSecond = seconds_quotient (targetCounts customer) finish\<rparr>)"

text \<open>The whole run of the scheduler mode; \<open>max_buffer\<close> is the largest buffer of a channel.\<close>

definition runSchedulerFairnessWorkerRun :: "go_int \<Rightarrow> observation \<Rightarrow> benchmarkScenario \<Rightarrow> string list \<Rightarrow>
    (string \<rightharpoonup> string) \<Rightarrow> go_int \<Rightarrow> (go_error + fairnessWorkerRunSummary) option" where
  "runSchedulerFairnessWorkerRun max_buffer seen scenario customers segments workers =
    (case NewRoundRobinScheduler max_buffer (int (length (jobs scenario))) of
       None \<Rightarrow> Some (Inl (Err ''panic: makechan: size out of range''))
     | Some newly \<Rightarrow>
        (let jobTotal = int (length (jobs scenario));
             targetCounts = customerJobCounts (jobs scenario);
             earlyWindow = (if jobTotal < defaultEarlyCompletionWindow then jobTotal else defaultEarlyCompletionWindow);
             tracked = fold (\<lambda>(customer, firstNow, finishNow).
               record_completion targetCounts earlyWindow customer firstNow finishNow) (completed seen) no_completions;
             duration = at_least_one (time_Sub (run_stoppedAt seen) (run_startedAt seen))
         in if int (length (completed seen)) < jobTotal then None
            else Some (Inr \<lparr>workerCount = workers, totalJobCount = jobTotal, earlyCompletionWindow = earlyWindow,
              totalDuration = duration, totalJobsPerSecond = seconds_quotient jobTotal duration,
              customerSummaries = map (scheduler_customer_summary segments targetCounts earlyWindow
                (run_startedAt seen) tracked) customers\<rparr>)))"

text \<open>The app mode copies the summary of the notifier's run; it leaves \<open>jobsPerSecond\<close> at zero.\<close>

definition app_customer_summary :: "BenchmarkFairnessCustomerSummary \<Rightarrow> customerFairnessSummary" where
  "app_customer_summary c =
    \<lparr>customerSegment = CustomerSegment c, summary_customerID = SummaryCustomerID c, jobCount = JobCount c,
     firstFinishDuration = FirstFinishDuration c, finishDuration = FinishDuration c,
     earlyCompletionCount = EarlyCompletionCount c, earlyCompletionShare = EarlyCompletionShare c,
     jobsPerSecond = Some 0\<rparr>"

definition runAppFairnessWorkerRun :: "go_int \<Rightarrow> (nat \<Rightarrow> time) \<Rightarrow> (nat \<Rightarrow> time) \<Rightarrow> (nat \<Rightarrow> time) \<Rightarrow> int \<Rightarrow> observation \<Rightarrow>
    fairnessScenarioDefinition \<Rightarrow> go_int \<Rightarrow> (go_error + fairnessWorkerRunSummary) option" where
  "runAppFairnessWorkerRun max_buffer clocks clock now sink seen def workers =
    map_option (map_sum id (\<lambda>s.
      \<lparr>workerCount = RunWorkerCount s, totalJobCount = TotalJobCount s,
       earlyCompletionWindow = RunEarlyCompletionWindow s, totalDuration = TotalDuration s,
       totalJobsPerSecond = TotalJobsPerSecond s,
       customerSummaries = map app_customer_summary (CustomerSummaries s)\<rparr>))
    (RunInMemoryFairnessScenario max_buffer clocks clock now sink
      (map (\<lambda>(customer, completedAt, _). (customer, completedAt)) (completed seen))
      (run_startedAt seen) (run_stoppedAt seen)
      \<lparr>scn_EventsPerCustomer = eventsPerCustomer def, CustomerSegments = customerSegments def,
       scn_WorkerCount = workers, scn_SyntheticWorkIterations = syntheticIterations def,
       scn_EarlyCompletionWindow = defaultEarlyCompletionWindow\<rparr>)"

definition earlyCompletionWindowExplanation :: "go_int \<Rightarrow> string" where
  "earlyCompletionWindowExplanation window =
    ''The early window uses the first '' @ Itoa window @ '' completed jobs. That is large enough to capture both non-whale customers finishing their two messages while still reflecting the first wave of shared progress before whale volume dominates the totals.''"

text \<open>
  The loop over the worker counts stops at the first error; \<open>run k n\<close> is the outcome of the k-th run,
  with \<open>n\<close> workers, in the selected mode.
\<close>

fun worker_runs :: "(nat \<Rightarrow> go_int \<Rightarrow> (go_error + 'a) option) \<Rightarrow> nat \<Rightarrow> go_int list \<Rightarrow> (go_error + 'a list) option" where
  "worker_runs run k [] = Some (Inr [])"
| "worker_runs run k (n # ns) =
    (case run k n of
       None \<Rightarrow> None
     | Some (Inl runError) \<Rightarrow> Some (Inl runError)
     | Some (Inr runSummary) \<Rightarrow> map_option (map_sum id ((#) runSummary)) (worker_runs run (Suc k) ns))"

text \<open>\<open>seen k\<close> is what the k-th run observes.\<close>

definition runFairnessScenario :: "go_int \<Rightarrow> (nat \<Rightarrow> time) \<Rightarrow> (nat \<Rightarrow> time) \<Rightarrow> (nat \<Rightarrow> time) \<Rightarrow> int \<Rightarrow> (nat \<Rightarrow> observation) \<Rightarrow>
    fairnessScenarioDefinition \<Rightarrow> benchmarkMode \<Rightarrow> (go_error + fairnessScenarioSummary) option" where
  "runFairnessScenario max_buffer clocks clock now sink seen def selected =
    (case newScenario (definition_name def) (eventsPerCustomer def) of
       None \<Rightarrow> Some (Inl (Err ''panic: makeslice: cap out of range''))
     | Some scenario \<Rightarrow>
        (let customers = sortedCustomerIDs (jobs scenario);
             run = (\<lambda>k n. if selected = benchmarkModeApp
               then runAppFairnessWorkerRun max_buffer clocks clock now sink (seen k) def n
               else runSchedulerFairnessWorkerRun max_buffer (seen k) scenario customers (customerSegments def) n)
         in map_option (map_sum id (\<lambda>summaries.
              \<lparr>summary_name = definition_name def, summary_description = definition_description def,
               summary_jobCount = int (length (jobs scenario)),
               earlyWindowReason = earlyCompletionWindowExplanation defaultEarlyCompletionWindow,
               workerRunSummaries = summaries\<rparr>))
            (worker_runs run 0 (workerCounts def))))"

fun scenario_runs :: "(nat \<Rightarrow> fairnessScenarioDefinition \<Rightarrow> (go_error + 'a) option) \<Rightarrow> nat \<Rightarrow>
    fairnessScenarioDefinition list \<Rightarrow> (go_error + 'a list) option" where
  "scenario_runs run k [] = Some (Inr [])"
| "scenario_runs run k (def # defs) =
    (case run k def of
       None \<Rightarrow> None
     | Some (Inl scenarioError) \<Rightarrow> Some (Inl scenarioError)
     | Some (Inr summary) \<Rightarrow> map_option (map_sum id ((#) summary)) (scenario_runs run (Suc k) defs))"

definition runFairnessScenarios :: "go_int \<Rightarrow> (nat \<Rightarrow> time) \<Rightarrow> (nat \<Rightarrow> time) \<Rightarrow> (nat \<Rightarrow> time) \<Rightarrow> int \<Rightarrow>
    (nat \<Rightarrow> nat \<Rightarrow> observation) \<Rightarrow> benchmarkOptions \<Rightarrow> (go_error + fairnessScenarioSummary list) option" where
  "runFairnessScenarios max_buffer clocks clock now sink seen options =
    scenario_runs (\<lambda>k def. runFairnessScenario max_buffer clocks clock now sink (seen k) def (mode options)) 0
      (fairnessScenarioDefinitions options)"

section \<open>Analysis\<close>

record fairnessRunInsights =
  averageWhaleFirstCompletion :: duration
  averageNonWhaleFirstCompletion :: duration
  averageWhaleFullCompletion :: duration
  averageNonWhaleFullCompletion :: duration
  whaleVsNonWhaleCompletionGap :: duration
  nonWhalesFinishedBeforeWhales :: bool

text \<open>The variables of the loop over the summaries.\<close>

record fairness_totals =
  whaleCount :: go_int
  nonWhaleCount :: go_int
  whaleFirstTotal :: duration
  nonWhaleFirstTotal :: duration
  whaleFullTotal :: duration
  nonWhaleFullTotal :: duration
  earliestWhaleFullCompletion :: duration
  latestNonWhaleFullCompletion :: duration

definition no_totals :: fairness_totals where
  "no_totals = \<lparr>whaleCount = 0, nonWhaleCount = 0, whaleFirstTotal = 0, nonWhaleFirstTotal = 0,
     whaleFullTotal = 0, nonWhaleFullTotal = 0, earliestWhaleFullCompletion = MaxInt64,
     latestNonWhaleFullCompletion = 0\<rparr>"

definition add_summary :: "customerFairnessSummary \<Rightarrow> fairness_totals \<Rightarrow> fairness_totals" where
  "add_summary c totals =
    (if customerSegment c = ''whale''
     then totals\<lparr>whaleCount := whaleCount totals + 1,
       whaleFirstTotal := wrap64 (whaleFirstTotal totals + firstFinishDuration c),
       whaleFullTotal := wrap64 (whaleFullTotal totals + finishDuration c),
       earliestWhaleFullCompletion := (if finishDuration c < earliestWhaleFullCompletion totals
         then finishDuration c else earliestWhaleFullCompletion totals)\<rparr>
     else totals\<lparr>nonWhaleCount := nonWhaleCount totals + 1,
       nonWhaleFirstTotal := wrap64 (nonWhaleFirstTotal totals + firstFinishDuration c),
       nonWhaleFullTotal := wrap64 (nonWhaleFullTotal totals + finishDuration c),
       latestNonWhaleFullCompletion := (if finishDuration c > latestNonWhaleFullCompletion totals
         then finishDuration c else latestNonWhaleFullCompletion totals)\<rparr>)"

definition analyzeFairnessRun :: "customerFairnessSummary list \<Rightarrow> fairnessRunInsights" where
  "analyzeFairnessRun summaries =
    (let totals = fold add_summary summaries no_totals;
         whaleFirst = (if whaleCount totals > 0 then go_div (whaleFirstTotal totals) (whaleCount totals) else 0);
         whaleFull = (if whaleCount totals > 0 then go_div (whaleFullTotal totals) (whaleCount totals) else 0);
         nonWhaleFirst = (if nonWhaleCount totals > 0 then go_div (nonWhaleFirstTotal totals) (nonWhaleCount totals) else 0);
         nonWhaleFull = (if nonWhaleCount totals > 0 then go_div (nonWhaleFullTotal totals) (nonWhaleCount totals) else 0);
         both = (whaleCount totals > 0 \<and> nonWhaleCount totals > 0)
     in \<lparr>averageWhaleFirstCompletion = whaleFirst, averageNonWhaleFirstCompletion = nonWhaleFirst,
         averageWhaleFullCompletion = whaleFull, averageNonWhaleFullCompletion = nonWhaleFull,
         whaleVsNonWhaleCompletionGap = (if both then wrap64 (whaleFull - nonWhaleFull) else 0),
         nonWhalesFinishedBeforeWhales =
           (both \<and> latestNonWhaleFullCompletion totals < earliestWhaleFullCompletion totals)\<rparr>)"

section \<open>Conclusions\<close>

text \<open>\<open>Duration.Round\<close> to a positive unit: half away from zero, saturating at the ends of the range.\<close>

definition Duration_Round :: "duration \<Rightarrow> duration \<Rightarrow> duration" where
  "Duration_Round unit d =
    (let r = \<bar>d\<bar> mod unit
     in if d < 0
        then (if r + r < unit then d + r else max (- (2 ^ 63)) (d - unit + r))
        else (if r + r < unit then d - r else min MaxInt64 (d + unit - r)))"

definition describeBenchmarkMode :: "benchmarkMode \<Rightarrow> string \<times> string" where
  "describeBenchmarkMode selected =
    (if selected = benchmarkModeApp
     then (''notifier enqueue, in-memory queue claim, scheduler handoff, worker execution, and synthetic delivery work'',
           ''PostgreSQL queue claiming, notifier HTTP ingest, real outbound webhook network cost, and failure-path retry or DLQ behavior'')
     else (''the round-robin scheduler plus a synthetic worker harness that drains scheduled jobs'',
           ''queue claiming, notifier app flow, HTTP ingest, and real delivery behavior''))"

definition buildHowToReadReport :: "benchmarkMode \<Rightarrow> string list" where
  "buildHowToReadReport selected =
    (case describeBenchmarkMode selected of (modeIncludes, modeExcludes) \<Rightarrow>
      [''The throughput tab is a scheduler microbenchmark. Use it to compare scheduler overhead growth, not to claim end-to-end app behavior.'',
       ''The fairness tab is the customer-facing view. Focus on first completion, full completion, and whether non-whales finish ahead of whales.'',
       selected @ '' mode includes: '' @ modeIncludes @ ''.'',
       selected @ '' mode excludes: '' @ modeExcludes @ ''.''])"

definition appModeConfidenceSummary :: "string list" where
  "appModeConfidenceSummary =
    [''App mode is an in-memory notifier-flow confidence step, not a full deployment benchmark.'',
     ''At low worker counts, first completions can lag scheduler mode because the queue poller claims batches before the scheduler redistributes work.'',
     ''The next stronger evidence step is a PostgreSQL-backed app benchmark path that includes real queue claim order and poll behavior.'',
     ''Before making stronger horizontal-scale claims, we still need matching PostgreSQL-backed fairness runs plus at least one full end-to-end deployment measurement with real HTTP delivery cost.'']"

definition buildFairnessConclusion :: "benchmarkMode \<Rightarrow> string \<Rightarrow> fairnessWorkerRunSummary \<Rightarrow> string" where
  "buildFairnessConclusion selected name runSummary =
    (let insights = analyzeFairnessRun (customerSummaries runSummary);
         result = (if nonWhalesFinishedBeforeWhales insights
           then ''non-whales fully finished before the first whale finished''
           else ''non-whales did not fully finish before whales'');
         rounded = (\<lambda>d. Duration_String (Duration_Round Millisecond d))
     in name @ '' in '' @ selected @ '' mode at '' @ Itoa (workerCount runSummary) @
        '' workers: average non-whale full completion '' @ rounded (averageNonWhaleFullCompletion insights) @
        '', average whale full completion '' @ rounded (averageWhaleFullCompletion insights) @
        '', completion gap '' @ rounded (whaleVsNonWhaleCompletionGap insights) @ '', and '' @ result @ ''.'')"

definition fairnessConclusionBlock :: "benchmarkMode \<Rightarrow> fairnessScenarioSummary \<Rightarrow> string list" where
  "fairnessConclusionBlock selected summary =
    map (buildFairnessConclusion selected (summary_name summary)) (workerRunSummaries summary)"

definition formatDurationGap :: "duration \<Rightarrow> string" where
  "formatDurationGap d = (if d = 0 then ''0s'' else Duration_String (Duration_Round Millisecond d))"

end
