(* ===== verification/Benchmark_Correct.thy ===== *)
theory Benchmark_Correct
  imports Benchmark_Runner Notifier_Correct
begin

text \<open>
  The fairness run of the notifier reports what happened: every requested job is created, and for
  every order in which the workers complete the jobs the summary of a customer states the instants
  of its first and its last completion and its completions within the early window.
\<close>

section \<open>The completion log\<close>

definition of_customer :: "string \<Rightarrow> (string \<times> 'a) list \<Rightarrow> (string \<times> 'a) list" where
  "of_customer customer completions = filter (\<lambda>x. fst x = customer) completions"

lemma of_customer_append [simp]:
  "of_customer c [] = []" "of_customer c (xs @ [(d, y)]) = of_customer c xs @ (if d = c then [(d, y)] else [])"
  by (simp_all add: of_customer_def)

lemma record_completion_fields [record_steps]:
  "totalCompleted (record_completion targets w c t u tracked) = totalCompleted tracked + 1"
  "completionCounts (record_completion targets w c t u tracked) =
    (completionCounts tracked)(c := completionCounts tracked c + 1)"
  "firstCompletionTimes (record_completion targets w c t u tracked) =
    (if completionCounts tracked c = 0 then (firstCompletionTimes tracked)(c := t) else firstCompletionTimes tracked)"
  "earlyCompletionCounts (record_completion targets w c t u tracked) =
    (if totalCompleted tracked + 1 \<le> w
     then (earlyCompletionCounts tracked)(c := earlyCompletionCounts tracked c + 1) else earlyCompletionCounts tracked)"
  "finishCompletionTimes (record_completion targets w c t u tracked) =
    (if completionCounts tracked c + 1 = targets c
     then (finishCompletionTimes tracked)(c := u) else finishCompletionTimes tracked)"
  by (simp_all add: record_completion_def Let_def)

definition completion_run :: "(string \<Rightarrow> go_int) \<Rightarrow> go_int \<Rightarrow> (string \<times> time \<times> time) list \<Rightarrow> completion_log" where
  "completion_run targets earlyWindow completions =
    fold (\<lambda>(customer, firstNow, finishNow). record_completion targets earlyWindow customer firstNow finishNow)
      completions no_completions"

lemma completion_run_steps [record_steps]:
  "completion_run targets w [] = no_completions"
  "completion_run targets w (cs @ [(c, t, u)]) = record_completion targets w c t u (completion_run targets w cs)"
  by (simp_all add: completion_run_def)

text \<open>What the log holds after any sequence of completions.\<close>

lemma log_counts:
  "totalCompleted (completion_run targets w cs) = int (length cs)"
  "completionCounts (completion_run targets w cs) c = int (length (of_customer c cs))"
  by (induction cs rule: rev_induct) (auto simp: no_completions_def record_steps)

lemma log_first:
  "firstCompletionTimes (completion_run targets w cs) c =
    (case of_customer c cs of [] \<Rightarrow> 0 | (_, firstNow, _) # _ \<Rightarrow> firstNow)"
proof (induction cs rule: rev_induct)
  case (snoc x cs)
  obtain d t u where x: "x = (d, t, u)" by (cases x)
  show ?case
    using snoc log_counts(2) [of targets w cs]
    by (cases "of_customer c cs") (auto simp: x record_steps)
qed (simp add: no_completions_def record_steps)

lemma log_early:
  "earlyCompletionCounts (completion_run targets w cs) c = int (length (of_customer c (take (nat w) cs)))"
proof (induction cs rule: rev_induct)
  case (snoc x cs)
  obtain d t u where x: "x = (d, t, u)" by (cases x)
  show ?case
  proof (cases "int (length cs) + 1 \<le> w")
    case True
    then have "take (nat w) (cs @ [x]) = cs @ [x]" "take (nat w) cs = cs" by auto
    with snoc True show ?thesis
      using log_counts(1) [of targets w cs] by (auto simp: x record_steps)
  next
    case False
    then have "nat w - length cs = 0" by linarith
    with snoc False show ?thesis
      using log_counts(1) [of targets w cs] by (simp add: x record_steps)
  qed
qed (simp add: no_completions_def record_steps)

lemma log_finish:
  "finishCompletionTimes (completion_run targets w cs) c =
    (if 0 < targets c \<and> targets c \<le> int (length (of_customer c cs))
     then snd (snd (of_customer c cs ! nat (targets c - 1))) else 0)"
proof (induction cs rule: rev_induct)
  case (snoc x cs)
  obtain d t u where x: "x = (d, t, u)" by (cases x)
  let ?k = "length (of_customer c cs)"
  show ?case
  proof (cases "d = c")
    case False
    then show ?thesis using snoc by (simp add: x record_steps)
  next
    case True
    have "finishCompletionTimes (completion_run targets w (cs @ [x])) c =
        (if int ?k + 1 = targets c then u else finishCompletionTimes (completion_run targets w cs) c)"
      using log_counts(2) [of targets w cs c] True by (simp add: x record_steps)
    moreover have "nat (targets c - 1) = ?k" if "int ?k + 1 = targets c" using that by linarith
    moreover have "nat (targets c - 1) < ?k" if "0 < targets c" "targets c \<le> int ?k" using that by linarith
    ultimately show ?thesis using snoc True by (auto simp: x nth_append)
  qed
qed (simp add: no_completions_def record_steps)

section \<open>The events\<close>

lemma visible_e: "\<forall>p \<in> set space_encodings. CHR ''e'' \<notin> set p"
  by code_simp

lemma benchmark_event_valid:
  assumes "TrimSpace c \<noteq> []"
  shows "validateEvent (benchmark_event c i) = None"
proof -
  have "TrimSpace (benchmarkEventID c i) \<noteq> []" "TrimSpace (''subscriber-'' @ benchmarkEventID c i) \<noteq> []"
    "TrimSpace ''subscriber.created'' \<noteq> []"
    by (rule TrimSpace_visible [OF _ visible_e], simp add: benchmarkEventID_def)+
  then show ?thesis
    using assms by (simp add: validateEvent_def benchmark_event_def time_IsZero_def benchmark_occurredAt_def Let_def)
qed

lemma entry_map_of: "distinct (map fst m) \<Longrightarrow> (c, n) \<in> set m \<Longrightarrow> entry m c = n"
  by (simp add: entry_def)

lemma entry_absent: "c \<notin> fst ` set m \<Longrightarrow> entry m c = 0"
  by (metis entry_def map_of_eq_None_iff option.simps(4))

lemma events_customers:
  "map CustomerID (buildBenchmarkEvents m) =
    concat (map (\<lambda>c. replicate (nat (entry m c)) c) (benchmarkCustomerOrder m))"
proof -
  have "map CustomerID (map (\<lambda>i. benchmark_event c (int i)) [0 ..< n]) = replicate n c" for c n
    by (induction n) (simp_all add: benchmark_event_def Let_def replicate_append_same)
  then show ?thesis by (simp add: buildBenchmarkEvents_def map_concat comp_def)
qed

lemma count_replicates:
  "distinct cs \<Longrightarrow> count (mset (concat (map (\<lambda>c. replicate (f c) c) cs))) d = (if d \<in> set cs then f d else 0)"
  by (induction cs) (auto simp: count_mset_0_iff)

text \<open>Each customer gets the requested number of events, in any iteration order of the map.\<close>

lemma count_events:
  assumes "distinct (map fst m)"
  shows "count (mset (map CustomerID (buildBenchmarkEvents m))) c = nat (entry m c)"
  using assms entry_absent [of c m]
  by (auto simp: events_customers count_replicates benchmarkCustomerOrder_def simp del: map_map)

lemma total_wraps_not:
  assumes "list_all (\<lambda>(c, n). 0 \<le> n) m" and "0 \<le> acc" and "acc + sum_list (map snd m) < 2 ^ 63"
  shows "foldl (\<lambda>total (_, n). wrap64 (total + n)) acc m = acc + sum_list (map snd m)"
  using assms
proof (induction m arbitrary: acc)
  case (Cons x m)
  obtain c n where x: "x = (c, n)" by (cases x)
  have "0 \<le> sum_list (map snd m)" using Cons.prems(1) by (intro sum_list_nonneg) (auto simp: list_all_iff)
  then have "wrap64 (acc + n) = acc + n"
    using Cons.prems by (intro wrap64_int64) (auto simp: x int64_def)
  then show ?case using Cons.IH [of "acc + n"] Cons.prems by (simp add: x add.assoc)
qed simp

definition wf_counts :: "event_counts \<Rightarrow> bool" where
  "wf_counts m \<longleftrightarrow> distinct (map fst m) \<and> list_all (\<lambda>(c, n). 0 \<le> n \<and> TrimSpace c \<noteq> []) m \<and>
     sum_list (map snd m) < 2 ^ 63"

lemma total_jobs: "wf_counts m \<Longrightarrow> benchmarkTotalJobCount m = sum_list (map snd m)"
  using total_wraps_not [of m 0] by (auto simp: wf_counts_def benchmarkTotalJobCount_def list_all_iff)

lemma length_events:
  assumes "wf_counts m"
  shows "int (length (buildBenchmarkEvents m)) = sum_list (map snd m)"
proof -
  have "length (buildBenchmarkEvents m) = sum_list (map (\<lambda>c. nat (entry m c)) (benchmarkCustomerOrder m))"
    unfolding buildBenchmarkEvents_def length_concat by (simp add: comp_def)
  also have "\<dots> = sum_mset (image_mset (\<lambda>c. nat (entry m c)) (mset (map fst m)))"
    by (simp add: benchmarkCustomerOrder_def flip: sum_mset_sum_list)
  also have "\<dots> = sum_list (map (\<lambda>c. nat (entry m c)) (map fst m))"
    by (simp add: multiset.map_comp flip: sum_mset_sum_list)
  also have "\<dots> = sum_list (map (nat \<circ> snd) m)"
    using assms entry_map_of [of m] by (intro arg_cong [of _ _ sum_list]) (auto simp: wf_counts_def)
  also have "int \<dots> = sum_list (map snd m)"
    using assms unfolding wf_counts_def by (induction m) auto
  finally show ?thesis .
qed

section \<open>Queueing the events\<close>

lemma enqueue_all:
  assumes "workQueue app = benchmarkRepository clock"
    and "list_all (\<lambda>ev. validateEvent ev = None \<and>
      (\<exists>url. reg_ResolveWebhookURLs (registry app) None (CustomerID ev) = Inr [url])) evs"
  shows "\<exists>app' q'. enqueueEvents_from clocks k n evs app q = ((n + int (length evs), None), app', q')"
  using assms
proof (induction evs arbitrary: k n app q)
  case (Cons ev evs)
  then obtain url where "reg_ResolveWebhookURLs (registry app) None (CustomerID ev) = Inr [url]"
    "validateEvent ev = None" by auto
  moreover have "\<exists>app' q'. enqueueEvents_from clocks (Suc k) (n + 1) evs (received app) q0 =
      ((n + 1 + int (length evs), None), app', q')" for q0
    by (rule Cons.IH) (use Cons.prems in \<open>simp_all\<close>)
  ultimately show ?case
    unfolding enqueueEvents_Cons
    by (simp add: Cons.prems(1) benchmarkRepository_def bench_EnqueueDeliveries_def algebra_simps)
qed simp

lemma benchmark_enqueue:
  assumes "wf_counts (scn_EventsPerCustomer scn)"
  shows "\<exists>app q. enqueueEvents clocks (buildBenchmarkEvents (scn_EventsPerCustomer scn))
      (benchmark_application clock now sink newly scn) newBenchmarkQueue =
    ((int (length (buildBenchmarkEvents (scn_EventsPerCustomer scn))), None), app, q)"
proof -
  let ?m = "scn_EventsPerCustomer scn"
  have "validateEvent ev = None \<and> (\<exists>url. reg_ResolveWebhookURLs
      (registry (benchmark_application clock now sink newly scn)) None (CustomerID ev) = Inr [url])"
    if "ev \<in> set (buildBenchmarkEvents ?m)" for ev
  proof -
    have "\<exists>c i. ev = benchmark_event c i \<and> c \<in> set (benchmarkCustomerOrder ?m)"
      using that by (auto simp: buildBenchmarkEvents_def)
    then obtain c i where ev: "ev = benchmark_event c i" and "c \<in> fst ` set ?m"
      by (auto simp: benchmarkCustomerOrder_def)
    then obtain n where n: "(c, n) \<in> set ?m" by auto
    then have "map_of ?m c = Some n" using assms by (simp add: wf_counts_def)
    moreover have "TrimSpace c \<noteq> []" using assms n by (auto simp: wf_counts_def list_all_iff)
    ultimately show ?thesis
      by (simp add: ev benchmark_event_valid benchmark_application_def benchmark_registry_def
          bench_ResolveWebhookURLs_def newBenchmarkRegistry_def) (simp add: benchmark_event_def Let_def)
  qed
  then show ?thesis
    using enqueue_all [of "benchmark_application clock now sink newly scn" clock "buildBenchmarkEvents ?m" clocks 0 0]
    by (simp add: enqueueEvents_def list_all_iff benchmark_application_def)
qed

section \<open>The summary\<close>

lemma onCompletion_run:
  "fold (onCompletion m w) completions no_completions =
    completion_run (entry m) w (map (\<lambda>(c, t). (c, t, t)) completions)"
  unfolding completion_run_def
  by (induction completions rule: rev_induct) (auto simp: onCompletion_def split: prod.splits)

lemma of_customer_map:
  "of_customer c (map (\<lambda>(c, t). (c, t, t)) completions) = map (\<lambda>(c, t). (c, t, t)) (of_customer c completions)"
  by (induction completions) (auto simp: of_customer_def)

lemma length_of_customer: "length (of_customer c completions) = count (mset (map fst completions)) c"
  by (induction completions) (auto simp: of_customer_def)

lemma sum_of_customers:
  assumes "distinct cs" and "fst ` set completions \<subseteq> set cs"
  shows "sum_list (map (\<lambda>c. int (length (of_customer c completions))) cs) = int (length completions)"
  using assms(2)
proof (induction completions)
  case (Cons x xs)
  have "int (length (of_customer c (x # xs))) = (if c = fst x then 1 else 0) + int (length (of_customer c xs))" for c
    by (auto simp: of_customer_def)
  moreover have "sum_list (map (\<lambda>c. if c = fst x then 1 else 0) cs) = (1 :: int)"
    using assms(1) Cons.prems by (simp add: sum_list_distinct_conv_sum_set)
  ultimately show ?case using Cons by (simp add: sum_list_addf)
qed (simp add: of_customer_def)

lemma tracked_times:
  assumes "of_customer c completions \<noteq> []" and "entry m c = int (length (of_customer c completions))"
  shows "firstCompletionTimes (fold (onCompletion m w) completions no_completions) c = snd (hd (of_customer c completions))"
    and "finishCompletionTimes (fold (onCompletion m w) completions no_completions) c = snd (last (of_customer c completions))"
proof -
  show "firstCompletionTimes (fold (onCompletion m w) completions no_completions) c = snd (hd (of_customer c completions))"
    using assms(1) by (cases "of_customer c completions") (auto simp: onCompletion_run log_first of_customer_map)
  show "finishCompletionTimes (fold (onCompletion m w) completions no_completions) c = snd (last (of_customer c completions))"
    using assms
    by (simp add: onCompletion_run log_finish of_customer_map last_conv_nth nat_diff_distrib' split_beta)
qed

text \<open>The completions of a run are those of the created jobs, each of them once.\<close>

definition completes_all :: "event_counts \<Rightarrow> (string \<times> time) list \<Rightarrow> bool" where
  "completes_all m completions \<longleftrightarrow> mset (map fst completions) = mset (map CustomerID (buildBenchmarkEvents m))"

lemma completions_of_run:
  assumes "wf_counts m" and "completes_all m completions"
  shows "int (length completions) = sum_list (map snd m)"
    and "fst ` set completions \<subseteq> set (benchmarkCustomerOrder m)"
proof -
  have same: "mset (map fst completions) = mset (map CustomerID (buildBenchmarkEvents m))"
    using assms(2) by (simp add: completes_all_def)
  show "int (length completions) = sum_list (map snd m)"
    using arg_cong [OF same, of size] length_events [OF assms(1)] by simp
  show "fst ` set completions \<subseteq> set (benchmarkCustomerOrder m)"
    using arg_cong [OF same, of set_mset] by (auto simp: buildBenchmarkEvents_def benchmark_event_def Let_def)
qed

lemma run_returns:
  assumes "wf_counts (scn_EventsPerCustomer scn)" and "completes_all (scn_EventsPerCustomer scn) completions"
    and "max_int 128 (wrap64 (scn_WorkerCount scn * 64)) \<le> max_buffer"
  shows "RunInMemoryFairnessScenario max_buffer clocks clock now sink completions startedAt stoppedAt scn =
    Some (Inr (run_summary scn startedAt stoppedAt (fold (onCompletion (scn_EventsPerCustomer scn)
      (early_window (scn_EarlyCompletionWindow scn) (sum_list (map snd (scn_EventsPerCustomer scn)))))
      completions no_completions)))"
proof -
  let ?m = "scn_EventsPerCustomer scn"
  note len = completions_of_run(1) [OF assms(1,2)]
  have "128 \<le> max_int 128 (wrap64 (scn_WorkerCount scn * 64))" by (simp add: max_int_def)
  then obtain newly where newly: "NewRoundRobinScheduler max_buffer (max_int 128 (wrap64 (scn_WorkerCount scn * 64))) = Some newly"
    using assms(3) by (simp add: NewRoundRobinScheduler_def)
  obtain app q where "enqueueEvents clocks (buildBenchmarkEvents ?m) (benchmark_application clock now sink newly scn)
      newBenchmarkQueue = ((sum_list (map snd ?m), None), app, q)"
    using benchmark_enqueue [OF assms(1), of clocks clock now sink newly] length_events [OF assms(1)] by auto
  moreover have "0 \<le> sum_list (map snd ?m)" using len by linarith
  ultimately show ?thesis
    using len by (simp add: RunInMemoryFairnessScenario_def total_jobs [OF assms(1)] newly Let_def)
qed

lemma customer_reported:
  assumes "wf_counts m" and "completes_all m completions" and "c \<in> fst ` set m"
  shows "(c, entry m c) \<in> set m"
    and "entry m c = 0 \<or>
      firstCompletionTimes (fold (onCompletion m w) completions no_completions) c = snd (hd (of_customer c completions)) \<and>
      finishCompletionTimes (fold (onCompletion m w) completions no_completions) c = snd (last (of_customer c completions))"
proof -
  have m: "distinct (map fst m)" using assms(1) by (simp add: wf_counts_def)
  show "(c, entry m c) \<in> set m" using assms(3) entry_map_of [OF m] by auto
  then have "0 \<le> entry m c" using assms(1) by (auto simp: wf_counts_def list_all_iff)
  then have "entry m c = int (length (of_customer c completions))"
    using assms(2) count_events [OF m, of c] by (simp add: length_of_customer completes_all_def)
  then show "entry m c = 0 \<or>
      firstCompletionTimes (fold (onCompletion m w) completions no_completions) c = snd (hd (of_customer c completions)) \<and>
      finishCompletionTimes (fold (onCompletion m w) completions no_completions) c = snd (last (of_customer c completions))"
    using tracked_times by fastforce
qed

lemma early_counted:
  "earlyCompletionCounts (fold (onCompletion m w) completions no_completions) c =
    int (length (of_customer c (take (nat w) completions)))"
  by (simp add: onCompletion_run log_early take_map of_customer_map)

lemma early_sum:
  assumes "wf_counts m" and "completes_all m completions" and "w = early_window requested (sum_list (map snd m))"
  shows "sum_list (map (\<lambda>c. int (length (of_customer c (take (nat w) completions)))) (benchmarkCustomerOrder m)) = w"
proof -
  have "sum_list (map (\<lambda>c. int (length (of_customer c (take (nat w) completions)))) (benchmarkCustomerOrder m)) =
      int (length (take (nat w) completions))"
    using completions_of_run(2) [OF assms(1,2)] assms(1)
    by (intro sum_of_customers) (auto simp: benchmarkCustomerOrder_def wf_counts_def dest: in_set_takeD)
  also have "\<dots> = w"
    using completions_of_run(1) [OF assms(1,2)] by (auto simp: assms(3) early_window_def)
  finally show ?thesis .
qed

section \<open>Properties\<close>

text \<open>
  C33. The fairness run of the notifier. For every iteration order of the map of counts and every
  order in which the workers complete the jobs (each created job once), the run returns a summary:
  it lists the customers sorted by name; the job counts are the requested ones; the early completions
  of a customer are its completions among the first of the whole run, as many as the early window
  has, and they add up to the window; first and full completion are the instants of the first and
  last completion of the customer, counted from the start and at least a nanosecond.
\<close>

theorem fairness_run_reports_every_completion:
  assumes "wf_counts (scn_EventsPerCustomer scn)"
    and "completes_all (scn_EventsPerCustomer scn) completions"
    and "max_int 128 (wrap64 (scn_WorkerCount scn * 64)) \<le> max_buffer"
  shows "\<exists>s. RunInMemoryFairnessScenario max_buffer clocks clock now sink completions startedAt stoppedAt scn = Some (Inr s) \<and>
    TotalJobCount s = sum_list (map snd (scn_EventsPerCustomer scn)) \<and>
    map SummaryCustomerID (CustomerSummaries s) = sort (map fst (scn_EventsPerCustomer scn)) \<and>
    sum_list (map EarlyCompletionCount (CustomerSummaries s)) = RunEarlyCompletionWindow s \<and>
    list_all (\<lambda>c. (SummaryCustomerID c, JobCount c) \<in> set (scn_EventsPerCustomer scn) \<and>
        EarlyCompletionCount c =
          int (length (of_customer (SummaryCustomerID c) (take (nat (RunEarlyCompletionWindow s)) completions))) \<and>
        (JobCount c = 0 \<or>
          FirstFinishDuration c = at_least_one (time_Sub (snd (hd (of_customer (SummaryCustomerID c) completions))) startedAt) \<and>
          FinishDuration c = at_least_one (time_Sub (snd (last (of_customer (SummaryCustomerID c) completions))) startedAt)))
      (CustomerSummaries s)"
proof -
  let ?m = "scn_EventsPerCustomer scn"
  let ?w = "early_window (scn_EarlyCompletionWindow scn) (sum_list (map snd ?m))"
  let ?s = "run_summary scn startedAt stoppedAt (fold (onCompletion ?m ?w) completions no_completions)"
  have s: "TotalJobCount ?s = sum_list (map snd ?m)" "RunEarlyCompletionWindow ?s = ?w"
    "CustomerSummaries ?s = map (customer_summary scn ?w startedAt (fold (onCompletion ?m ?w) completions no_completions))
      (benchmarkCustomerOrder ?m)"
    by (simp_all add: run_summary_def total_jobs [OF assms(1)] Let_def)
  show ?thesis
  proof (intro exI [of _ ?s] conjI run_returns assms)
    show "sum_list (map EarlyCompletionCount (CustomerSummaries ?s)) = RunEarlyCompletionWindow ?s"
      using early_sum [OF assms(1,2) refl] by (simp add: s customer_summary_def comp_def early_counted)
    show "list_all (\<lambda>c. (SummaryCustomerID c, JobCount c) \<in> set ?m \<and>
        EarlyCompletionCount c =
          int (length (of_customer (SummaryCustomerID c) (take (nat (RunEarlyCompletionWindow ?s)) completions))) \<and>
        (JobCount c = 0 \<or>
          FirstFinishDuration c = at_least_one (time_Sub (snd (hd (of_customer (SummaryCustomerID c) completions))) startedAt) \<and>
          FinishDuration c = at_least_one (time_Sub (snd (last (of_customer (SummaryCustomerID c) completions))) startedAt)))
      (CustomerSummaries ?s)"
      unfolding list_all_iff
    proof
      fix c assume "c \<in> set (CustomerSummaries ?s)"
      then obtain d where d: "d \<in> fst ` set ?m" and
        c: "c = customer_summary scn ?w startedAt (fold (onCompletion ?m ?w) completions no_completions) d"
        by (auto simp: s benchmarkCustomerOrder_def)
      show "(SummaryCustomerID c, JobCount c) \<in> set ?m \<and>
        EarlyCompletionCount c =
          int (length (of_customer (SummaryCustomerID c) (take (nat (RunEarlyCompletionWindow ?s)) completions))) \<and>
        (JobCount c = 0 \<or>
          FirstFinishDuration c = at_least_one (time_Sub (snd (hd (of_customer (SummaryCustomerID c) completions))) startedAt) \<and>
          FinishDuration c = at_least_one (time_Sub (snd (last (of_customer (SummaryCustomerID c) completions))) startedAt))"
        using customer_reported(1) [OF assms(1,2) d] customer_reported(2) [OF assms(1,2) d, of ?w]
        by (auto simp: c s customer_summary_def early_counted)
    qed
  qed (simp_all add: s comp_def customer_summary_def benchmarkCustomerOrder_def)
qed

definition sample_scenario :: BenchmarkFairnessScenario where
  "sample_scenario = \<lparr>scn_EventsPerCustomer = [(''b'', 1), (''a'', 2)],
     CustomerSegments = [''a'' \<mapsto> ''whale''], scn_WorkerCount = 2, scn_SyntheticWorkIterations = 8,
     scn_EarlyCompletionWindow = 2\<rparr>"

text \<open>Two jobs of one customer and one of another, completed in the order a, b, a.\<close>

theorem fairness_run_reports_every_completion_witness:
  "\<exists>s. RunInMemoryFairnessScenario 1000 id id id 0 [(''a'', 105), (''b'', 107), (''a'', 109)] 100 110 sample_scenario = Some (Inr s) \<and>
    TotalJobCount s = 3 \<and> map SummaryCustomerID (CustomerSummaries s) = [''a'', ''b'']"
proof -
  have "wf_counts [(''b'', 1), (''a'', 2)]" by (simp add: wf_counts_def) code_simp
  moreover have "completes_all [(''b'', 1), (''a'', 2)] [(''a'', 105), (''b'', 107), (''a'', 109)]"
    by (simp add: completes_all_def events_customers benchmarkCustomerOrder_def) code_simp
  moreover have "sort [''b'', ''a''] = [''a'', ''b'']" by code_simp
  moreover have "wrap64 128 = 128" by (rule wrap64_int64) (simp add: int64_def)
  ultimately show ?thesis
    using fairness_run_reports_every_completion [of sample_scenario "[(''a'', 105), (''b'', 107), (''a'', 109)]" 1000 id id id 0 100 110]
    by (auto simp: sample_scenario_def max_int_def simp del: sort_key_simps)
qed

end
