(* ===== verification/Scheduler_Benchmark_Correct.thy ===== *)
theory Scheduler_Benchmark_Correct
  imports Scheduler_Benchmark Benchmark_Correct Scheduler_Fairness
begin

text \<open>
  The benchmark command draws the right conclusions: its two modes report alike what they observe,
  and the verdict of a run compares every non-whale with every whale.
\<close>

section \<open>The jobs of a scenario\<close>

lemma append_jobs_customers:
  "map job_customer (append_customer_jobs m c js) = map job_customer js @ replicate (nat (entry m c)) c"
proof -
  have "map job_customer (fold (\<lambda>i js. js @ [scenario_job (length js) c (int i)]) [0 ..< n] js) =
      map job_customer js @ replicate n c" for n
    by (induction n) (simp_all add: scenario_job_def Let_def replicate_append_same)
  then show ?thesis by (simp add: append_customer_jobs_def)
qed

lemma fold_jobs_customers:
  "map job_customer (fold (append_customer_jobs m) cs js) =
    map job_customer js @ concat (map (\<lambda>c. replicate (nat (entry m c)) c) cs)"
  by (induction cs arbitrary: js) (simp_all add: append_jobs_customers)

lemma newScenario_jobs:
  assumes "wf_counts m"
  obtains scenario where "newScenario name m = Some scenario"
    and "map job_customer (jobs scenario) = map CustomerID (buildBenchmarkEvents m)"
    and "int (length (jobs scenario)) = sum_list (map snd m)"
proof -
  have "totalJobs m = sum_list (map snd m)"
    using total_jobs [OF assms] by (simp add: totalJobs_def benchmarkTotalJobCount_def)
  moreover have "0 \<le> sum_list (map snd m)" using length_events [OF assms] by linarith
  ultimately obtain scenario where s: "newScenario name m = Some scenario"
    "jobs scenario = fold (append_customer_jobs m) (sort (map fst m)) []"
    by (simp add: newScenario_def)
  then have c: "map job_customer (jobs scenario) = map CustomerID (buildBenchmarkEvents m)"
    by (simp add: fold_jobs_customers events_customers benchmarkCustomerOrder_def)
  from arg_cong [OF this, of length] have "length (jobs scenario) = length (buildBenchmarkEvents m)" by simp
  then show ?thesis using that s(1) c length_events [OF assms] by simp
qed

lemma customerJobCounts_count: "customerJobCounts js c = int (count (mset (map job_customer js)) c)"
  by (induction js rule: rev_induct) (auto simp: customerJobCounts_def)

lemma customerJobCounts_filter: "customerJobCounts js c = int (length (filter (\<lambda>job. job_customer job = c) js))"
  by (induction js rule: rev_induct) (auto simp: customerJobCounts_def)

lemma entry_nonneg: "wf_counts m \<Longrightarrow> 0 \<le> entry m c"
proof (cases "c \<in> fst ` set m")
  assume wf: "wf_counts m" and "c \<in> fst ` set m"
  then obtain n where "(c, n) \<in> set m" by auto
  with wf show ?thesis using entry_map_of [of m c n] by (auto simp: wf_counts_def list_all_iff)
qed (simp add: entry_absent)

lemma job_counts_entry:
  assumes "wf_counts m" and "map job_customer js = map CustomerID (buildBenchmarkEvents m)"
  shows "customerJobCounts js = entry m"
proof
  fix c
  have "customerJobCounts js c = int (count (mset (map CustomerID (buildBenchmarkEvents m))) c)"
    by (simp only: customerJobCounts_count assms(2))
  also have "\<dots> = entry m c"
    using assms(1) entry_nonneg [OF assms(1), of c] by (simp only: count_events wf_counts_def nat_0_le)
  finally show "customerJobCounts js c = entry m c" .
qed

lemma sorted_customers:
  assumes "wf_counts m" and "list_all (\<lambda>(c, n). 0 < n) m"
    and "map job_customer js = map CustomerID (buildBenchmarkEvents m)"
  shows "sortedCustomerIDs js = benchmarkCustomerOrder m"
proof -
  have d: "distinct (map fst m)" using assms(1) by (simp add: wf_counts_def)
  have "set (replicate (nat (entry m (fst x))) (fst x)) = {fst x}" if "x \<in> set m" for x
    using that entry_map_of [OF d, of "fst x" "snd x"] assms(2) by (auto simp: list_all_iff)
  then have "set (map CustomerID (buildBenchmarkEvents m)) = fst ` set m"
    unfolding events_customers benchmarkCustomerOrder_def set_concat set_map set_sort image_image
    by (auto simp: image_image)
  then show ?thesis
    unfolding sortedCustomerIDs_def assms(3)
    by (intro sorted_distinct_set_unique) (use d in \<open>simp_all add: benchmarkCustomerOrder_def\<close>)
qed

section \<open>Totals\<close>

definition whales :: "customerFairnessSummary list \<Rightarrow> customerFairnessSummary list" where
  "whales cs = filter (\<lambda>c. customerSegment c = ''whale'') cs"

definition non_whales :: "customerFairnessSummary list \<Rightarrow> customerFairnessSummary list" where
  "non_whales cs = filter (\<lambda>c. customerSegment c \<noteq> ''whale'') cs"

text \<open>Durations as the runs report them: at least a nanosecond, and with a sum in range.\<close>

definition durations_ok :: "customerFairnessSummary list \<Rightarrow> bool" where
  "durations_ok cs \<longleftrightarrow> list_all (\<lambda>c. 1 \<le> firstFinishDuration c \<and> 1 \<le> finishDuration c) cs \<and>
     sum_list (map firstFinishDuration cs) < 2 ^ 63 \<and> sum_list (map finishDuration cs) < 2 ^ 63"

definition sums_of :: "customerFairnessSummary list \<Rightarrow> fairness_totals \<Rightarrow> bool" where
  "sums_of cs totals \<longleftrightarrow>
    whaleCount totals = int (length (whales cs)) \<and> nonWhaleCount totals = int (length (non_whales cs)) \<and>
    whaleFirstTotal totals = sum_list (map firstFinishDuration (whales cs)) \<and>
    whaleFullTotal totals = sum_list (map finishDuration (whales cs)) \<and>
    nonWhaleFirstTotal totals = sum_list (map firstFinishDuration (non_whales cs)) \<and>
    nonWhaleFullTotal totals = sum_list (map finishDuration (non_whales cs))"

definition extremes_of :: "customerFairnessSummary list \<Rightarrow> fairness_totals \<Rightarrow> bool" where
  "extremes_of cs totals \<longleftrightarrow>
    (\<forall>d. d < earliestWhaleFullCompletion totals \<longleftrightarrow> d < MaxInt64 \<and> (\<forall>c \<in> set (whales cs). d < finishDuration c)) \<and>
    (\<forall>d. latestNonWhaleFullCompletion totals < d \<longleftrightarrow> 0 < d \<and> (\<forall>c \<in> set (non_whales cs). finishDuration c < d))"

lemma segment_sum:
  fixes f :: "customerFairnessSummary \<Rightarrow> int"
  assumes "list_all (\<lambda>c. 0 \<le> f c) cs"
  shows "sum_list (map f cs) = sum_list (map f (whales cs)) + sum_list (map f (non_whales cs))"
    and "0 \<le> sum_list (map f (whales cs))" "0 \<le> sum_list (map f (non_whales cs))"
  using assms by (induction cs) (auto simp: whales_def non_whales_def)

lemma segments_snoc [simp]:
  "whales (cs @ [c]) = whales cs @ (if customerSegment c = ''whale'' then [c] else [])"
  "non_whales (cs @ [c]) = non_whales cs @ (if customerSegment c = ''whale'' then [] else [c])"
  by (simp_all add: whales_def non_whales_def)

lemma wrap_sum: "0 \<le> a \<Longrightarrow> 1 \<le> d \<Longrightarrow> a + d < 2 ^ 63 \<Longrightarrow> wrap64 (a + d) = a + d"
  by (rule wrap64_int64) (simp add: int64_def)

lemma totals_sums:
  assumes "durations_ok cs"
  shows "sums_of cs (fold add_summary cs no_totals)"
  using assms
proof (induction cs rule: rev_induct)
  case (snoc c cs)
  have nonneg: "list_all (\<lambda>c. 0 \<le> firstFinishDuration c) cs" "list_all (\<lambda>c. 0 \<le> finishDuration c) cs"
    and c: "1 \<le> firstFinishDuration c" "1 \<le> finishDuration c"
    and sum: "sum_list (map firstFinishDuration cs) + firstFinishDuration c < 2 ^ 63"
      "sum_list (map finishDuration cs) + finishDuration c < 2 ^ 63"
    using snoc.prems by (auto simp: durations_ok_def list_all_iff)
  then have "durations_ok cs" using snoc.prems by (auto simp: durations_ok_def)
  note IH = snoc.IH [OF this]
  note parts = segment_sum [OF nonneg(1)] segment_sum [OF nonneg(2)]
  show ?case
    using IH parts c sum wrap_sum [of "sum_list (map firstFinishDuration (whales cs))" "firstFinishDuration c"]
      wrap_sum [of "sum_list (map finishDuration (whales cs))" "finishDuration c"]
      wrap_sum [of "sum_list (map firstFinishDuration (non_whales cs))" "firstFinishDuration c"]
      wrap_sum [of "sum_list (map finishDuration (non_whales cs))" "finishDuration c"]
    by (simp add: sums_of_def add_summary_def)
qed (simp add: sums_of_def no_totals_def whales_def non_whales_def)

lemma totals_extremes: "extremes_of cs (fold add_summary cs no_totals)"
proof (induction cs rule: rev_induct)
  case (snoc c cs)
  then show ?case
    by (auto simp: extremes_of_def add_summary_def)
qed (simp add: extremes_of_def no_totals_def whales_def non_whales_def)

section \<open>The run of the scheduler mode\<close>

definition scheduler_summary :: "event_counts \<Rightarrow> observation \<Rightarrow> (string \<rightharpoonup> string) \<Rightarrow> go_int \<Rightarrow> fairnessWorkerRunSummary" where
  "scheduler_summary m seen segments n =
    (let total = sum_list (map snd m); w = early_window 20 total;
         duration = at_least_one (time_Sub (run_stoppedAt seen) (run_startedAt seen))
     in \<lparr>workerCount = n, totalJobCount = total, earlyCompletionWindow = w, totalDuration = duration,
         totalJobsPerSecond = seconds_quotient total duration,
         customerSummaries = map (scheduler_customer_summary segments (entry m) w (run_startedAt seen)
           (completion_run (entry m) w (completed seen))) (benchmarkCustomerOrder m)\<rparr>)"

lemma scheduler_run_returns:
  assumes "wf_counts m" and "list_all (\<lambda>(c, n). 0 < n) m"
    and "map job_customer (jobs scenario) = map CustomerID (buildBenchmarkEvents m)"
    and "int (length (jobs scenario)) = sum_list (map snd m)"
    and "int (length (completed seen)) = sum_list (map snd m)" and "sum_list (map snd m) \<le> max_buffer"
  shows "runSchedulerFairnessWorkerRun max_buffer seen scenario (sortedCustomerIDs (jobs scenario)) segments n =
    Some (Inr (scheduler_summary m seen segments n))"
proof -
  have nonneg: "0 \<le> sum_list (map snd m)" using assms(4) by linarith
  obtain newly where newly: "NewRoundRobinScheduler max_buffer (sum_list (map snd m)) = Some newly"
    using assms(6) nonneg by (simp add: NewRoundRobinScheduler_def)
  have "early_window 20 (sum_list (map snd m)) = (if sum_list (map snd m) < 20 then sum_list (map snd m) else 20)"
    using nonneg by (auto simp: early_window_def)
  then show ?thesis
    unfolding runSchedulerFairnessWorkerRun_def scheduler_summary_def completion_run_def
      sorted_customers [OF assms(1-3)] job_counts_entry [OF assms(1,3)] assms(4)
    by (simp add: newly assms(5) defaultEarlyCompletionWindow_def Let_def)
qed

lemma same_instants:
  "list_all (\<lambda>(c, t, u). t = u) xs \<Longrightarrow> map (\<lambda>(c, t). (c, t, t)) (map (\<lambda>(c, t, _). (c, t)) xs) = xs"
  by (induction xs) auto

section \<open>The verdict\<close>

lemma div_bounds: "0 \<le> a \<Longrightarrow> 0 \<le> b \<Longrightarrow> 0 \<le> a div b \<and> a div b \<le> a" for a b :: int
  using zdiv_mono2 [of a 1 b] by (cases "b = 0") (auto simp: pos_imp_zdiv_nonneg_iff)

lemma go_div_nonneg: "0 \<le> a \<Longrightarrow> 0 < b \<Longrightarrow> go_div a b = a div b"
  by (cases "a = 0") (simp_all add: go_div_def)

text \<open>The average of a segment with a sum in range, 0 for an empty segment.\<close>

lemma average:
  assumes "0 \<le> s" and "s < 2 ^ 63"
  shows "(if int (length cs) > 0 then go_div s (int (length cs)) else 0) = s div int (length cs)"
    and "0 \<le> s div int (length cs)" and "s div int (length cs) < 2 ^ 63"
proof -
  show "(if int (length cs) > 0 then go_div s (int (length cs)) else 0) = s div int (length cs)"
    using assms by (cases cs) (simp_all add: go_div_nonneg)
  show "0 \<le> s div int (length cs)" and "s div int (length cs) < 2 ^ 63"
    using assms div_bounds [of s "int (length cs)"] by auto
qed

lemma segment_bounds:
  assumes "durations_ok cs"
  shows "0 \<le> sum_list (map finishDuration (whales cs))" "sum_list (map finishDuration (whales cs)) < 2 ^ 63"
    "0 \<le> sum_list (map finishDuration (non_whales cs))" "sum_list (map finishDuration (non_whales cs)) < 2 ^ 63"
    "0 \<le> sum_list (map firstFinishDuration (whales cs))" "sum_list (map firstFinishDuration (whales cs)) < 2 ^ 63"
    "0 \<le> sum_list (map firstFinishDuration (non_whales cs))" "sum_list (map firstFinishDuration (non_whales cs)) < 2 ^ 63"
proof -
  have "list_all (\<lambda>c. 0 \<le> finishDuration c) cs" "list_all (\<lambda>c. 0 \<le> firstFinishDuration c) cs"
    and sums: "sum_list (map finishDuration cs) < 2 ^ 63" "sum_list (map firstFinishDuration cs) < 2 ^ 63"
    using assms by (auto simp: durations_ok_def list_all_iff)
  note parts = segment_sum [OF this(1)] segment_sum [OF this(2)]
  show "0 \<le> sum_list (map finishDuration (whales cs))" "sum_list (map finishDuration (whales cs)) < 2 ^ 63"
    "0 \<le> sum_list (map finishDuration (non_whales cs))" "sum_list (map finishDuration (non_whales cs)) < 2 ^ 63"
    "0 \<le> sum_list (map firstFinishDuration (whales cs))" "sum_list (map firstFinishDuration (whales cs)) < 2 ^ 63"
    "0 \<le> sum_list (map firstFinishDuration (non_whales cs))" "sum_list (map firstFinishDuration (non_whales cs)) < 2 ^ 63"
    using parts sums by linarith+
qed

lemma extremes_compare:
  assumes "extremes_of cs totals" and "durations_ok cs" and "whales cs \<noteq> []" and "non_whales cs \<noteq> []"
  shows "latestNonWhaleFullCompletion totals < earliestWhaleFullCompletion totals \<longleftrightarrow>
    (\<forall>n \<in> set (non_whales cs). \<forall>w \<in> set (whales cs). finishDuration n < finishDuration w)"
proof -
  let ?l = "latestNonWhaleFullCompletion totals"
  have w: "?l < earliestWhaleFullCompletion totals \<longleftrightarrow> ?l < MaxInt64 \<and> (\<forall>c \<in> set (whales cs). ?l < finishDuration c)"
    using assms(1) by (simp add: extremes_of_def)
  have n: "?l < d \<longleftrightarrow> 0 < d \<and> (\<forall>c \<in> set (non_whales cs). finishDuration c < d)" for d
    using assms(1) by (simp add: extremes_of_def)
  have pos: "1 \<le> finishDuration c" if "c \<in> set (whales cs)" for c
    using that assms(2) by (auto simp: whales_def durations_ok_def list_all_iff)
  have top: "finishDuration c \<le> MaxInt64" if "c \<in> set (whales cs)" for c
    using member_le_sum_list [of "finishDuration c" "map finishDuration (whales cs)"] that segment_bounds(2) [OF assms(2)] pos
    by fastforce
  obtain c where "c \<in> set (whales cs)" using assms(3) by (meson list.set_sel(1))
  then have "?l < MaxInt64" if "\<forall>c \<in> set (whales cs). ?l < finishDuration c" using that top by fastforce
  moreover have "0 < finishDuration c" if "c \<in> set (whales cs)" for c using pos [OF that] by simp
  ultimately show ?thesis using w n by blast
qed

section \<open>Properties\<close>

text \<open>
  What the round robin gives a quiet customer when all jobs of a scenario are queued before the
  dispatcher takes its first turn: its \<open>n\<close> messages are handed out, in order, within the first
  \<open>n\<close> times number-of-customers jobs, whatever the number of messages of the others. The command
  starts the dispatcher first, so in its runs the bound counts from the last of the enqueues.
\<close>

lemma quiet_customers_finish_early:
  assumes "wf_counts m" and "newScenario name m = Some scenario"
    and "NewRoundRobinScheduler max_buffer (int (length (jobs scenario))) = Some s0"
    and "run_sched s0 (map OpEnqueue (jobs scenario) @ replicate k OpDequeue) = (t, out)"
    and "(c, n) \<in> set m" and "nat n * length m \<le> k"
  shows "filter (\<lambda>job. job_customer job = c) out = filter (\<lambda>job. job_customer job = c) (jobs scenario) \<and>
    int (length (filter (\<lambda>job. job_customer job = c) out)) = n"
proof -
  obtain scenario' where "newScenario name m = Some scenario'"
    "map job_customer (jobs scenario') = map CustomerID (buildBenchmarkEvents m)"
    by (rule newScenario_jobs [OF assms(1)])
  then have customers: "map job_customer (jobs scenario) = map CustomerID (buildBenchmarkEvents m)"
    using assms(2) by simp
  have d: "distinct (map fst m)" using assms(1) by (simp add: wf_counts_def)
  have n: "int (length (filter (\<lambda>job. job_customer job = c) (jobs scenario))) = n"
    using job_counts_entry [OF assms(1) customers] entry_map_of [OF d assms(5)] by (simp flip: customerJobCounts_filter)
  have "set (concat (map (\<lambda>c. replicate (nat (entry m c)) c) cs)) \<subseteq> set cs" for cs by (induction cs) auto
  then have "set (map job_customer (jobs scenario)) \<subseteq> set (benchmarkCustomerOrder m)"
    by (simp only: customers events_customers)
  then have "job_customer ` set (jobs scenario) \<subseteq> fst ` set m" by (simp add: benchmarkCustomerOrder_def)
  then have "card (job_customer ` set (jobs scenario)) \<le> card (fst ` set m)" by (intro card_mono) auto
  also have "\<dots> \<le> length m" using card_length [of "map fst m"] by simp
  finally have "length (filter (\<lambda>job. job_customer job = c) (jobs scenario)) * card (job_customer ` set (jobs scenario)) \<le> k"
    using n assms(6) mult_le_mono2 [of _ "length m" "nat n"] by (metis nat_int order_trans)
  then show ?thesis using served_after_enqueues [OF assms(3,4)] n by simp
qed

text \<open>
  C34. The two modes of the benchmark report alike. On the same scenario and the same completions the
  app mode (the notifier's own poller, queue and workers) and the scheduler mode both return, and
  their summaries agree in every field of the run and of every customer; only \<open>jobsPerSecond\<close> of a
  customer is left at zero by the app mode.
\<close>

theorem modes_report_alike:
  assumes "wf_counts (eventsPerCustomer def)" and "list_all (\<lambda>(c, n). 0 < n) (eventsPerCustomer def)"
    and "completes_all (eventsPerCustomer def) (map (\<lambda>(c, t, _). (c, t)) (completed seen))"
    and "list_all (\<lambda>(c, t, u). t = u) (completed seen)"
    and "sum_list (map snd (eventsPerCustomer def)) \<le> max_buffer"
    and "max_int 128 (wrap64 (n * 64)) \<le> max_buffer"
  shows "\<exists>scenario s. newScenario (definition_name def) (eventsPerCustomer def) = Some scenario \<and>
    runSchedulerFairnessWorkerRun max_buffer seen scenario (sortedCustomerIDs (jobs scenario)) (customerSegments def) n =
      Some (Inr s) \<and>
    runAppFairnessWorkerRun max_buffer clocks clock now sink seen def n =
      Some (Inr (s\<lparr>customerSummaries := map (\<lambda>c. c\<lparr>jobsPerSecond := Some 0\<rparr>) (customerSummaries s)\<rparr>))"
proof -
  let ?m = "eventsPerCustomer def"
  obtain scenario where new: "newScenario (definition_name def) ?m = Some scenario"
    and customers: "map job_customer (jobs scenario) = map CustomerID (buildBenchmarkEvents ?m)"
    and len: "int (length (jobs scenario)) = sum_list (map snd ?m)"
    by (rule newScenario_jobs [OF assms(1)])
  have same: "fold (onCompletion ?m w) (map (\<lambda>(c, t, _). (c, t)) (completed seen)) no_completions =
      completion_run (entry ?m) w (completed seen)" for w
    using same_instants [OF assms(4)] by (simp only: onCompletion_run)
  have "runSchedulerFairnessWorkerRun max_buffer seen scenario (sortedCustomerIDs (jobs scenario)) (customerSegments def) n =
      Some (Inr (scheduler_summary ?m seen (customerSegments def) n))"
    using assms(1,2) customers len
    by (rule scheduler_run_returns) (use completions_of_run(1) [OF assms(1,3)] assms(5) in simp_all)
  moreover have "runAppFairnessWorkerRun max_buffer clocks clock now sink seen def n =
      Some (Inr ((scheduler_summary ?m seen (customerSegments def) n)\<lparr>customerSummaries :=
        map (\<lambda>c. c\<lparr>jobsPerSecond := Some 0\<rparr>) (customerSummaries (scheduler_summary ?m seen (customerSegments def) n))\<rparr>))"
    unfolding runAppFairnessWorkerRun_def using assms(1,3,6)
    by (simp add: run_returns run_summary_def total_jobs same defaultEarlyCompletionWindow_def scheduler_summary_def
         app_customer_summary_def customer_summary_def scheduler_customer_summary_def Let_def)
  ultimately show ?thesis using new by blast
qed

definition sample_definition :: fairnessScenarioDefinition where
  "sample_definition = \<lparr>definition_name = ''small'', definition_description = [],
     eventsPerCustomer = [(''b'', 1), (''a'', 2)], customerSegments = [''a'' \<mapsto> ''whale''],
     workerCounts = [1], syntheticIterations = 8\<rparr>"

definition sample_observation :: observation where
  "sample_observation = \<lparr>completed = [(''a'', 105, 105), (''b'', 107, 107), (''a'', 109, 109)],
     run_startedAt = 100, run_stoppedAt = 110\<rparr>"

theorem modes_report_alike_witness:
  "\<exists>scenario s. newScenario ''small'' [(''b'', 1), (''a'', 2)] = Some scenario \<and>
    runSchedulerFairnessWorkerRun 1000 sample_observation scenario (sortedCustomerIDs (jobs scenario)) [''a'' \<mapsto> ''whale''] 2 =
      Some (Inr s) \<and>
    runAppFairnessWorkerRun 1000 id id id 0 sample_observation sample_definition 2 =
      Some (Inr (s\<lparr>customerSummaries := map (\<lambda>c. c\<lparr>jobsPerSecond := Some 0\<rparr>) (customerSummaries s)\<rparr>))"
proof -
  have "wf_counts [(''b'', 1), (''a'', 2)]" by (simp add: wf_counts_def) code_simp
  moreover have "completes_all [(''b'', 1), (''a'', 2)] [(''a'', 105), (''b'', 107), (''a'', 109)]"
    by (simp add: completes_all_def events_customers benchmarkCustomerOrder_def) code_simp
  moreover have "wrap64 128 = 128" by (rule wrap64_int64) (simp add: int64_def)
  ultimately show ?thesis
    using modes_report_alike [of sample_definition sample_observation 1000 2 id id id 0]
    by (simp add: sample_definition_def sample_observation_def max_int_def)
qed

text \<open>
  C35. The verdict of a run. It says that the non-whales finished before the whales exactly when there
  are both and every non-whale finished before every whale; the averages are the sums of the
  durations divided by the number of customers of the segment, rounded down, and the gap is the
  difference of the two averages.
\<close>

theorem verdict_compares_every_pair:
  assumes "durations_ok cs"
  shows "(nonWhalesFinishedBeforeWhales (analyzeFairnessRun cs) \<longleftrightarrow> whales cs \<noteq> [] \<and> non_whales cs \<noteq> [] \<and>
      (\<forall>n \<in> set (non_whales cs). \<forall>w \<in> set (whales cs). finishDuration n < finishDuration w)) \<and>
    averageWhaleFullCompletion (analyzeFairnessRun cs) =
      sum_list (map finishDuration (whales cs)) div int (length (whales cs)) \<and>
    averageNonWhaleFullCompletion (analyzeFairnessRun cs) =
      sum_list (map finishDuration (non_whales cs)) div int (length (non_whales cs)) \<and>
    averageWhaleFirstCompletion (analyzeFairnessRun cs) =
      sum_list (map firstFinishDuration (whales cs)) div int (length (whales cs)) \<and>
    averageNonWhaleFirstCompletion (analyzeFairnessRun cs) =
      sum_list (map firstFinishDuration (non_whales cs)) div int (length (non_whales cs)) \<and>
    whaleVsNonWhaleCompletionGap (analyzeFairnessRun cs) = (if whales cs = [] \<or> non_whales cs = [] then 0
      else averageWhaleFullCompletion (analyzeFairnessRun cs) - averageNonWhaleFullCompletion (analyzeFairnessRun cs))"
proof -
  let ?totals = "fold add_summary cs no_totals"
  note sums = totals_sums [OF assms, unfolded sums_of_def] and bounds = segment_bounds [OF assms]
  note averages = average [OF bounds(1,2), of "whales cs"] average [OF bounds(3,4), of "non_whales cs"]
    average [OF bounds(5,6), of "whales cs"] average [OF bounds(7,8), of "non_whales cs"]
  have gap: "wrap64 (sum_list (map finishDuration (whales cs)) div int (length (whales cs)) -
      sum_list (map finishDuration (non_whales cs)) div int (length (non_whales cs))) =
    sum_list (map finishDuration (whales cs)) div int (length (whales cs)) -
      sum_list (map finishDuration (non_whales cs)) div int (length (non_whales cs))"
    using averages(2,3,5,6) by (intro wrap64_int64) (auto simp: int64_def)
  have "nonWhalesFinishedBeforeWhales (analyzeFairnessRun cs) \<longleftrightarrow> whales cs \<noteq> [] \<and> non_whales cs \<noteq> [] \<and>
      latestNonWhaleFullCompletion ?totals < earliestWhaleFullCompletion ?totals"
    using sums by (simp add: analyzeFairnessRun_def Let_def)
  moreover note extremes_compare [OF totals_extremes assms]
  moreover have "averageWhaleFullCompletion (analyzeFairnessRun cs) =
      sum_list (map finishDuration (whales cs)) div int (length (whales cs))"
    "averageNonWhaleFullCompletion (analyzeFairnessRun cs) =
      sum_list (map finishDuration (non_whales cs)) div int (length (non_whales cs))"
    "averageWhaleFirstCompletion (analyzeFairnessRun cs) =
      sum_list (map firstFinishDuration (whales cs)) div int (length (whales cs))"
    "averageNonWhaleFirstCompletion (analyzeFairnessRun cs) =
      sum_list (map firstFinishDuration (non_whales cs)) div int (length (non_whales cs))"
    using sums averages(1,4,7,10) by (auto simp: analyzeFairnessRun_def Let_def)
  moreover have "whaleVsNonWhaleCompletionGap (analyzeFairnessRun cs) = (if whales cs = [] \<or> non_whales cs = [] then 0
      else sum_list (map finishDuration (whales cs)) div int (length (whales cs)) -
        sum_list (map finishDuration (non_whales cs)) div int (length (non_whales cs)))"
    using sums averages(1,4) gap by (auto simp: analyzeFairnessRun_def Let_def)
  ultimately show ?thesis by auto
qed

definition sample_summary :: "string \<Rightarrow> duration \<Rightarrow> customerFairnessSummary" where
  "sample_summary segment finish = \<lparr>customerSegment = segment, summary_customerID = ''c'', jobCount = 1,
     firstFinishDuration = 1, finishDuration = finish, earlyCompletionCount = 1,
     earlyCompletionShare = None, jobsPerSecond = None\<rparr>"

theorem verdict_compares_every_pair_witness:
  "nonWhalesFinishedBeforeWhales (analyzeFairnessRun
     [sample_summary ''whale'' 90, sample_summary ''non-whale'' 20, sample_summary ''whale'' 101, sample_summary ''non-whale'' 31]) \<and>
   whaleVsNonWhaleCompletionGap (analyzeFairnessRun
     [sample_summary ''whale'' 90, sample_summary ''non-whale'' 20, sample_summary ''whale'' 101, sample_summary ''non-whale'' 31]) = 70"
  using verdict_compares_every_pair [of
    "[sample_summary ''whale'' 90, sample_summary ''non-whale'' 20, sample_summary ''whale'' 101, sample_summary ''non-whale'' 31]"]
  by (simp add: sample_summary_def whales_def non_whales_def durations_ok_def)

end
