(* ===== verification/Benchmark_Report.thy ===== *)
theory Benchmark_Report
  imports Scheduler_Benchmark Scheduler_Fairness
begin

text \<open>
  The throughput benchmark and the reports of \<open>cmd/scheduler-benchmark\<close> (\<open>main.go\<close>,
  \<open>fairness_console.go\<close>, \<open>report_html.go\<close>, \<open>report_sections.go\<close>). A report is the concatenation of what
  the source writes to its builder. A \<open>float64\<close> is the rational number before rounding, \<open>None\<close> for
  not-a-number; the verb \<open>%.<p>f\<close> rounds to the nearest number of \<open>p\<close> decimals, ties to even. What
  \<open>testing.Benchmark\<close> measures is an argument.
\<close>

section \<open>Formatting\<close>

text \<open>Widths count the runes of a text: the bytes that do not continue one.\<close>

definition rune_count :: "string \<Rightarrow> nat" where
  "rune_count s = length (filter (\<lambda>c. \<not> (128 \<le> (of_char c :: nat) \<and> (of_char c :: nat) < 192)) s)"

definition pad_left :: "nat \<Rightarrow> string \<Rightarrow> string" where
  "pad_left w s = replicate (w - rune_count s) (CHR '' '') @ s"

definition pad_right :: "nat \<Rightarrow> string \<Rightarrow> string" where
  "pad_right w s = s @ replicate (w - rune_count s) (CHR '' '')"

definition round_half_even :: "rat \<Rightarrow> int" where
  "round_half_even r =
    (let below = \<lfloor>r\<rfloor>; rest = r - of_int below
     in if rest < 1 / 2 then below else if rest > 1 / 2 then below + 1
        else if even below then below else below + 1)"

definition Sprintf_f :: "nat \<Rightarrow> rat option \<Rightarrow> string" where
  "Sprintf_f p value =
    (case value of
       None \<Rightarrow> ''NaN''
     | Some r \<Rightarrow>
        (let n = nat (round_half_even (\<bar>r\<bar> * 10 ^ p))
         in (if r < 0 then ''-'' else []) @ show_nat (n div 10 ^ p) @ ''.'' @ Sprintf_0d p (int (n mod 10 ^ p))))"

definition rounded :: "duration \<Rightarrow> string" where
  "rounded d = Duration_String (Duration_Round Millisecond d)"

text \<open>\<open>html.EscapeString\<close>.\<close>

fun EscapeString :: "string \<Rightarrow> string" where
  "EscapeString [] = []"
| "EscapeString (c # cs) =
    (if c = CHR ''&'' then ''&amp;''
     else if c = CHR 0x27 then ''&#39;''
     else if c = CHR ''<'' then ''&lt;''
     else if c = CHR ''>'' then ''&gt;''
     else if c = CHR 0x22 then ''&#34;''
     else [c]) @ EscapeString cs"

text \<open>
  The date of an instant in the proleptic Gregorian calendar, by the days since 1 March of the year
  0, and \<open>Time.Format\<close> for the two layouts of the reports.
\<close>

definition civil_date :: "time \<Rightarrow> int \<times> int \<times> int" where
  "civil_date t =
    (let z = t div (86400 * Second) + 306;
         era = z div 146097;
         doe = z mod 146097;
         yoe = (doe - doe div 1460 + doe div 36524 - doe div 146096) div 365;
         doy = doe - (365 * yoe + yoe div 4 - yoe div 100);
         mp = (5 * doy + 2) div 153;
         month = (if mp < 10 then mp + 3 else mp - 9)
     in (yoe + era * 400 + (if month \<le> 2 then 1 else 0), month, doy - (153 * mp + 2) div 5 + 1))"

definition clock_time :: "time \<Rightarrow> int \<times> int \<times> int" where
  "clock_time t = (let s = t div Second mod 86400 in (s div 3600, s div 60 mod 60, s mod 60))"

definition format_time :: "string \<Rightarrow> string \<Rightarrow> string \<Rightarrow> time \<Rightarrow> string" where
  "format_time dateSeparator between clockSeparator t =
    (case (civil_date t, clock_time t) of ((y, m, d), (h, mi, s)) \<Rightarrow>
       Sprintf_0d 4 y @ dateSeparator @ Sprintf_0d 2 m @ dateSeparator @ Sprintf_0d 2 d @ between @
       Sprintf_0d 2 h @ clockSeparator @ Sprintf_0d 2 mi @ clockSeparator @ Sprintf_0d 2 s)"

abbreviation format_report_time :: "time \<Rightarrow> string" where
  "format_report_time \<equiv> format_time ''-'' '' '' '':''"

section \<open>The throughput benchmark\<close>

record benchmarkSummary =
  op_name :: string
  op_jobCount :: go_int
  nsPerOp :: go_int
  allocsPerOp :: go_int
  bytesPerOp :: go_int
  throughputOps :: "rat option"
  op_jobsPerSecond :: "rat option"

text \<open>
  The scenarios \<open>main\<close> measures.
\<close>

definition schedulerScenarios :: "(string \<times> event_counts) list" where
  "schedulerScenarios =
    [(''single-customer-burst'', [(''customer-a'', 1024)]),
     (''balanced-three-customers'', [(''customer-a'', 512), (''customer-b'', 512), (''customer-c'', 512)]),
     (''whale-scenario'',
       [(''customer-a'', 1024), (''customer-b'', 128), (''customer-c'', 128), (''customer-d'', 128)]),
     (''huge-mixed-customer-load'',
       [(''customer-a'', 16384), (''customer-b'', 4096), (''customer-c'', 4096), (''customer-d'', 4096),
        (''customer-e'', 4096), (''customer-f'', 4096), (''customer-g'', 4096), (''customer-h'', 4096)])]"

text \<open>
  One iteration: the jobs are enqueued while the dispatcher takes them, in some interleaving \<open>ops\<close> of
  the two, and the loop reads as many jobs from the channel as it has enqueued. \<open>None\<close> is a read
  that blocks, \<open>Some None\<close> the panic of a channel that cannot be made.
\<close>

definition benchmark_iteration :: "go_int \<Rightarrow> DeliveryJob sched_op list \<Rightarrow> benchmarkScenario \<Rightarrow> DeliveryJob list option option" where
  "benchmark_iteration max_buffer ops scenario =
    (case NewRoundRobinScheduler max_buffer (int (length (jobs scenario))) of
       None \<Rightarrow> Some None
     | Some s \<Rightarrow>
        (let out = snd (run_sched s ops)
         in if length out < length (jobs scenario) then None
            else Some (Some (take (length (jobs scenario)) out))))"

record benchmark_result =
  NsPerOp :: go_int
  AllocsPerOp :: go_int
  AllocedBytesPerOp :: go_int

definition runScenarioBenchmark :: "benchmark_result \<Rightarrow> benchmarkScenario \<Rightarrow> benchmarkSummary" where
  "runScenarioBenchmark result scenario =
    (let ns = NsPerOp result;
         throughput = (if ns > 0 then Fract Second ns else 0)
     in \<lparr>op_name = scenario_name scenario, op_jobCount = int (length (jobs scenario)), nsPerOp = ns,
         allocsPerOp = AllocsPerOp result, bytesPerOp = AllocedBytesPerOp result,
         throughputOps = Some throughput, op_jobsPerSecond = Some (throughput * of_nat (length (jobs scenario)))\<rparr>)"

section \<open>The console report\<close>

text \<open>The cells of a line of a table, which its format separates by blanks.\<close>

definition table_row :: "string list \<Rightarrow> string" where
  "table_row cells = (case cells of [] \<Rightarrow> [] | c # cs \<Rightarrow> c @ concat (map (\<lambda>d. '' '' @ d) cs)) @ ''\<newline>''"

definition dashes :: "nat \<Rightarrow> string" where
  "dashes n = replicate n (CHR ''-'')"

definition percent :: "rat option \<Rightarrow> rat option" where
  "percent = map_option (\<lambda>r. r * 100)"

definition console_run_row :: "fairnessWorkerRunSummary \<Rightarrow> string" where
  \<open>console_run_row run = table_row [pad_right 8 (Itoa (workerCount run)),
          pad_left 12 (Itoa (totalJobCount run)), pad_left 12 (rounded (totalDuration run)),
          pad_left 14 (Sprintf_f 2 (totalJobsPerSecond run))]\<close>

definition console_customer_rows :: "fairnessWorkerRunSummary \<Rightarrow> string" where
  \<open>console_customer_rows run =
    (let insights = analyzeFairnessRun (customerSummaries run);
         verdict = (if nonWhalesFinishedBeforeWhales insights then ''yes'' else ''no'')
     in concat (map (\<lambda>c. table_row [pad_right 8 (Itoa (workerCount run)),
          pad_right 11 (customerSegment c), pad_left 10 (Itoa (jobCount c)),
          pad_right 12 (summary_customerID c), pad_left 17 (rounded (firstFinishDuration c)),
          pad_left 17 (rounded (finishDuration c)), pad_left 17 (Itoa (earlyCompletionCount c)),
          pad_left 17 (Sprintf_f 1 (percent (earlyCompletionShare c))) @ ''%'',
          pad_left 17 (formatDurationGap (whaleVsNonWhaleCompletionGap insights)), pad_left 22 verdict]) (customerSummaries run)))\<close>

definition console_scenario :: "benchmarkMode \<Rightarrow> fairnessScenarioSummary \<Rightarrow> string" where
  \<open>console_scenario selected s = concat
     [''\<newline>'',
      summary_name s,
      ''\<newline>'',
      summary_description s,
      ''\<newline>\<newline>'',
      ''Conclusion\<newline>'',
      concat (map (\<lambda>line. ''- '' @ line @ ''\<newline>'') (fairnessConclusionBlock selected s)),
      ''\<newline>'',
      table_row [pad_right 8 ''Workers'', pad_left 12 ''Jobs'',
          pad_left 12 ''Duration'', pad_left 14 ''jobs/sec''],
      table_row [pad_right 8 (dashes 8), pad_left 12 (dashes 12),
          pad_left 12 (dashes 12), pad_left 14 (dashes 14)],
      concat (map console_run_row (workerRunSummaries s)),
      ''\<newline>'',
      table_row [pad_right 8 ''Workers'', pad_right 11 ''Segment'',
          pad_left 10 ''Messages'', pad_right 12 ''Customer'', pad_left 17 ''First completion'',
          pad_left 17 ''Full completion'', pad_left 17 ''Early completions'',
          pad_left 18 ''Early-window share'', pad_left 17 ''Full gap'',
          pad_left 22 ''Normals before whales?''],
      table_row [pad_right 8 (dashes 8), pad_right 11 (dashes 11),
          pad_left 10 (dashes 10), pad_right 12 (dashes 12), pad_left 17 (dashes 17),
          pad_left 17 (dashes 17), pad_left 17 (dashes 17), pad_left 18 (dashes 18),
          pad_left 17 (dashes 17), pad_left 22 (dashes 22)],
      concat (map console_customer_rows (workerRunSummaries s)),
      ''\<newline>'',
      earlyWindowReason s,
      ''\<newline>'']\<close>

definition buildConsoleFairnessReport :: "benchmarkMode \<Rightarrow> fairnessScenarioSummary list \<Rightarrow> string" where
  \<open>buildConsoleFairnessReport selected summaries =
    ''\<newline>Worker Fairness Scenarios ('' @ selected @ '' mode)\<newline>'' @ concat (map (console_scenario selected) summaries)\<close>

definition console_summary_row :: "benchmarkSummary \<Rightarrow> string" where
  \<open>console_summary_row b = table_row [pad_right 28 (op_name b), pad_left 14 (Itoa (op_jobCount b)),
          pad_left 12 (Itoa (nsPerOp b)), pad_left 12 (Itoa (allocsPerOp b)),
          pad_left 12 (Itoa (bytesPerOp b)), pad_left 12 (Sprintf_f 2 (throughputOps b)),
          pad_left 14 (Sprintf_f 2 (op_jobsPerSecond b))]\<close>

definition buildConsoleReport :: "time \<Rightarrow> benchmarkOptions \<Rightarrow> benchmarkSummary list \<Rightarrow> fairnessScenarioSummary list \<Rightarrow> string" where
  \<open>buildConsoleReport reportTime options schedulerSummaries fairnessSummaries = concat
     [''Scheduler Benchmark Report\<newline>\<newline>'',
      ''Generated at '',
      format_report_time reportTime,
      '' UTC.\<newline>\<newline>'',
      ''Mode: '',
      mode options,
      ''\<newline>'',
      (if includeLargeScenario options then [] else ''Large fairness scenario: skipped by default for faster day-to-day runs\<newline>''),
      ''\<newline>'',
      ''How to read this report\<newline>'',
      concat (map (\<lambda>line. ''- '' @ line @ ''\<newline>'') (buildHowToReadReport (mode options))),
      ''\<newline>'',
      ''Throughput benchmark scope\<newline>'',
      ''This benchmark measures the round-robin scheduler end-to-end within one benchmark iteration: enqueue jobs, emit scheduled jobs, and drain the scheduler output channel.\<newline>\<newline>'',
      table_row [pad_right 28 ''Scenario'', pad_left 14 ''Jobs/iter'',
          pad_left 12 ''ns/op'', pad_left 12 ''allocs/op'', pad_left 12 ''bytes/op'',
          pad_left 12 ''ops/sec'', pad_left 14 ''jobs/sec''],
      table_row [pad_right 28 (dashes 28), pad_left 14 (dashes 14),
          pad_left 12 (dashes 12), pad_left 12 (dashes 12), pad_left 12 (dashes 12),
          pad_left 12 (dashes 12), pad_left 14 (dashes 14)],
      concat (map console_summary_row schedulerSummaries),
      (if mode options = benchmarkModeApp
        then ''\<newline>App-mode confidence notes\<newline>'' @ concat (map (\<lambda>line. ''- '' @ line @ ''\<newline>'') appModeConfidenceSummary)
        else []),
      buildConsoleFairnessReport (mode options) fairnessSummaries]\<close>

section \<open>The HTML report\<close>

definition max_metric :: "(benchmarkSummary \<Rightarrow> go_int) \<Rightarrow> benchmarkSummary list \<Rightarrow> go_int" where
  "max_metric metric summaries = foldl (\<lambda>m b. if metric b > m then metric b else m) 1 summaries"

definition chart_row :: "go_int \<Rightarrow> string \<Rightarrow> string \<Rightarrow> benchmarkSummary \<Rightarrow> string" where
  \<open>chart_row maxValue unit fillClass b =
    (let metricValue = (if unit = ''allocs'' then allocsPerOp b else if unit = ''bytes'' then bytesPerOp b else nsPerOp b);
         barWidth = (if maxValue > 0 then Fract metricValue maxValue * 100 else 0)
     in concat
       [''<div class="bar-row">\<newline>'',
        ''<div class="bar-label">'',
        EscapeString (op_name b),
        ''</div>\<newline>'',
        ''<div class="bar-track">'',
        ''<div class="bar-fill '',
        fillClass,
        ''" style="width:'',
        Sprintf_f 2 (Some barWidth),
        ''%"></div>'',
        ''</div>\<newline>'',
        ''<div class="bar-value">'',
        Itoa metricValue,
        '' '',
        unit,
        ''</div>\<newline>'',
        ''</div>\<newline>''])\<close>

definition buildHTMLChartCard :: "string \<Rightarrow> benchmarkSummary list \<Rightarrow> go_int \<Rightarrow> string \<Rightarrow> string \<Rightarrow> string" where
  \<open>buildHTMLChartCard title summaries maxValue unit fillClass = concat
     [''<article class="chart-card">\<newline>'',
      ''<h3>'',
      EscapeString title,
      ''</h3>\<newline>'',
      ''<div class="bar-list">\<newline>'',
      concat (map (chart_row maxValue unit fillClass) summaries),
      ''</div>\<newline></article>\<newline>'']\<close>

text \<open>A comparison with not-a-number is false, a quotient with it is not a number.\<close>

definition max_float :: "rat \<Rightarrow> rat option \<Rightarrow> rat" where
  "max_float m value = (case value of None \<Rightarrow> m | Some r \<Rightarrow> if r > m then r else m)"

definition throughput_bar :: "rat \<Rightarrow> fairnessWorkerRunSummary \<Rightarrow> string" where
  \<open>throughput_bar maxJobsPerSecond run =
    (let barWidth = map_option (\<lambda>r. r / maxJobsPerSecond * 100) (totalJobsPerSecond run)
     in concat
       [''<div class="bar-row">\<newline>'',
        ''<div class="bar-label">'',
        Itoa (workerCount run),
        '' workers</div>\<newline>'',
        ''<div class="bar-track">'',
        ''<div class="bar-fill cool" style="width:'',
        Sprintf_f 2 barWidth,
        ''%"></div>'',
        ''</div>\<newline>'',
        ''<div class="bar-value">'',
        Sprintf_f 2 (totalJobsPerSecond run),
        '' jobs/sec</div>\<newline>'',
        ''</div>\<newline>''])\<close>

definition buildScenarioThroughputChart :: "fairnessScenarioSummary \<Rightarrow> string" where
  \<open>buildScenarioThroughputChart s =
    (let maxJobsPerSecond = foldl max_float 1 (map totalJobsPerSecond (workerRunSummaries s))
     in concat
       [''<article class="chart-card">\<newline>'',
        ''<h3>Throughput By Worker Count</h3>\<newline>'',
        ''<div class="bar-list">\<newline>'',
        concat (map (throughput_bar maxJobsPerSecond) (workerRunSummaries s)),
        ''</div>\<newline></article>\<newline>''])\<close>

definition finishMilliseconds :: "customerFairnessSummary \<Rightarrow> rat" where
  "finishMilliseconds c = Fract (go_div (finishDuration c) 1000) 1000"

definition finish_bar :: "rat \<Rightarrow> fairnessWorkerRunSummary \<Rightarrow> customerFairnessSummary \<Rightarrow> string" where
  \<open>finish_bar maxFinishMilliseconds run c =
    (let barWidth = finishMilliseconds c / maxFinishMilliseconds * 100
     in concat
       [''<div class="bar-row">\<newline>'',
        ''<div class="bar-label">'',
        Itoa (workerCount run),
        '' workers / '',
        EscapeString (summary_customerID c),
        ''</div>\<newline>'',
        ''<div class="bar-track">'',
        ''<div class="bar-fill alt" style="width:'',
        Sprintf_f 2 (Some barWidth),
        ''%"></div>'',
        ''</div>\<newline>'',
        ''<div class="bar-value">'',
        rounded (finishDuration c),
        ''</div>\<newline>'',
        ''</div>\<newline>''])\<close>

definition buildScenarioFinishChart :: "fairnessScenarioSummary \<Rightarrow> string" where
  \<open>buildScenarioFinishChart s =
    (let maxFinishMilliseconds = foldl max_float 1
           (map (Some \<circ> finishMilliseconds) (concat (map customerSummaries (workerRunSummaries s))))
     in concat
       [''<article class="chart-card">\<newline>'',
        ''<h3>Customer Finish Duration</h3>\<newline>'',
        ''<div class="bar-list">\<newline>'',
        concat (map (\<lambda>run. concat (map (finish_bar maxFinishMilliseconds run) (customerSummaries run))) (workerRunSummaries s)),
        ''</div>\<newline></article>\<newline>''])\<close>

definition html_item :: "string \<Rightarrow> string" where
  \<open>html_item line = ''<li>'' @ EscapeString line @ ''</li>\<newline>''\<close>

definition buildHTMLIntroSections :: "benchmarkOptions \<Rightarrow> string" where
  \<open>buildHTMLIntroSections options = concat
     [''<section class="section section-grid">\<newline>'',
      ''<article class="info-card">\<newline><h2>How To Read This Report</h2>\<newline><ul>\<newline>'',
      concat (map html_item (buildHowToReadReport (mode options))),
      ''</ul>\<newline></article>\<newline>'',
      ''<article class="info-card">\<newline><h2>Evidence Boundary</h2>\<newline>'',
      ''<p>Keep scheduler microbenchmark numbers separate from fairness conclusions. The throughput tab shows component-level scheduler cost. The fairness tab is the right place to judge customer progress behavior.</p>\<newline>'',
      (if mode options = benchmarkModeApp
        then ''<ul>\<newline>'' @
          concat (map html_item (appModeConfidenceSummary)) @ ''</ul>\<newline>'' else []),
      ''</article>\<newline>'',
      ''</section>\<newline>'']\<close>

definition buildHTMLFairnessConclusionList :: "benchmarkMode \<Rightarrow> fairnessScenarioSummary \<Rightarrow> string" where
  \<open>buildHTMLFairnessConclusionList selected s = concat
     [''<article class="info-card" style="margin-top:16px;">\<newline>'',
      ''<h3>Main Takeaway</h3>\<newline><ul>\<newline>'',
      concat (map html_item (fairnessConclusionBlock selected s)),
      ''</ul>\<newline></article>\<newline>'']\<close>

definition html_run_row :: "fairnessWorkerRunSummary \<Rightarrow> string" where
  \<open>html_run_row run = concat
     [''<tr><td>'',
      Itoa (workerCount run),
      ''</td><td class="num">'',
      Itoa (totalJobCount run),
      ''</td><td class="num">'',
      rounded (totalDuration run),
      ''</td><td class="num">'',
      Sprintf_f 2 (totalJobsPerSecond run),
      ''</td></tr>\<newline>'']\<close>

definition html_customer_row :: "fairnessWorkerRunSummary \<Rightarrow> fairnessRunInsights \<Rightarrow> string \<Rightarrow> customerFairnessSummary \<Rightarrow> string" where
  \<open>html_customer_row run insights verdict c = concat
     [''<tr><td>'',
      Itoa (workerCount run),
      ''</td><td>'',
      EscapeString (customerSegment c),
      ''</td><td class="num">'',
      Itoa (jobCount c),
      ''</td><td>'',
      EscapeString (summary_customerID c),
      ''</td><td class="num">'',
      rounded (firstFinishDuration c),
      ''</td><td class="num">'',
      rounded (finishDuration c),
      ''</td><td class="num">'',
      Itoa (earlyCompletionCount c),
      ''</td><td class="num">'',
      Sprintf_f 1 (percent (earlyCompletionShare c)),
      ''%</td><td class="num">'',
      EscapeString (formatDurationGap (whaleVsNonWhaleCompletionGap insights)),
      ''</td><td>'',
      verdict,
      ''</td></tr>\<newline>'']\<close>

definition html_customer_rows :: "fairnessWorkerRunSummary \<Rightarrow> string" where
  \<open>html_customer_rows run =
    (let insights = analyzeFairnessRun (customerSummaries run);
         verdict = (if nonWhalesFinishedBeforeWhales insights then ''Yes'' else ''No'')
     in concat (map (html_customer_row run insights verdict) (customerSummaries run)))\<close>

definition html_scenario :: "benchmarkMode \<Rightarrow> fairnessScenarioSummary \<Rightarrow> string" where
  \<open>html_scenario selected s = concat
     [''<section class="section">\<newline>'',
      ''<h2>'',
      EscapeString (summary_name s),
      ''</h2>\<newline>'',
      ''<p>'',
      EscapeString (summary_description s),
      ''</p>\<newline>'',
      buildHTMLFairnessConclusionList selected s,
      ''<div class="table-wrap">\<newline>'',
      ''<table>\<newline><thead><tr><th>Workers</th><th class="num">Jobs</th><th class="num">Duration</th><th class="num">jobs/sec</th></tr></thead>\<newline><tbody>\<newline>'',
      concat (map html_run_row (workerRunSummaries s)),
      ''</tbody>\<newline></table>\<newline></div>\<newline>'',
      ''<div class="table-wrap" style="margin-top:16px;">\<newline>'',
      ''<table>\<newline><thead><tr><th>Workers</th><th>Segment</th><th class="num">Messages</th><th>Customer</th><th class="num">First completion</th><th class="num">Full completion</th><th class="num">Early completions</th><th class="num">Early-window share</th><th class="num">Whale vs non-whale full gap</th><th>Normals before whales?</th></tr></thead>\<newline><tbody>\<newline>'',
      concat (map html_customer_rows (workerRunSummaries s)),
      ''</tbody>\<newline></table>\<newline></div>\<newline>'',
      ''<div class="footnote">'',
      EscapeString (earlyWindowReason s),
      ''</div>\<newline>'',
      ''<div class="charts" style="margin-top:18px;">\<newline>'',
      buildScenarioThroughputChart s,
      buildScenarioFinishChart s,
      ''</div>\<newline>'',
      ''</section>\<newline>'']\<close>

definition buildHTMLFairnessScenarioSections :: "benchmarkMode \<Rightarrow> fairnessScenarioSummary list \<Rightarrow> string" where
  \<open>buildHTMLFairnessScenarioSections selected summaries = concat
     [''<section class="section">\<newline>'',
      ''<h2>Worker Fairness Scenarios ('',
      EscapeString selected,
      '' mode)</h2>\<newline>'',
      (if selected = benchmarkModeApp
      then ''<p>App mode covers the in-memory notifier fairness pipeline: enqueue, queue claim, scheduler handoff, worker execution, and synthetic completion timing. It does not include PostgreSQL queue behavior or real webhook network delivery.</p>\<newline>''
      else ''<p>Scheduler mode covers the scheduler plus a synthetic worker harness. It is useful for fairness shape, but it is not deployment-level app evidence.</p>\<newline>''),
      ''</section>\<newline>'',
      concat (map (html_scenario selected) summaries)]\<close>

definition report_style :: string where
  \<open>report_style = concat
     [''body{margin:0;font-family:ui-sans-serif,system-ui,-apple-system,BlinkMacSystemFont,"Segoe UI",sans-serif;background:#f4efe7;color:#1f2933;}\<newline>'',
      ''.page{max-width:1100px;margin:0 auto;padding:40px 24px 56px;}\<newline>'',
      ''.hero{background:linear-gradient(135deg,#133c55,#386fa4);color:#fff;border-radius:20px;padding:28px 32px;box-shadow:0 18px 40px rgba(19,60,85,.22);}\<newline>'',
      ''.hero h1{margin:0 0 8px;font-size:34px;line-height:1.1;}\<newline>'',
      ''.hero p{margin:8px 0 0;max-width:760px;font-size:15px;line-height:1.6;color:rgba(255,255,255,.88);}\<newline>'',
      ''.meta{margin-top:14px;font-size:13px;color:rgba(255,255,255,.76);}\<newline>'',
      ''.section{margin-top:28px;}\<newline>'',
      ''.section h2{margin:0 0 14px;font-size:20px;color:#102a43;}\<newline>'',
      ''.section-grid{display:grid;grid-template-columns:repeat(auto-fit,minmax(280px,1fr));gap:18px;}\<newline>'',
      ''.tabs{display:flex;gap:10px;flex-wrap:wrap;margin-top:28px;}\<newline>'',
      ''.tab-button{border:none;border-radius:999px;padding:12px 18px;font-size:14px;font-weight:600;background:#d9e2ec;color:#243b53;cursor:pointer;transition:all .2s ease;}\<newline>'',
      ''.tab-button.active{background:#133c55;color:#fff;box-shadow:0 10px 24px rgba(19,60,85,.18);}\<newline>'',
      ''.tab-panel{display:none;}\<newline>'',
      ''.tab-panel.active{display:block;}\<newline>'',
      ''.table-wrap{background:#fff;border-radius:18px;padding:16px 16px 8px;box-shadow:0 14px 30px rgba(16,42,67,.08);overflow:auto;}\<newline>'',
      ''.info-card{background:#fff;border-radius:18px;padding:18px;box-shadow:0 14px 30px rgba(16,42,67,.08);}\<newline>'',
      ''.info-card h3{margin:0 0 12px;font-size:16px;color:#102a43;}\<newline>'',
      ''.pill{display:inline-flex;align-items:center;border-radius:999px;padding:6px 12px;font-size:12px;font-weight:700;letter-spacing:.03em;text-transform:uppercase;background:#fde68a;color:#7c2d12;}\<newline>'',
      ''.callout{margin-top:16px;background:#fff7ed;border-left:4px solid #d9822b;border-radius:14px;padding:14px 16px;color:#7c2d12;box-shadow:0 14px 30px rgba(16,42,67,.05);}\<newline>'',
      ''table{width:100%;border-collapse:collapse;font-size:14px;}\<newline>'',
      ''th,td{padding:12px 14px;border-bottom:1px solid #e6ecf1;}\<newline>'',
      ''th{text-align:left;background:#f8fafc;color:#486581;font-size:12px;letter-spacing:.04em;text-transform:uppercase;}\<newline>'',
      ''td.num,th.num{text-align:right;font-variant-numeric:tabular-nums;}\<newline>'',
      ''tr:last-child td{border-bottom:none;}\<newline>'',
      ''.charts{display:grid;grid-template-columns:repeat(auto-fit,minmax(280px,1fr));gap:18px;}\<newline>'',
      ''.chart-card{background:#fff;border-radius:18px;padding:18px;box-shadow:0 14px 30px rgba(16,42,67,.08);}\<newline>'',
      ''.chart-card h3{margin:0 0 14px;font-size:16px;color:#102a43;}\<newline>'',
      ''.bar-list{display:flex;flex-direction:column;gap:12px;}\<newline>'',
      ''.bar-row{display:grid;grid-template-columns:170px 1fr 92px;gap:12px;align-items:center;}\<newline>'',
      ''.bar-label{font-size:13px;color:#334e68;overflow:hidden;text-overflow:ellipsis;white-space:nowrap;}\<newline>'',
      ''.bar-track{height:14px;background:#e9eff5;border-radius:999px;overflow:hidden;}\<newline>'',
      ''.bar-fill{height:100%;border-radius:999px;background:linear-gradient(90deg,#d9822b,#f0b429);}\<newline>'',
      ''.bar-fill.alt{background:linear-gradient(90deg,#2f855a,#48bb78);}\<newline>'',
      ''.bar-fill.cool{background:linear-gradient(90deg,#2b6cb0,#63b3ed);}\<newline>'',
      ''.bar-value{text-align:right;font-size:12px;color:#486581;font-variant-numeric:tabular-nums;}\<newline>'',
      ''.footnote{margin-top:16px;font-size:13px;color:#627d98;}\<newline>'',
      ''@media (max-width:720px){.bar-row{grid-template-columns:1fr;}.bar-value{text-align:left;}.tabs{flex-direction:column;}.tab-button{width:100%;}}\<newline>'']\<close>

definition report_script :: string where
  \<open>report_script = concat
     [''const tabButtons=document.querySelectorAll('[data-tab-target]');\<newline>'',
      ''const tabPanels=document.querySelectorAll('.tab-panel');\<newline>'',
      ''tabButtons.forEach((tabButton)=>{tabButton.addEventListener('click',()=>{const targetId=tabButton.getAttribute('data-tab-target');tabButtons.forEach((button)=>button.classList.remove('active'));tabPanels.forEach((panel)=>panel.classList.remove('active'));tabButton.classList.add('active');document.getElementById(targetId).classList.add('active');});});\<newline>'']\<close>

definition html_summary_row :: "benchmarkSummary \<Rightarrow> string" where
  \<open>html_summary_row b = concat
     [''<tr><td>'',
      EscapeString (op_name b),
      ''</td><td class="num">'',
      Itoa (op_jobCount b),
      ''</td><td class="num">'',
      Itoa (nsPerOp b),
      ''</td><td class="num">'',
      Itoa (allocsPerOp b),
      ''</td><td class="num">'',
      Itoa (bytesPerOp b),
      ''</td><td class="num">'',
      Sprintf_f 2 (throughputOps b),
      ''</td><td class="num">'',
      Sprintf_f 2 (op_jobsPerSecond b),
      ''</td></tr>\<newline>'']\<close>

definition buildHTMLReport :: "time \<Rightarrow> benchmarkOptions \<Rightarrow> benchmarkSummary list \<Rightarrow> fairnessScenarioSummary list \<Rightarrow> string" where
  \<open>buildHTMLReport reportTime options schedulerSummaries fairnessSummaries = concat
     [''<!DOCTYPE html>\<newline>'',
      ''<html lang="en">\<newline><head>\<newline><meta charset="utf-8">\<newline>'',
      ''<meta name="viewport" content="width=device-width, initial-scale=1">\<newline>'',
      ''<title>Scheduler Benchmark Report</title>\<newline>'',
      ''<style>\<newline>'',
      report_style,
      ''</style>\<newline></head>\<newline><body>\<newline><div class="page">\<newline>'',
      ''<section class="hero">\<newline>'',
      ''<h1>Scheduler Benchmark Report</h1>\<newline>'',
      ''<p>This report separates scheduler throughput evidence from fairness evidence so reviewers can quickly tell what was measured, what the numbers mean, and how much app-level confidence they should take from the run.</p>\<newline>'',
      ''<div class="meta">Generated at '',
      format_report_time reportTime,
      '' UTC</div>\<newline>'',
      ''<div class="meta">Mode: '',
      mode options,
      ''</div>\<newline>'',
      (if includeLargeScenario options then []
      else ''<div class="meta"><span class="pill">Large fairness scenario skipped</span></div>\<newline>''),
      ''</section>\<newline>'',
      buildHTMLIntroSections options,
      ''<section class="tabs" aria-label="Benchmark report sections">\<newline>'',
      ''<button class="tab-button active" type="button" data-tab-target="throughput-tab">Throughput Benchmark</button>\<newline>'',
      ''<button class="tab-button" type="button" data-tab-target="fairness-tab">Fairness Benchmark</button>\<newline>'',
      ''</section>\<newline>'',
      ''<section class="tab-panel active" id="throughput-tab">\<newline>'',
      ''<section class="section">\<newline><h2>Scheduler Results</h2>\<newline><div class="table-wrap">\<newline>'',
      ''<div class="callout">This tab is scheduler-only evidence. Use it to compare scheduler cost by workload. Do not read these numbers as app-mode throughput or deployment-level scale proof.</div>\<newline>'',
      ''<table>\<newline><thead><tr><th>Scenario</th><th class="num">Jobs / iteration</th><th class="num">ns/op</th><th class="num">allocs/op</th><th class="num">bytes/op</th><th class="num">ops/sec</th><th class="num">jobs/sec</th></tr></thead>\<newline><tbody>\<newline>'',
      concat (map html_summary_row schedulerSummaries),
      ''</tbody>\<newline></table>\<newline></div>\<newline></section>\<newline>'',
      ''<section class="section">\<newline><h2>Charts</h2>\<newline><div class="charts">\<newline>'',
      buildHTMLChartCard ''Latency by Scenario (ns/op)'' schedulerSummaries (max_metric nsPerOp schedulerSummaries) ''ns'' [],
      buildHTMLChartCard ''Allocations by Scenario (allocs/op)'' schedulerSummaries (max_metric allocsPerOp schedulerSummaries) ''allocs'' ''alt'',
      buildHTMLChartCard ''Memory by Scenario (bytes/op)'' schedulerSummaries (max_metric bytesPerOp schedulerSummaries) ''bytes'' ''cool'',
      ''</div>\<newline><div class="footnote">Longer bars represent larger cost per benchmark iteration. Use these charts to compare how scheduler overhead grows as the workload gets larger.</div>\<newline></section>\<newline>'',
      ''</section>\<newline>'',
      ''<section class="tab-panel" id="fairness-tab">\<newline>'',
      buildHTMLFairnessScenarioSections (mode options) fairnessSummaries,
      ''</section>\<newline>'',
      ''<script>\<newline>'',
      report_script,
      ''</script>\<newline>'',
      ''</div>\<newline></body>\<newline></html>\<newline>'']\<close>

end
