(* ===== verification/Benchmark_Report_Correct.thy ===== *)
theory Benchmark_Report_Correct
  imports Benchmark_Report Scheduler_Benchmark_Correct
begin

text \<open>
  The HTML report is well formed whatever the names and descriptions of its scenarios are: its tags
  are balanced. The scanner below reads a text tag by tag with a stack of open elements.
\<close>

section \<open>Balanced markup\<close>

datatype html_state = InText "string list" | InTag "string list" string | Broken

definition element_name :: "string \<Rightarrow> string" where
  "element_name tag = takeWhile (\<lambda>c. c \<noteq> CHR '' '') tag"

text \<open>What a complete tag does: \<open>meta\<close> is void and a declaration opens nothing.\<close>

definition tag_done :: "string list \<Rightarrow> string \<Rightarrow> html_state" where
  "tag_done stack tag =
    (case tag of
       [] \<Rightarrow> Broken
     | c # name \<Rightarrow>
        if c = CHR ''/''
        then (case stack of [] \<Rightarrow> Broken | inner # rest \<Rightarrow> if inner = name then InText rest else Broken)
        else if c = CHR ''!'' then InText stack
        else if element_name tag = ''meta'' then InText stack else InText (element_name tag # stack))"

fun html_step :: "char \<Rightarrow> html_state \<Rightarrow> html_state" where
  "html_step c (InText stack) = (if c = CHR ''<'' then InTag stack [] else InText stack)"
| "html_step c (InTag stack read) =
    (if c = CHR ''>'' then tag_done stack (rev read)
     else if c = CHR ''<'' then Broken else InTag stack (c # read))"
| "html_step c Broken = Broken"

definition html_run :: "string \<Rightarrow> html_state \<Rightarrow> html_state" where
  "html_run s st = fold html_step s st"

definition balanced :: "string \<Rightarrow> bool" where
  "balanced s \<longleftrightarrow> (\<forall>stack. html_run s (InText stack) = InText stack)"

lemma html_run_simps [simp]:
  "html_run [] st = st" "html_run (c # s) st = html_run s (html_step c st)"
  "html_run (s @ t) st = html_run t (html_run s st)"
  by (simp_all add: html_run_def)

lemma balancedI: "(\<And>stack. html_run s (InText stack) = InText stack) \<Longrightarrow> balanced s"
  by (simp add: balanced_def)

lemma balanced_run [simp]: "balanced s \<Longrightarrow> html_run s (InText stack) = InText stack"
  by (simp add: balanced_def)

lemma balanced_append: "balanced s \<Longrightarrow> balanced t \<Longrightarrow> balanced (s @ t)"
  by (simp add: balanced_def)

lemma balanced_concat: "(\<And>x. x \<in> set xs \<Longrightarrow> balanced (f x)) \<Longrightarrow> balanced (concat (map f xs))"
  by (induction xs) (auto simp: balanced_def)

section \<open>Texts without markup\<close>

definition plain :: "string \<Rightarrow> bool" where
  "plain s \<longleftrightarrow> CHR ''<'' \<notin> set s \<and> CHR ''>'' \<notin> set s"

lemma plain_simps [simp]:
  "plain []" "plain (c # s) \<longleftrightarrow> c \<noteq> CHR ''<'' \<and> c \<noteq> CHR ''>'' \<and> plain s"
  "plain (s @ t) \<longleftrightarrow> plain s \<and> plain t"
  by (auto simp: plain_def)

text \<open>Such a text stays where it is written: between tags, or within one.\<close>

lemma plain_run:
  "plain s \<Longrightarrow> html_run s (InText stack) = InText stack"
  "plain s \<Longrightarrow> html_run s (InTag stack read) = InTag stack (rev s @ read)"
  by (induction s arbitrary: read) auto

lemma plain_replicate [simp]: "c \<noteq> CHR ''<'' \<Longrightarrow> c \<noteq> CHR ''>'' \<Longrightarrow> plain (replicate n c)"
  by (induction n) auto

lemma plain_Escape [simp]: "plain (EscapeString s)"
  by (induction s) auto

lemma digit_not_bracket [simp]:
  assumes "d < 10"
  shows "digit_char d \<noteq> CHR ''<''" "digit_char d \<noteq> CHR ''>''"
proof -
  have "digit_value (CHR ''<'') = None" "digit_value (CHR ''>'') = None" by code_simp+
  then show "digit_char d \<noteq> CHR ''<''" "digit_char d \<noteq> CHR ''>''"
    using digit_value_char [OF assms] by auto
qed

lemma plain_show_nat [simp]: "plain (show_nat n)"
proof (induction n rule: show_nat.induct)
  case (1 n)
  then show ?case by (subst show_nat.simps) simp
qed

lemma plain_low_digits [simp]: "plain (low_digits n v)"
  by (induction n v rule: low_digits.induct) simp_all

lemma plain_numbers [simp]:
  "plain (Itoa i)" "plain (Sprintf_0d w i)" "plain (Sprintf_f p r)"
  by (auto simp: Itoa_def Sprintf_0d_def Sprintf_f_def Let_def split: option.split)

lemma plain_Duration [simp]: "plain (Duration_String d)" "plain (rounded d)" "plain (formatDurationGap d)"
proof -
  have "plain (fmtFrac prec v)" for prec v by (simp add: fmtFrac_def split: prod.split)
  moreover have "plain (bytes [194, 181])" by code_simp
  ultimately show "plain (Duration_String d)" for d by (simp add: Duration_String_def Let_def)
  then show "plain (rounded d)" "plain (formatDurationGap d)" by (simp_all add: rounded_def formatDurationGap_def)
qed

lemma plain_time [simp]: "plain (format_report_time t)"
  by (simp add: format_time_def split: prod.split)

section \<open>The parts of the report\<close>

lemmas html_eval = plain_run tag_done_def element_name_def

lemma balanced_items: "balanced (concat (map html_item ls))"
  unfolding html_item_def by (intro balanced_concat balancedI) (simp add: html_eval)

lemma balanced_bars:
  "plain unit \<Longrightarrow> plain fillClass \<Longrightarrow> balanced (chart_row maxValue unit fillClass b)"
  "balanced (throughput_bar m run)" "balanced (finish_bar n run c)"
  unfolding chart_row_def throughput_bar_def finish_bar_def Let_def
  by (rule balancedI, simp add: html_eval)+

lemma balanced_rows:
  "balanced (html_run_row run)" "plain verdict \<Longrightarrow> balanced (html_customer_row run insights verdict c)"
  "balanced (html_summary_row b)"
  unfolding html_run_row_def html_customer_row_def html_summary_row_def
  by (rule balancedI, simp add: html_eval)+

lemma balanced_customer_rows: "balanced (html_customer_rows run)"
  unfolding html_customer_rows_def Let_def by (intro balanced_concat balanced_rows) simp

lemma balanced_loops:
  "plain unit \<Longrightarrow> plain fillClass \<Longrightarrow> balanced (concat (map (chart_row maxValue unit fillClass) bs))"
  "balanced (concat (map (throughput_bar m) runs))"
  "balanced (concat (map (\<lambda>run. concat (map (finish_bar n run) (customerSummaries run))) runs))"
  "balanced (concat (map html_run_row runs))" "balanced (concat (map html_customer_rows runs))"
  "balanced (concat (map html_summary_row bs))"
  by (intro balanced_concat balanced_bars balanced_rows balanced_customer_rows; assumption)+

lemma balanced_cards:
  "plain unit \<Longrightarrow> plain fillClass \<Longrightarrow> balanced (buildHTMLChartCard title bs maxValue unit fillClass)"
  "balanced (buildScenarioThroughputChart s)" "balanced (buildScenarioFinishChart s)"
  "balanced (buildHTMLFairnessConclusionList selected s)" "balanced (buildHTMLIntroSections options)"
  unfolding buildHTMLChartCard_def buildScenarioThroughputChart_def buildScenarioFinishChart_def
    buildHTMLFairnessConclusionList_def buildHTMLIntroSections_def Let_def
  by (rule balancedI, simp add: html_eval balanced_loops balanced_items)+

lemma balanced_scenario: "balanced (html_scenario selected s)"
  unfolding html_scenario_def by (rule balancedI) (simp add: html_eval balanced_loops balanced_cards)

lemma balanced_sections: "balanced (buildHTMLFairnessScenarioSections selected summaries)"
proof -
  have "balanced (concat (map (html_scenario selected) summaries))" for selected by (intro balanced_concat balanced_scenario)
  then show ?thesis
    unfolding buildHTMLFairnessScenarioSections_def by (intro balancedI) (simp add: html_eval)
qed

lemma balanced_static: "balanced report_style" "balanced report_script"
  unfolding report_style_def report_script_def by (rule balancedI, simp add: html_eval)+

lemma parsed_mode:
  "parseBenchmarkOptions quote env modeFlag includeFlag = Inr options \<Longrightarrow> mode options \<in> {benchmarkModeScheduler, benchmarkModeApp}"
  by (auto simp: parseBenchmarkOptions_def Let_def split: if_splits)

section \<open>The throughput benchmark\<close>



section \<open>The whole report\<close>

text \<open>
  Whatever the scenarios, segments and customers are called and whatever the numbers are, the report a
  parsed command line leads to has balanced tags: every text that comes from outside is escaped before
  it is written, and no element is left open.
\<close>

lemma html_report_is_well_formed:
  assumes "parseBenchmarkOptions quote env modeFlag includeFlag = Inr options"
  shows "html_run (buildHTMLReport reportTime options schedulerSummaries fairnessSummaries) (InText []) = InText []"
proof -
  have "plain (mode options)"
    using parsed_mode [OF assms] by (auto simp: benchmarkModeScheduler_def benchmarkModeApp_def)
  then show ?thesis
    unfolding buildHTMLReport_def
    by (simp add: html_eval balanced_static balanced_cards balanced_loops balanced_sections)
qed

end
