(* ===== verification/Benchmark_Command.thy ===== *)
theory Benchmark_Command
  imports Benchmark_Report_Correct
begin

text \<open>
  The benchmark command as a whole (\<open>main\<close>, \<open>writeReport\<close> and \<open>buildTerminalFileLink\<close> of
  \<open>cmd/scheduler-benchmark/main.go\<close>): from the command line to the exit code, the two output streams
  and the file it leaves. What the operating system answers is part of the record \<open>benchmark_world\<close>,
  as are the measurements and what the fairness runs observe.
\<close>

section \<open>Files\<close>

type_synonym files = "string \<rightharpoonup> string"

text \<open>
  \<open>os.WriteFile\<close> fails before it has opened the file, or after it has written some bytes of it.
\<close>

datatype write_fault = OpenFault go_error | WriteFault go_error nat

definition WriteFile :: "write_fault option \<Rightarrow> string \<Rightarrow> string \<Rightarrow> files \<Rightarrow> go_error option \<times> files" where
  "WriteFile fault path content fs =
    (case fault of
       None \<Rightarrow> (None, fs(path \<mapsto> content))
     | Some (OpenFault e) \<Rightarrow> (Some e, fs)
     | Some (WriteFault e n) \<Rightarrow> (Some e, fs(path \<mapsto> take n content)))"

definition report_path :: "time \<Rightarrow> benchmarkMode \<Rightarrow> string" where
  "report_path reportTime selected =
    ''loadtest/reports/scheduler-benchmark-'' @ selected @ ''-'' @ format_time [] ''-'' [] reportTime @ ''.html''"

definition writeReport :: "go_error option \<Rightarrow> write_fault option \<Rightarrow> time \<Rightarrow> benchmarkMode \<Rightarrow> string \<Rightarrow> files \<Rightarrow>
    (go_error + string) \<times> files" where
  "writeReport mkdirError fault reportTime selected reportContent fs =
    (case mkdirError of
       Some e \<Rightarrow> (Inl e, fs)
     | None \<Rightarrow>
        (case WriteFile fault (report_path reportTime selected) reportContent fs of
           (Some writeError, fs') \<Rightarrow> (Inl writeError, fs')
         | (None, fs') \<Rightarrow> (Inr (report_path reportTime selected), fs')))"

section \<open>The link to the report\<close>

text \<open>
  \<open>URL.String\<close> escapes the path of a URL: letters, digits and the marks a path may contain stand for
  themselves, every other byte is written in hexadecimal after a percent sign.
\<close>

definition path_char :: "char \<Rightarrow> bool" where
  "path_char c \<longleftrightarrow>
    c \<in> set ''abcdefghijklmnopqrstuvwxyzABCDEFGHIJKLMNOPQRSTUVWXYZ0123456789-_.~$&+,/:;=@''"

definition hex_char :: "nat \<Rightarrow> char" where
  "hex_char d = (if d < 10 then char_of (48 + d) else char_of (55 + d))"

definition escape_path_char :: "char \<Rightarrow> string" where
  "escape_path_char c =
    (if path_char c then [c] else [CHR ''%'', hex_char (of_char c div 16), hex_char (of_char c mod 16)])"

definition escape_path :: "string \<Rightarrow> string" where
  "escape_path path = concat (map escape_path_char path)"

text \<open>
  \<open>filepath.Clean\<close> of a path that begins with a slash: empty segments and dots go, two dots take the
  segment before them away, if there is one.
\<close>

fun path_segments :: "string \<Rightarrow> string list" where
  "path_segments [] = [[]]"
| "path_segments (c # cs) =
    (if c = CHR ''/'' then [] # path_segments cs
     else case path_segments cs of [] \<Rightarrow> [[c]] | s # ss \<Rightarrow> (c # s) # ss)"

definition clean_segment :: "string list \<Rightarrow> string \<Rightarrow> string list" where
  "clean_segment kept segment =
    (if segment = [] \<or> segment = ''.'' then kept else if segment = ''..'' then butlast kept else kept @ [segment])"

definition Clean :: "string \<Rightarrow> string" where
  "Clean path = (case foldl clean_segment [] (path_segments path) of
     [] \<Rightarrow> ''/'' | kept \<Rightarrow> concat (map (\<lambda>s. ''/'' @ s) kept))"

text \<open>\<open>filepath.Abs\<close> of a relative path, for the working directory it finds.\<close>

definition Abs :: "(go_error + string) \<Rightarrow> string \<Rightarrow> go_error + string" where
  "Abs getwd path = map_sum id (\<lambda>directory. Clean (directory @ ''/'' @ path)) getwd"

definition buildTerminalFileLink :: "(go_error + string) \<Rightarrow> string \<Rightarrow> string" where
  "buildTerminalFileLink getwd reportPath =
    (case Abs getwd reportPath of
       Inl absolutePathError \<Rightarrow> reportPath
     | Inr absoluteReportPath \<Rightarrow>
        (let escape = [CHR 0x1B]; close = escape @ [CHR 0x5C]
         in escape @ '']8;;'' @ ''file://'' @ escape_path absoluteReportPath @ close @ absoluteReportPath @
            escape @ '']8;;'' @ close))"

section \<open>The command\<close>

record benchmark_world =
  quoted :: "string \<Rightarrow> string"
  variables :: environment
  modeFlag :: "string option"
  includeFlag :: "bool option"
  startTime :: time
  measured :: "nat \<Rightarrow> benchmark_result"
  maxBuffer :: go_int
  enqueueClocks :: "nat \<Rightarrow> time"
  claimClock :: "nat \<Rightarrow> time"
  workerClock :: "nat \<Rightarrow> time"
  sinkValue :: int
  observed :: "nat \<Rightarrow> nat \<Rightarrow> observation"
  mkdirFault :: "go_error option"
  writeFault :: "write_fault option"
  workingDirectory :: "go_error + string"

record process_end =
  exit_code :: go_int
  stdout :: string
  stderr :: string
  left_files :: files

definition fairness_runs :: "benchmark_world \<Rightarrow> benchmarkOptions \<Rightarrow> (go_error + fairnessScenarioSummary list) option" where
  "fairness_runs world = runFairnessScenarios (maxBuffer world) (enqueueClocks world) (claimClock world)
    (workerClock world) (sinkValue world) (observed world)"

text \<open>The loop over \<open>schedulerScenarios\<close>; the k-th scenario is measured as \<open>measured k\<close>.\<close>

definition measure_scenarios :: "(nat \<Rightarrow> benchmark_result) \<Rightarrow> benchmarkSummary list option" where
  "measure_scenarios results =
    those (map (\<lambda>(k, name, counts). map_option (runScenarioBenchmark (results k)) (newScenario name counts))
      (enumerate 0 schedulerScenarios))"

text \<open>\<open>None\<close> is a command that does not come to an end by itself.\<close>

definition benchmark_main :: "benchmark_world \<Rightarrow> files \<Rightarrow> process_end option" where
  "benchmark_main world fs =
    (case parseBenchmarkOptions (quoted world) (variables world) (modeFlag world) (includeFlag world) of
       Inl optionsError \<Rightarrow>
         Some \<lparr>exit_code = 1, stdout = [],
           stderr = ''parse benchmark options: '' @ error_text optionsError @ ''\<newline>'', left_files = fs\<rparr>
     | Inr options \<Rightarrow>
        (case measure_scenarios (measured world) of
           None \<Rightarrow> None
         | Some schedulerSummaries \<Rightarrow>
            (case fairness_runs world options of
               None \<Rightarrow> None
             | Some (Inl fairnessScenarioError) \<Rightarrow>
                 Some \<lparr>exit_code = 1, stdout = [],
                   stderr = ''run fairness scenarios: '' @ error_text fairnessScenarioError @ ''\<newline>'', left_files = fs\<rparr>
             | Some (Inr fairnessScenarioSummaries) \<Rightarrow>
                (let consoleReportContent =
                       buildConsoleReport (startTime world) options schedulerSummaries fairnessScenarioSummaries;
                     reportContent =
                       buildHTMLReport (startTime world) options schedulerSummaries fairnessScenarioSummaries
                 in case writeReport (mkdirFault world) (writeFault world) (startTime world) (mode options) reportContent fs of
                      (Inl writeError, fs') \<Rightarrow>
                        Some \<lparr>exit_code = 1, stdout = consoleReportContent,
                          stderr = ''write scheduler benchmark report: '' @ error_text writeError @ ''\<newline>'', left_files = fs'\<rparr>
                    | (Inr reportPath, fs') \<Rightarrow>
                        Some \<lparr>exit_code = 0,
                          stdout = consoleReportContent @ ''\<newline>Saved report to '' @
                            buildTerminalFileLink (workingDirectory world) reportPath @ ''\<newline>'',
                          stderr = [], left_files = fs'\<rparr>))))"

section \<open>Opening the link\<close>

text \<open>
  What a terminal opens for a link: the text between the introducer and the next escape character,
  and of a \<open>file\<close> URL the path with its hexadecimal bytes put back.
\<close>

definition hex_value :: "char \<Rightarrow> nat" where
  "hex_value c = (if of_char c < (58 :: nat) then of_char c - 48 else of_char c - 55)"

fun unescape_path :: "string \<Rightarrow> string" where
  "unescape_path (c # h # l # cs) =
    (if c = CHR ''%'' then char_of (16 * hex_value h + hex_value l) # unescape_path cs
     else c # unescape_path (h # l # cs))"
| "unescape_path cs = cs"

definition link_target :: "string \<Rightarrow> string option" where
  "link_target link =
    (let introducer = CHR 0x1B # '']8;;''; uri = takeWhile (\<lambda>c. c \<noteq> CHR 0x1B) (drop 5 link)
     in if take 5 link = introducer \<and> take 7 uri = ''file://'' then Some (unescape_path (drop 7 uri)) else None)"

lemma of_char_byte: "of_char c < (256 :: nat)"
  using nat_of_char_less_256 by simp

lemma hex_value_char: "d < 16 \<Longrightarrow> hex_value (hex_char d) = d"
  by (simp add: hex_value_def hex_char_def)

lemma unescape_plain: "c \<noteq> CHR ''%'' \<Longrightarrow> unescape_path (c # cs) = c # unescape_path cs"
  by (cases cs rule: list.exhaust; cases "tl cs") simp_all

lemma unescape_char: "unescape_path (escape_path_char c @ cs) = c # unescape_path cs"
proof (cases "path_char c")
  case True
  moreover have "\<not> path_char (CHR ''%'')" by code_simp
  ultimately have "c \<noteq> CHR ''%''" by metis
  then show ?thesis using True by (simp add: escape_path_char_def unescape_plain)
next
  case False
  have "of_char c div 16 < (16 :: nat)" using of_char_byte [of c] by linarith
  then have "unescape_path (escape_path_char c @ cs) = char_of (16 * (of_char c div 16) + of_char c mod 16) # unescape_path cs"
    using False by (simp add: escape_path_char_def hex_value_char)
  then show ?thesis by simp
qed

lemma unescape_escape: "unescape_path (escape_path path) = path"
  by (induction path) (simp_all add: escape_path_def unescape_char)

lemma hex_char_no_escape: "d < 16 \<Longrightarrow> hex_char d \<noteq> CHR 0x1B"
proof -
  have "list_all (\<lambda>d. hex_char d \<noteq> CHR 0x1B) [0..<16]" by code_simp
  then show "d < 16 \<Longrightarrow> hex_char d \<noteq> CHR 0x1B" by (simp add: list_all_iff)
qed

lemma escape_path_chars: "CHR 0x1B \<notin> set (escape_path path)"
proof -
  have "\<not> path_char (CHR 0x1B)" by code_simp
  moreover have "of_char x div 16 < (16 :: nat)" for x :: char using of_char_byte [of x] by linarith
  ultimately have "CHR 0x1B \<notin> set (escape_path_char x)" for x
    using hex_char_no_escape [of "of_char x div 16"] hex_char_no_escape [of "of_char x mod 16"]
    by (auto simp: escape_path_char_def)
  then show ?thesis by (simp add: escape_path_def)
qed

text \<open>A path without empty and dotted segments is clean.\<close>

lemma path_segments_join:
  "CHR ''/'' \<notin> set s \<Longrightarrow> path_segments (s @ rest) = (case path_segments rest of [] \<Rightarrow> [s] | t # ts \<Rightarrow> (s @ t) # ts)"
proof (induction s)
  case Nil
  have "path_segments rest \<noteq> []" by (cases rest) (auto split: list.split)
  then show ?case by (auto split: list.split)
qed (auto split: list.split)

lemma Clean_clean:
  assumes "segments \<noteq> []" and "\<forall>s \<in> set segments. CHR ''/'' \<notin> set s \<and> s \<notin> {[], ''.'', ''..''}"
  shows "Clean (concat (map (\<lambda>s. ''/'' @ s) segments)) = concat (map (\<lambda>s. ''/'' @ s) segments)"
proof -
  have split: "path_segments (concat (map (\<lambda>s. ''/'' @ s) ss)) = [] # ss" if "\<forall>s \<in> set ss. CHR ''/'' \<notin> set s" for ss
    using that by (induction ss) (simp_all add: path_segments_join)
  have keep: "foldl clean_segment kept ss = kept @ ss" if "\<forall>s \<in> set ss. s \<notin> {[], ''.'', ''..''}" for kept ss
    using that by (induction ss arbitrary: kept) (simp_all add: clean_segment_def)
  have "foldl clean_segment [] ([] # segments) = segments" using keep [of segments] assms(2) by (simp add: clean_segment_def)
  then show ?thesis using split [of segments] assms by (simp add: Clean_def split: list.split)
qed

lemma link_opens_the_file: "link_target (buildTerminalFileLink (Inr directory) path) =
    Some (Clean (directory @ ''/'' @ path))"
proof -
  have "takeWhile (\<lambda>c. c \<noteq> CHR 0x1B) (escape_path p @ CHR 0x1B # rest) = escape_path p" for p rest
    by (subst takeWhile_append2) (use escape_path_chars in auto)
  then show ?thesis
    by (simp add: link_target_def buildTerminalFileLink_def Abs_def unescape_escape Let_def)
qed

section \<open>Properties\<close>

lemma customer_names: "list_all (\<lambda>c. TrimSpace c \<noteq> [])
    [''customer-a'', ''customer-b'', ''customer-c'', ''customer-d'', ''customer-e'', ''customer-f'', ''customer-g'', ''customer-h'']"
  by code_simp

lemma counts_of_scenarios:
  "list_all (\<lambda>(name, counts). wf_counts counts) schedulerScenarios"
  "list_all (\<lambda>def. wf_counts (eventsPerCustomer def)) (fairnessScenarioDefinitions options)"
  using customer_names
  by (simp_all add: schedulerScenarios_def fairnessScenarioDefinitions_def four_customers_def wf_counts_def)

lemma measurements_return: "\<exists>summaries. measure_scenarios results = Some summaries \<and>
    map op_name summaries = map fst schedulerScenarios"
proof -
  have "\<exists>summaries. those (map (\<lambda>(k, name, counts). map_option (runScenarioBenchmark (results k)) (newScenario name counts))
      (enumerate n scenarios)) = Some summaries \<and> map op_name summaries = map fst scenarios"
    if "list_all (\<lambda>(name, counts). wf_counts counts) scenarios" for n scenarios
    using that
  proof (induction scenarios arbitrary: n)
    case (Cons s scenarios)
    obtain name counts where s: "s = (name, counts)" by fastforce
    obtain scenario where "newScenario name counts = Some scenario"
      using Cons.prems newScenario_jobs [of counts name] by (auto simp: s)
    then show ?case
      using Cons.IH [of "Suc n"] Cons.prems by (auto simp: s runScenarioBenchmark_def newScenario_def Let_def split: if_splits)
  qed simp
  then show ?thesis unfolding measure_scenarios_def using counts_of_scenarios(1) by blast
qed

text \<open>In the scheduler mode the runs of a scenario return when each has seen all its completions.\<close>

lemma worker_runs_return:
  "(\<And>k n. n \<in> set ns \<Longrightarrow> \<exists>s. run k n = Some (Inr s)) \<Longrightarrow> \<exists>ss. worker_runs run k ns = Some (Inr ss)"
  by (induction run k ns rule: worker_runs.induct) force+

lemma scenario_runs_return:
  "(\<And>k def. def \<in> set defs \<Longrightarrow> \<exists>s. run k def = Some (Inr s)) \<Longrightarrow> \<exists>ss. scenario_runs run k defs = Some (Inr ss)"
  by (induction run k defs rule: scenario_runs.induct) force+

lemma fairness_runs_return:
  assumes "mode options = benchmarkModeScheduler"
    and enough: "\<And>def k l. def \<in> set (fairnessScenarioDefinitions options) \<Longrightarrow>
      sum_list (map snd (eventsPerCustomer def)) \<le> maxBuffer world \<and>
      sum_list (map snd (eventsPerCustomer def)) \<le> int (length (completed (observed world k l)))"
  shows "\<exists>fairs. fairness_runs world options = Some (Inr fairs)"
  unfolding fairness_runs_def runFairnessScenarios_def
proof (rule scenario_runs_return)
  fix k def assume def: "def \<in> set (fairnessScenarioDefinitions options)"
  then have "wf_counts (eventsPerCustomer def)" using counts_of_scenarios(2) by (auto simp: list_all_iff)
  then obtain scenario where s: "newScenario (definition_name def) (eventsPerCustomer def) = Some scenario"
    "int (length (jobs scenario)) = sum_list (map snd (eventsPerCustomer def))"
    by (rule newScenario_jobs)
  have "\<exists>r. runSchedulerFairnessWorkerRun (maxBuffer world) (observed world k l) scenario customers segments n = Some (Inr r)"
    for l customers segments n
    using enough [OF def, of k l] s(2) by (simp add: runSchedulerFairnessWorkerRun_def NewRoundRobinScheduler_def Let_def)
  then obtain rs where "worker_runs (\<lambda>l n. runSchedulerFairnessWorkerRun (maxBuffer world) (observed world k l) scenario
      (sortedCustomerIDs (jobs scenario)) (customerSegments def) n) 0 (workerCounts def) = Some (Inr rs)"
    using worker_runs_return by metis
  then show "\<exists>r. runFairnessScenario (maxBuffer world) (enqueueClocks world) (claimClock world) (workerClock world)
      (sinkValue world) (observed world k) def (mode options) = Some (Inr r)"
    using assms(1) s(1)
    by (simp add: runFairnessScenario_def benchmarkModeScheduler_def benchmarkModeApp_def Let_def)
qed

text \<open>
  C40. The benchmark command leaves one well-formed report. Once the options are parsed and the fairness
  runs have returned, the command ends. It has written to no file but the one named after the mode and
  the time; without a fault of the file system it ends with exit code 0, the file holds the HTML report, every tag of which is closed whatever the texts and numbers in it are, and
  the link printed last opens the file. With a fault it ends with exit code 1 and a message. The
  console report is printed in both cases.
\<close>

theorem benchmark_leaves_a_well_formed_report:
  assumes "parseBenchmarkOptions (quoted world) (variables world) (modeFlag world) (includeFlag world) = Inr options"
    and "fairness_runs world options = Some (Inr fairs)"
  shows "\<exists>summaries fin rest. measure_scenarios (measured world) = Some summaries \<and> benchmark_main world fs = Some fin \<and>
    html_run (buildHTMLReport (startTime world) options summaries fairs) (InText []) = InText [] \<and>
    stdout fin = buildConsoleReport (startTime world) options summaries fairs @ rest \<and>
    (\<forall>path. path \<noteq> report_path (startTime world) (mode options) \<longrightarrow> left_files fin path = fs path) \<and>
    (if mkdirFault world = None \<and> writeFault world = None
     then exit_code fin = 0 \<and> stderr fin = [] \<and>
       left_files fin (report_path (startTime world) (mode options)) =
         Some (buildHTMLReport (startTime world) options summaries fairs) \<and>
       (\<forall>directory. workingDirectory world = Inr directory \<longrightarrow>
         (\<exists>link. rest = ''\<newline>Saved report to '' @ link @ ''\<newline>'' \<and>
           link_target link = Some (Clean (directory @ ''/'' @ report_path (startTime world) (mode options)))))
     else exit_code fin = 1 \<and> stderr fin \<noteq> [])"
proof -
  obtain summaries where summaries: "measure_scenarios (measured world) = Some summaries"
    using measurements_return by blast
  note html = html_report_is_well_formed [OF assms(1), of "startTime world" summaries fairs]
  show ?thesis
  proof (cases "mkdirFault world = None \<and> writeFault world = None")
    case True
    then show ?thesis
      using assms summaries html
      by (auto simp: benchmark_main_def writeReport_def WriteFile_def link_opens_the_file Let_def)
  next
    case False
    then show ?thesis
      using assms summaries html
      by (auto simp: benchmark_main_def writeReport_def WriteFile_def Let_def split: option.split write_fault.split)
  qed
qed

definition sample_world :: benchmark_world where
  "sample_world = \<lparr>quoted = id, variables = Map.empty, modeFlag = None, includeFlag = Some False,
     startTime = benchmark_occurredAt, measured = (\<lambda>k. \<lparr>NsPerOp = 1000, AllocsPerOp = 2, AllocedBytesPerOp = 64\<rparr>),
     maxBuffer = 1000, enqueueClocks = (\<lambda>_. 0), claimClock = (\<lambda>_. 0), workerClock = (\<lambda>_. 0), sinkValue = 0,
     observed = (\<lambda>k l. \<lparr>completed = replicate 204 (''customer-a'', 5, 5), run_startedAt = 1, run_stoppedAt = 9\<rparr>),
     mkdirFault = None, writeFault = None, workingDirectory = Inr ''/home/my repo''\<rparr>"

theorem benchmark_leaves_a_well_formed_report_witness:
  "\<exists>fin report. benchmark_main sample_world Map.empty = Some fin \<and> exit_code fin = 0 \<and>
    left_files fin ''loadtest/reports/scheduler-benchmark-scheduler-20260803-090000.html'' = Some report \<and>
    html_run report (InText []) = InText []"
proof -
  let ?options = "\<lparr>mode = ''scheduler'', includeLargeScenario = False\<rparr>"
  have world: "quoted sample_world = id" "variables sample_world = Map.empty" "modeFlag sample_world = None"
    "includeFlag sample_world = Some False" "startTime sample_world = benchmark_occurredAt"
    by (simp_all add: sample_world_def)
  have "TrimSpace [] = []" "ToLower (TrimSpace ''scheduler'') = ''scheduler''" by code_simp+
  then have parsed: "parseBenchmarkOptions (quoted sample_world) (variables sample_world) (modeFlag sample_world)
      (includeFlag sample_world) = Inr ?options"
    unfolding world by (simp add: parseBenchmarkOptions_def benchmarkModeScheduler_def Let_def)
  have "\<exists>fairs. fairness_runs sample_world ?options = Some (Inr fairs)"
    by (rule fairness_runs_return)
      (simp_all add: benchmarkModeScheduler_def fairnessScenarioDefinitions_def four_customers_def sample_world_def)
  then obtain fairs where fairs: "fairness_runs sample_world ?options = Some (Inr fairs)" by blast
  have path: "report_path (startTime sample_world) (mode ?options) =
      ''loadtest/reports/scheduler-benchmark-scheduler-20260803-090000.html''"
    unfolding world by code_simp
  show ?thesis
    using benchmark_leaves_a_well_formed_report [OF parsed fairs, of Map.empty] unfolding path
    by (auto simp: sample_world_def)
qed

end
