(* ===== verification/Services.thy ===== *)
theory Services
  imports Lifecycle Runtime_Example MockReceiver_Correct MockGenerator
begin

text \<open>
  The three services as programs: the servers that dispatch a request to its handler
  (\<open>internal/mockreceiver/app.go\<close>, \<open>internal/notifier/router.go\<close>, \<open>internal/mockgenerator/app.go\<close>), the
  loops of the notifier's poller and metrics reporter (\<open>internal/notifier/poller.go\<close>, \<open>metrics.go\<close>) and
  the \<open>main\<close> functions (\<open>cmd/notifier\<close>, \<open>cmd/mock-webhook-receiver\<close>, \<open>cmd/mock-event-generator\<close>).
  The path of a request is the list of its segments, decoded, as \<open>http.ServeMux\<close> compares them; what
  the JSON decoder makes of a body is a function of the environment.
\<close>

record server_request =
  request_method :: string
  request_path :: "string list"
  request_body :: string

section \<open>The mock receiver's server\<close>

text \<open>A wildcard matches any one segment that is not empty; the matched segments are the path values.\<close>

datatype path_segment = Literal string | Wildcard

fun match_segments :: "path_segment list \<Rightarrow> string list \<Rightarrow> string list option" where
  "match_segments [] [] = Some []"
| "match_segments (Literal s # ps) (t # ts) = (if s = t then match_segments ps ts else None)"
| "match_segments (Wildcard # ps) (t # ts) = (if t = [] then None else map_option ((#) t) (match_segments ps ts))"
| "match_segments _ _ = None"

definition serve_patterns :: "((string \<times> path_segment list) \<times> (string list \<Rightarrow> 'r)) list \<Rightarrow> string \<Rightarrow> string list \<Rightarrow>
    'r routed" where
  "serve_patterns patterns method path =
    (let matching = List.map_filter (\<lambda>((m, p), r). map_option (\<lambda>values. (m, r values)) (match_segments p path)) patterns
     in case find (\<lambda>(m, r). method_matches m method) matching of
          Some (_, r) \<Rightarrow> Routed r
        | None \<Rightarrow> if matching = [] then PathNotFound else MethodNotAllowed)"

datatype receiver_route = WebhookRoute string | ConfigRoute string | ReceiverStatsRoute | CustomerStatsRoute string
  | ResetRoute | ReceiverHealthRoute

definition recv_router :: "string \<Rightarrow> string list \<Rightarrow> receiver_route routed" where
  "recv_router = serve_patterns
    [((''POST'', [Literal ''webhook'', Wildcard]), \<lambda>values. WebhookRoute (hd values)),
     ((''POST'', [Literal ''config'', Wildcard]), \<lambda>values. ConfigRoute (hd values)),
     ((''GET'', [Literal ''stats'']), \<lambda>_. ReceiverStatsRoute),
     ((''GET'', [Literal ''stats'', Literal ''customer'', Wildcard]), \<lambda>values. CustomerStatsRoute (hd values)),
     ((''POST'', [Literal ''stats'', Literal ''reset'']), \<lambda>_. ResetRoute),
     ((''GET'', [Literal ''health'']), \<lambda>_. ReceiverHealthRoute)]"

record receiver_env =
  random_float :: "nat \<Rightarrow> rat"
  request_instants :: "nat \<Rightarrow> time"
  customer_order :: "string list"
  decode_event :: "string \<Rightarrow> go_error + SubscriberEvent"
  decode_scenario :: "string \<Rightarrow> go_error + Scenario"

definition decodeSubscriberEvent :: "(string \<Rightarrow> go_error + SubscriberEvent) \<Rightarrow> server_request \<Rightarrow> go_error + SubscriberEvent" where
  "decodeSubscriberEvent decode req =
    (case decode (request_body req) of
       Inl decodeError \<Rightarrow> Inl decodeError
     | Inr subscriberEvent \<Rightarrow> Inr subscriberEvent)"

definition routed_reply :: "'p reply \<times> 's \<Rightarrow> 'p reply routed \<times> 's" where
  "routed_reply = map_prod Routed id"

definition recv_serve :: "receiver_env \<Rightarrow> server_request \<Rightarrow> receiver \<Rightarrow> receiver_payload reply routed \<times> receiver" where
  "recv_serve env req app =
    (case recv_router (request_method req) (request_path req) of
       PathNotFound \<Rightarrow> (PathNotFound, app)
     | MethodNotAllowed \<Rightarrow> (MethodNotAllowed, app)
     | Routed route \<Rightarrow> routed_reply (case route of
           WebhookRoute customerID \<Rightarrow>
             handleWebhook (random_float env) (request_instants env) customerID (decodeSubscriberEvent (decode_event env) req) app
         | ConfigRoute customerID \<Rightarrow> handleScenarioConfig customerID (decode_scenario env (request_body req)) app
         | ReceiverStatsRoute \<Rightarrow> recv_handleStats (customer_order env) app
         | CustomerStatsRoute customerID \<Rightarrow> handleCustomerStats customerID app
         | ResetRoute \<Rightarrow> handleResetStats app
         | ReceiverHealthRoute \<Rightarrow> (recv_handleHealth, app)))"

text \<open>The receiver after a sequence of requests, each served in an environment of its own.\<close>

definition recv_requests :: "(receiver_env \<times> server_request) list \<Rightarrow> receiver \<Rightarrow> receiver" where
  "recv_requests = fold (\<lambda>(env, req) app. snd (recv_serve env req app))"

section \<open>The notifier's server\<close>

record notifier_env =
  notifier_clock :: "nat \<Rightarrow> time"
  decode_one :: "string \<Rightarrow> go_error + SubscriberEvent"
  decode_batch :: "string \<Rightarrow> go_error + SubscriberEvent list"
  exposition :: "NotifierMetrics \<Rightarrow> notifier_payload reply"

definition path_text :: "string list \<Rightarrow> string" where
  "path_text segments = concat (map (\<lambda>s. ''/'' @ s) segments)"

text \<open>The handler of \<open>newHTTPServer\<close>; the text of \<open>/metrics\<close> is that of the Prometheus library.\<close>

definition newHTTPServer :: "notifier_env \<Rightarrow> server_request \<Rightarrow> 'q Application \<times> 'q \<Rightarrow>
    notifier_payload reply routed \<times> 'q Application \<times> 'q" where
  "newHTTPServer env req state =
    (case state of (app, q) \<Rightarrow>
     case newRouter (request_method req) (path_text (request_path req)) of
       PathNotFound \<Rightarrow> (PathNotFound, state)
     | MethodNotAllowed \<Rightarrow> (MethodNotAllowed, state)
     | Routed route \<Rightarrow> routed_reply (case route of
           HealthRoute \<Rightarrow> (handleHealth, state)
         | MetricsRoute \<Rightarrow> (exposition env (notifierMetrics app), state)
         | StatsRoute \<Rightarrow> (handleStats app, state)
         | RegistrationsRoute \<Rightarrow> (handleRegistrations app, state)
         | DeadLettersRoute \<Rightarrow> (handleDeadLetters app q, state)
         | EventRoute \<Rightarrow> handleSingleEvent (notifier_clock env) (decode_one env (request_body req)) app q
         | BatchRoute \<Rightarrow> handleBatchEvents (notifier_clock env) (decode_batch env (request_body req)) app q))"

section \<open>The generator's server\<close>

text \<open>The decoder yields the value of a body and what it finds after it; \<open>None\<close> is a panic of the handler.\<close>

record generator_env =
  random_int :: "nat \<Rightarrow> go_int \<Rightarrow> go_int"
  largest_slice :: go_int
  notifier_answers :: publish_env
  decode_generate :: "string \<Rightarrow> (go_error + GenerateRequest) \<times> go_error option"
  decode_bulk :: "string \<Rightarrow> (go_error + BulkGenerateRequest) \<times> go_error option"

definition gen_serve :: "generator_env \<Rightarrow> server_request \<Rightarrow> generator \<Rightarrow> generator_payload reply option routed \<times> generator" where
  "gen_serve env req app =
    (case gen_router (request_method req) (path_text (request_path req)) of
       PathNotFound \<Rightarrow> (PathNotFound, app)
     | MethodNotAllowed \<Rightarrow> (MethodNotAllowed, app)
     | Routed route \<Rightarrow> map_prod Routed id (case route of
           GenerateRoute \<Rightarrow>
             (case decode_generate env (request_body req) of (decoded, trailing) \<Rightarrow>
                handleGenerate (random_int env) (largest_slice env) (notifier_answers env) decoded trailing app)
         | BulkRoute \<Rightarrow>
             (case decode_bulk env (request_body req) of (decoded, trailing) \<Rightarrow>
                handleGenerateBulk (random_int env) (largest_slice env) (notifier_answers env) decoded trailing app)
         | WhaleRoute \<Rightarrow> map_prod Some id (handleWhaleScenario (random_int env) (notifier_answers env) app)
         | MixedRoute \<Rightarrow> handleMixedScenario (random_int env) (largest_slice env) (notifier_answers env) app
         | GeneratorHealthRoute \<Rightarrow> (Some gen_handleHealth, app)))"

section \<open>The loops of the notifier\<close>

text \<open>
  \<open>time.NewTicker\<close> panics for an interval that is not positive. A loop is followed for a finite number
  of rounds: it has returned by then, or it waits for the next tick. What the other goroutines do
  between two calls of the loop is the function \<open>meanwhile\<close> of the round; \<open>done_seen\<close> tells which case
  of the \<open>select\<close> is taken.
\<close>

datatype loop_end = LoopPanics | LoopReturns "go_error option" | LoopWaits

record 'q loop_round =
  round_context :: go_context
  round_now :: time
  meanwhile :: "'q Application \<times> 'q \<Rightarrow> 'q Application \<times> 'q"
  done_seen :: bool

fun poll_rounds :: "string \<Rightarrow> 'q loop_round list \<Rightarrow> 'q Application \<times> 'q \<Rightarrow> loop_end \<times> 'q Application \<times> 'q" where
  "poll_rounds claimOwner [] state = (LoopWaits, state)"
| "poll_rounds claimOwner (r # rs) (app, q) =
    (case claimAndSchedule (round_context r) claimOwner (round_now r) app q of
       (Some queueError, state) \<Rightarrow> (LoopReturns (Some queueError), state)
     | (None, state) \<Rightarrow>
        if done_seen r then (LoopReturns None, meanwhile r state) else poll_rounds claimOwner rs (meanwhile r state))"

definition UnixNano :: "time \<Rightarrow> go_int" where
  "UnixNano t = wrap64 (t - unix_nano 0)"

definition runQueuePoller :: "time \<Rightarrow> 'q loop_round list \<Rightarrow> 'q Application \<times> 'q \<Rightarrow> loop_end \<times> 'q Application \<times> 'q" where
  "runQueuePoller startedAt rounds state =
    (case state of (app, q) \<Rightarrow>
     let claimOwner = ''notifier-'' @ Itoa (UnixNano startedAt);
         started = (log_entry LevelInfo ''starting postgres work queue poller'' app, q)
     in if QueuePollInterval (config app) \<le> 0 then (LoopPanics, started) else poll_rounds claimOwner rounds started)"

text \<open>A round of the reporter begins with the \<open>select\<close>: only a tick reports.\<close>

fun report_rounds :: "'q loop_round list \<Rightarrow> 'q Application \<times> 'q \<Rightarrow> loop_end \<times> 'q Application \<times> 'q" where
  "report_rounds [] state = (LoopWaits, state)"
| "report_rounds (r # rs) state =
    (case meanwhile r state of (app, q) \<Rightarrow>
       if done_seen r then (LoopReturns None, app, q)
       else report_rounds rs (report_metrics (round_context r) (round_now r) app q, q))"

definition startMetricsReporter :: "'q loop_round list \<Rightarrow> 'q Application \<times> 'q \<Rightarrow> loop_end \<times> 'q Application \<times> 'q" where
  "startMetricsReporter rounds state =
    (if MetricsReportInterval (config (fst state)) \<le> 0 then (LoopPanics, state) else report_rounds rounds state)"

section \<open>The main functions\<close>

text \<open>
  What the process of the notifier is given: its environment, what connecting to the database
  yields, and the queue other instances share with it. \<open>notifier_main\<close> relates it to the ways its
  process can end; a process that runs on or hangs has none. The panic of a ticker, in the goroutine
  that makes it, ends the process.
\<close>

record 'q notifier_world =
  float_fraction :: "nat \<Rightarrow> nat \<Rightarrow> nat \<Rightarrow> nat"
  process_env :: environment
  connect_registry :: "string \<Rightarrow> string \<Rightarrow> string \<Rightarrow> go_error + (Registry \<times> go_error option)"
  connect_queue :: "string \<Rightarrow> go_error + ('q Repository \<times> go_error option)"
  largest_buffer :: go_int
  make_client :: "duration \<Rightarrow> deliveryClient"
  queue_calls :: "'q Repository set"
  initial_queue :: 'q

definition build_notifier :: "'q notifier_world \<Rightarrow> NotifierConfig \<Rightarrow> go_error + 'q Application" where
  "build_notifier w = NewApplication (connect_registry w) (connect_queue w) (NewRoundRobinScheduler (largest_buffer w)) (make_client w)"

inductive notifier_main :: "'q notifier_world \<Rightarrow> main_end \<Rightarrow> bool" for w where
  config_fails: "LoadNotifierConfig (float_fraction w) (process_env w) = Inl configurationError \<Longrightarrow>
    notifier_main w (fatal ''load notifier config'' configurationError)"
| build_panics: "LoadNotifierConfig (float_fraction w) (process_env w) = Inr notifierConfig \<Longrightarrow>
    build_notifier w notifierConfig = Inl (Err ''panic: makechan: size out of range'') \<Longrightarrow>
    notifier_main w (Panicked ''makechan: size out of range'')"
| build_fails: "LoadNotifierConfig (float_fraction w) (process_env w) = Inr notifierConfig \<Longrightarrow>
    build_notifier w notifierConfig = Inl applicationError \<Longrightarrow> applicationError \<noteq> Err ''panic: makechan: size out of range'' \<Longrightarrow>
    notifier_main w (fatal ''initialize notifier'' applicationError)"
| run_ends: "LoadNotifierConfig (float_fraction w) (process_env w) = Inr notifierConfig \<Longrightarrow>
    build_notifier w notifierConfig = Inr app \<Longrightarrow>
    process_steps (queue_calls w) (start_process app (initial_queue w)) p \<Longrightarrow> main_pc p = Ended ending \<Longrightarrow>
    notifier_main w ending"

definition receiver_main :: "(nat \<Rightarrow> nat \<Rightarrow> nat \<Rightarrow> nat) \<Rightarrow> environment \<Rightarrow> go_error option \<Rightarrow> go_error option option \<Rightarrow> main_end" where
  "receiver_main fraction env shutdownError listened =
    (case LoadMockReceiverConfig fraction env of
       Inl configurationError \<Rightarrow> fatal ''load receiver config'' configurationError
     | Inr receiverConfig \<Rightarrow> end_of_main ''run receiver'' (fst (mock_Run shutdownError listened)))"

definition generator_main :: "(nat \<Rightarrow> nat \<Rightarrow> nat \<Rightarrow> nat) \<Rightarrow> go_int \<Rightarrow> environment \<Rightarrow> go_error option \<Rightarrow> go_error option option \<Rightarrow>
    main_end" where
  "generator_main fraction now env shutdownError listened =
    (case LoadMockGeneratorConfig fraction now env of
       Inl configurationError \<Rightarrow> fatal ''load generator config'' configurationError
     | Inr generatorConfig \<Rightarrow> end_of_main ''run generator'' (fst (gen_Run shutdownError listened)))"

section \<open>Properties of the receiver's server\<close>

lemmas route_eval = recv_router_def serve_patterns_def List.map_filter_simps method_matches_def Let_def

lemma recv_routes:
  "c \<noteq> [] \<Longrightarrow> recv_router ''POST'' [''webhook'', c] = Routed (WebhookRoute c)"
  "c \<noteq> [] \<Longrightarrow> recv_router ''POST'' [''config'', c] = Routed (ConfigRoute c)"
  by (simp_all add: route_eval)

text \<open>Only a configuration request for a customer is routed to the configuration of that customer.\<close>

lemma config_route:
  assumes "recv_router verb path = Routed (ConfigRoute c)"
  shows "verb = ''POST'' \<and> path = [''config'', c]"
proof -
  consider "path = []" | s where "path = [s]" | s u where "path = [s, u]" | s u v rest where "path = s # u # v # rest"
    by (metis list.exhaust)
  then show ?thesis
  proof cases
    case (4 s u v rest)
    then show ?thesis using assms by (cases rest) (auto simp: route_eval split: if_splits)
  qed (use assms in \<open>auto simp: route_eval split: if_splits\<close>)
qed

lemma allocates_scenarios: "allocates app app' \<Longrightarrow> scenarios app' = scenarios app"
proof -
  assume "allocates app app'"
  then have "app' = app\<lparr>counts_heap := counts_heap app', next_ref := next_ref app'\<rparr>" by (simp add: allocates_def)
  from arg_cong [OF this, of scenarios] show ?thesis by simp
qed

lemma handlers_keep_scenarios:
  "scenarios (snd (handleWebhook float64 clock c decoded app)) = scenarios app"
  "scenarios (snd (recv_handleStats order app)) = scenarios app"
  "scenarios (snd (handleCustomerStats c app)) = scenarios app"
  "scenarios (snd (handleResetStats app)) = scenarios app"
proof -
  show "scenarios (snd (handleWebhook float64 clock c decoded app)) = scenarios app"
    by (simp add: handleWebhook_def resolveStatusCode_def recordCustomerStatistic_effect start_state_def make_map_def Let_def
        split: option.split)
  have "scenarios (snd (clone_all order cloned app)) = scenarios app" for cloned
    using clone_all_allocates [OF surjective_pairing] by (rule allocates_scenarios)
  then show "scenarios (snd (recv_handleStats order app)) = scenarios app"
    by (simp add: recv_handleStats_def snapshotCustomerStatistics_def Let_def split_def)
  show "scenarios (snd (handleCustomerStats c app)) = scenarios app"
    by (simp add: handleCustomerStats_def snapshotCustomerStatistic_def cloneCustomerStatistics_def make_map_def
        split: option.split)
  show "scenarios (snd (handleResetStats app)) = scenarios app" by (simp add: handleResetStats_def)
qed

lemma config_of_another: "c \<noteq> d \<Longrightarrow> scenarios (snd (handleScenarioConfig c decoded app)) d = scenarios app d"
  by (simp add: handleScenarioConfig_def Let_def split: sum.split)

definition configures :: "string \<Rightarrow> server_request \<Rightarrow> bool" where
  "configures c req \<longleftrightarrow> request_method req = ''POST'' \<and> request_path req = [''config'', c]"

lemma recv_serve_scenarios:
  assumes "\<not> configures c req"
  shows "scenarios (snd (recv_serve env req app)) c = scenarios app c"
proof (cases "recv_router (request_method req) (request_path req)")
  case (Routed route)
  show ?thesis
  proof (cases route)
    case (ConfigRoute d)
    then have "d \<noteq> c" using config_route Routed assms by (auto simp: configures_def)
    then show ?thesis using Routed ConfigRoute by (simp add: recv_serve_def routed_reply_def config_of_another)
  qed (use Routed in \<open>simp_all add: recv_serve_def routed_reply_def handlers_keep_scenarios\<close>)
qed (simp_all add: recv_serve_def)

lemma recv_requests_scenarios:
  "list_all (\<lambda>(env, req). \<not> configures c req) requests \<Longrightarrow> scenarios (recv_requests requests app) c = scenarios app c"
  by (induction requests arbitrary: app) (auto simp: recv_requests_def recv_serve_scenarios)

text \<open>
  C38. A scenario stays in effect. Once a scenario has been configured for a customer by a request to
  \<open>/config/{customerId}\<close>, every webhook of that customer is answered with the status of its mode (an
  empty mode meaning success), whatever other requests the receiver has served in between, as long as
  none of them configures the customer again.
\<close>

theorem scenario_stays_in_effect:
  assumes "TrimSpace c \<noteq> []" and "decode_scenario env body = Inr sc"
    and "list_all (\<lambda>(env, req). \<not> configures c req) requests"
    and "app2 = recv_requests requests
      (snd (recv_serve env \<lparr>request_method = ''POST'', request_path = [''config'', c], request_body = body\<rparr> app))"
  shows "\<exists>answer. fst (recv_serve env2 \<lparr>request_method = ''POST'', request_path = [''webhook'', c], request_body = payload\<rparr> app2) =
      Routed answer \<and>
    reply_code answer = scenario_code (random_float env2 (draws app2)) sc"
proof -
  have "TrimSpace [] = []" by code_simp
  then have c: "c \<noteq> []" using assms(1) by auto
  obtain answer app1 where config: "handleScenarioConfig c (Inr sc) app = (answer, app1)" by fastforce
  note took = scenario_takes_effect [OF assms(1) config]
  have "lookupScenario app2 c = lookupScenario app1 c"
    using assms(2,4) config recv_requests_scenarios [OF assms(3)]
    by (simp add: recv_serve_def recv_routes c routed_reply_def lookupScenario_def)
  then show ?thesis
    by (simp add: recv_serve_def recv_routes c routed_reply_def webhook_reply_code assms(1) took(2) scenario_mode_default)
qed

definition failing_env :: receiver_env where
  "failing_env = \<lparr>random_float = (\<lambda>_. 0), request_instants = (\<lambda>_. 0), customer_order = [], decode_event = (\<lambda>_. Inl Canceled),
     decode_scenario = (\<lambda>_. Inr \<lparr>Mode = '' Timeout'', DelayMilliseconds = 0, FailureProbability = 0\<rparr>)\<rparr>"

theorem scenario_stays_in_effect_witness:
  "\<exists>answer. fst (recv_serve failing_env \<lparr>request_method = ''POST'', request_path = [''webhook'', ''acme''], request_body = ''{}''\<rparr>
      (recv_requests [(failing_env, \<lparr>request_method = ''POST'', request_path = [''stats'', ''reset''], request_body = []\<rparr>),
          (failing_env, \<lparr>request_method = ''POST'', request_path = [''config'', ''other''], request_body = []\<rparr>)]
        (snd (recv_serve failing_env \<lparr>request_method = ''POST'', request_path = [''config'', ''acme''], request_body = []\<rparr>
          recv_NewApplication)))) = Routed answer \<and> reply_code answer = 504"
proof -
  have "ToLower (TrimSpace '' Timeout'') = ''timeout''" by code_simp
  then have "scenario_code r \<lparr>Mode = '' Timeout'', DelayMilliseconds = 0, FailureProbability = 0\<rparr> = 504" for r
    by (simp add: scenario_code_def)
  then show ?thesis
    using scenario_stays_in_effect [OF _ _ _ refl, of "''acme''" failing_env "[]"
        "\<lparr>Mode = '' Timeout'', DelayMilliseconds = 0, FailureProbability = 0\<rparr>"
        "[(failing_env, \<lparr>request_method = ''POST'', request_path = [''stats'', ''reset''], request_body = []\<rparr>),
          (failing_env, \<lparr>request_method = ''POST'', request_path = [''config'', ''other''], request_body = []\<rparr>)]"
        failing_env "''{}''" recv_NewApplication] trim_acme
    by (simp add: failing_env_def configures_def)
qed

section \<open>Properties of the notifier's server and loops\<close>

text \<open>Only the two ingest requests change anything.\<close>

lemma notifier_server_reads_only:
  assumes "request_method req \<noteq> ''POST''"
  shows "snd (newHTTPServer env req state) = state"
proof (cases "newRouter (request_method req) (path_text (request_path req))")
  case (Routed route)
  then have "route \<noteq> EventRoute \<and> route \<noteq> BatchRoute"
    using assms by (auto simp: newRouter_def serve_mux_def method_matches_def split: if_splits)
  then show ?thesis
    using Routed by (cases state; cases route) (simp_all add: newHTTPServer_def routed_reply_def)
qed (simp_all add: newHTTPServer_def split: prod.split)

text \<open>The poller ends without an error only when it has seen the end of its context.\<close>

lemma poller_ends_when_done:
  "fst (runQueuePoller startedAt rounds state) = LoopReturns None \<Longrightarrow> \<exists>r \<in> set rounds. done_seen r"
proof -
  have "fst (poll_rounds owner rounds s) = LoopReturns None \<Longrightarrow> \<exists>r \<in> set rounds. done_seen r" for owner s
    by (induction owner rounds s rule: poll_rounds.induct) (auto split: prod.splits option.splits if_splits)
  then show "fst (runQueuePoller startedAt rounds state) = LoopReturns None \<Longrightarrow> \<exists>r \<in> set rounds. done_seen r"
    by (auto simp: runQueuePoller_def Let_def split: prod.splits if_splits)
qed

lemma reporter_never_fails:
  "fst (startMetricsReporter rounds state) \<noteq> LoopReturns (Some e)"
proof -
  have "fst (report_rounds rounds s) \<noteq> LoopReturns (Some e)" for s
    by (induction rounds s rule: report_rounds.induct) (simp_all split: prod.split)
  then show ?thesis by (simp add: startMetricsReporter_def)
qed

section \<open>How the programs end\<close>

text \<open>
  C13. When a shutdown of the notifier ends. In any run of the process, with any interleaving of its
  goroutines, from the moment the main goroutine has called \<open>shutdown\<close>: the process can end exactly when
  every worker had called \<open>Done\<close> before that call. Otherwise it never ends, in no continuation, for
  \<open>shutdown\<close> has a copy of the wait group that no worker reaches, although after the end of the
  context there is a continuation in which all workers have stopped and called \<open>Done\<close>, the group is at
  zero, and the main goroutine waits.
\<close>

theorem shutdown_waits_on_a_copy:
  assumes "process_steps repos (start_process app q0) p"
    and "0 < QueuePollInterval (config app)" and "0 < MetricsReportInterval (config app)"
    and "main_pc p = CallingShutdown" and "process_step repos p called" and "main_pc called \<noteq> CallingShutdown"
  shows "((\<exists>p' ending. process_steps repos called p' \<and> main_pc p' = Ended ending) \<longleftrightarrow>
      done_calls p = length (workers (node p))) \<and>
    (context_done (node p) \<and> repos \<noteq> {} \<longrightarrow> (\<exists>p' a. process_steps repos called p' \<and>
      main_pc p' = Waiting a None None None \<and> done_calls p' = length (workers (node p')) \<and> wait_groups p' ! 0 = 0))"
proof -
  have inv: "groups_inv p" by (rule groups_inv_steps [OF assms(1) groups_inv_start])
  have config: "config (application (node p)) = config app"
    using config_steps [OF assms(1)] by (simp add: start_process_def start_instance_def)
  note call = call_of_shutdown [OF assms(5,4,6) _ _ inv, unfolded config, OF assms(2,3)]
  have counter: "wait_groups p ! 0 + done_calls p = length (workers (node p))" using inv by (simp add: groups_inv_def)
  have "\<exists>p'. process_steps repos called p' \<and> main_pc p' = Ended (Exited 0 [])" if "done_calls p = length (workers (node p))"
  proof -
    obtain p1 where "process_steps repos called p1" "main_pc p1 = Waiting 1 None None None" "wait_groups p1 = wait_groups called"
      using shutdown_reaches_Wait [of called 1] call by auto
    then show ?thesis using Wait_returns [of p1 1] call counter that by (auto intro: rtranclp_trans)
  qed
  moreover have "\<not> (process_steps repos called p' \<and> main_pc p' = Ended ending)"
    if "done_calls p \<noteq> length (workers (node p))" for p' ending
  proof -
    have "waits_for_ever called" using call counter that config assms(2,3) by (auto simp: waits_for_ever_def)
    then show ?thesis using waits_steps [of repos called p'] by (auto simp: waits_for_ever_def)
  qed
  moreover have "\<exists>p' a. process_steps repos called p' \<and> main_pc p' = Waiting a None None None \<and>
      done_calls p' = length (workers (node p')) \<and> wait_groups p' ! 0 = 0"
    if "context_done (node p)" and "repo \<in> repos" for repo
    using shutdown_comes_to_Wait [of called 1 repo repos] call that groups_inv_step [OF assms(5) inv] by auto
  ultimately show ?thesis by blast
qed

text \<open>A process that is asked to end while its only worker is idle: the main goroutine is the first to react.\<close>

definition cancelled_process :: "queue_db process" where
  "cancelled_process = (start_process sample_app two_rows)
    \<lparr>node := (set_scheduler (Close sample_scheduler) ((start_instance sample_app)\<lparr>context_done := True\<rparr>)),
     main_pc := CallingShutdown, released := [ReleaseScheduler]\<rparr>"

lemma cancelled_process_run: "process_steps {sample_repo} (start_process sample_app two_rows) cancelled_process"
proof -
  let ?p0 = "start_process sample_app two_rows"
  let ?p1 = "?p0\<lparr>node := (start_instance sample_app)\<lparr>context_done := True\<rparr>\<rparr>"
  let ?p2 = "?p1\<lparr>main_pc := Closing None\<rparr>"
  have "step {} {sample_repo} Cancel (system_of ?p0) ((system_of ?p0)\<lparr>instances := [(start_instance sample_app)\<lparr>context_done := True\<rparr>]\<rparr>)"
    using step_cancel [of 0 "system_of ?p0" "{}" "{sample_repo}"] by (simp add: system_of_def start_process_def)
  from own_step [OF _ this] have "process_step {sample_repo} ?p0 ?p1"
    by (simp add: alive_def start_process_def with_system_def system_of_def start_instance_def)
  moreover have "process_step {sample_repo} ?p1 ?p2"
    using select_context [of ?p1] by (simp add: start_process_def waitForRuntimeCompletion_def)
  moreover have "process_step {sample_repo} ?p2 cancelled_process"
    using close_scheduler [of ?p2 None "{sample_repo}"]
    by (simp add: cancelled_process_def start_process_def start_instance_def sample_app_def set_scheduler_def)
  ultimately show ?thesis by (meson converse_rtranclp_into_rtranclp rtranclp.rtrancl_refl)
qed

theorem shutdown_waits_on_a_copy_witness:
  "\<exists>called. process_step {sample_repo} cancelled_process called \<and>
    (\<nexists>p' ending. process_steps {sample_repo} called p' \<and> main_pc p' = Ended ending) \<and>
    (\<exists>p' a. process_steps {sample_repo} called p' \<and> main_pc p' = Waiting a None None None \<and>
      done_calls p' = length (workers (node p')) \<and> wait_groups p' ! 0 = 0)"
proof -
  have pc: "main_pc cancelled_process = CallingShutdown" by (simp add: cancelled_process_def)
  have state: "done_calls cancelled_process \<noteq> length (workers (node cancelled_process))" "context_done (node cancelled_process)"
    by (simp_all add: cancelled_process_def start_process_def start_sample_app set_scheduler_def)
  have "0 < QueuePollInterval (config sample_app)" "0 < MetricsReportInterval (config sample_app)"
    by (simp_all add: sample_app_def sample_config_def)
  from shutdown_waits_on_a_copy [OF cancelled_process_run this pc call_shutdown [OF pc]] state
  show ?thesis using call_shutdown [OF pc, of "{sample_repo}"] by auto
qed

text \<open>
  The exit code of the notifier: it can be 0 only when the configuration is complete, the connections
  open, and the main goroutine has come through \<open>Run\<close>; a poll or metrics interval that is not positive
  can end it with a panic.
\<close>

lemma notifier_exit_codes:
  "notifier_main w (Exited 0 message) \<Longrightarrow>
    \<exists>cfg app p. LoadNotifierConfig (float_fraction w) (process_env w) = Inr cfg \<and> build_notifier w cfg = Inr app \<and>
      process_steps (queue_calls w) (start_process app (initial_queue w)) p \<and> main_pc p = Ended (Exited 0 message)"
  "LoadNotifierConfig (float_fraction w) (process_env w) = Inr cfg \<Longrightarrow> build_notifier w cfg = Inr app \<Longrightarrow>
    QueuePollInterval cfg \<le> 0 \<or> MetricsReportInterval cfg \<le> 0 \<Longrightarrow>
    notifier_main w (Panicked ''non-positive interval for NewTicker'')"
proof -
  show "notifier_main w (Exited 0 message) \<Longrightarrow>
      \<exists>cfg app p. LoadNotifierConfig (float_fraction w) (process_env w) = Inr cfg \<and> build_notifier w cfg = Inr app \<and>
        process_steps (queue_calls w) (start_process app (initial_queue w)) p \<and> main_pc p = Ended (Exited 0 message)"
    by (erule notifier_main.cases) (auto simp: fatal_def)
  assume cfg: "LoadNotifierConfig (float_fraction w) (process_env w) = Inr cfg" and app: "build_notifier w cfg = Inr app"
    and interval: "QueuePollInterval cfg \<le> 0 \<or> MetricsReportInterval cfg \<le> 0"
  have "config app = cfg" using app by (auto simp: build_notifier_def NewApplication_def bind_result_Inr_iff split: option.splits)
  then have "process_step (queue_calls w) (start_process app (initial_queue w)) ((start_process app (initial_queue w))
      \<lparr>main_pc := Ended (Panicked ''non-positive interval for NewTicker'')\<rparr>)"
    using interval by (intro ticker_panics) (simp_all add: alive_def start_process_def start_instance_def)
  from run_ends [OF cfg app r_into_rtranclp [of "process_step (queue_calls w)", OF this]]
  show "notifier_main w (Panicked ''non-positive interval for NewTicker'')" by simp
qed

text \<open>The mocks always end, with code 0 exactly when nothing failed.\<close>

lemma how_the_mocks_end:
  "(receiver_main fraction env shutdownError listened = Exited 0 message \<longleftrightarrow> message = [] \<and>
     (\<exists>cfg. LoadMockReceiverConfig fraction env = Inr cfg) \<and> fst (mock_Run shutdownError listened) = None)"
  "(generator_main fraction now env shutdownError listened = Exited 0 message \<longleftrightarrow> message = [] \<and>
     (\<exists>cfg. LoadMockGeneratorConfig fraction now env = Inr cfg) \<and> fst (gen_Run shutdownError listened) = None)"
  by (auto simp: receiver_main_def generator_main_def fatal_def end_of_main_def split: sum.split option.split)

end
