(* ===== verification/TestSupport.thy ===== *)
theory TestSupport
  imports Config
begin

text \<open>
  The PostgreSQL container of the integration tests (\<open>internal/testsupport/postgres_container.go\<close>). The
  container library is an argument: what starting a container returns, its connection string and
  what terminating it returns. The state is the number of containers running. \<open>t.Fatalf\<close> ends the
  test; the k-th reading of the clock is \<open>clock k\<close>, the k-th ping \<open>ping k\<close>.
\<close>

datatype 'a test_end = TestFatal string | TestReturned 'a

record test_container =
  ConnectionString :: "go_error + string"
  Terminate :: "go_error option"

definition terminateContainer :: "test_container \<Rightarrow> nat \<Rightarrow> unit test_end \<times> nat" where
  "terminateContainer container running =
    (case Terminate container of
       Some terminateError \<Rightarrow> (TestFatal (''terminate postgres test container: '' @ error_text terminateError), running)
     | None \<Rightarrow> (TestReturned (), running - 1))"

text \<open>The loop of \<open>waitForPostgresReady\<close>; a value \<open>None\<close> would be a loop that never ends.\<close>

abbreviation ready_timeout :: string where
  "ready_timeout \<equiv> ''timed out waiting for postgres test container to accept connections''"

partial_function (option) ready_loop :: "(nat \<Rightarrow> time) \<Rightarrow> (nat \<Rightarrow> go_error option) \<Rightarrow> time \<Rightarrow> nat \<Rightarrow> unit test_end option" where
  "ready_loop clock ping deadline k =
    (if clock k < deadline
     then if ping k = None then Some (TestReturned ()) else ready_loop clock ping deadline (Suc k)
     else Some (TestFatal ready_timeout))"

definition waitForPostgresReady :: "go_error option \<Rightarrow> (nat \<Rightarrow> time) \<Rightarrow> (nat \<Rightarrow> go_error option) \<Rightarrow> unit test_end option" where
  "waitForPostgresReady openError clock ping =
    (case openError of
       Some e \<Rightarrow> Some (TestFatal (''open postgres test container connection: '' @ error_text e))
     | None \<Rightarrow> ready_loop clock ping (time_Add (clock 0) (30 * Second)) 1)"

text \<open>The data source name and the cleanup function, which takes the number of running containers.\<close>

definition PostgresDSN :: "environment \<Rightarrow> go_error + test_container \<Rightarrow> go_error option \<Rightarrow> (nat \<Rightarrow> time) \<Rightarrow>
    (nat \<Rightarrow> go_error option) \<Rightarrow> nat \<Rightarrow> ((string \<times> (nat \<Rightarrow> unit test_end \<times> nat)) test_end \<times> nat) option" where
  "PostgresDSN env started openError clock ping running =
    (let configured = TrimSpace (case env ''TEST_POSTGRES_DSN'' of None \<Rightarrow> [] | Some s \<Rightarrow> s)
     in if configured \<noteq> [] then Some (TestReturned (configured, \<lambda>n. (TestReturned (), n)), running)
        else case started of
          Inl startError \<Rightarrow> Some (TestFatal (''start postgres test container: '' @ error_text startError), running)
        | Inr container \<Rightarrow>
            (case ConnectionString container of
               Inl connectionStringError \<Rightarrow>
                 (case terminateContainer container (running + 1) of
                    (TestFatal message, left) \<Rightarrow> Some (TestFatal message, left)
                  | (TestReturned _, left) \<Rightarrow>
                      Some (TestFatal (''build postgres test container connection string: '' @
                        error_text connectionStringError), left))
             | Inr postgresDSN \<Rightarrow>
                 (case waitForPostgresReady openError clock ping of
                    None \<Rightarrow> None
                  | Some (TestFatal message) \<Rightarrow> Some (TestFatal message, running + 1)
                  | Some (TestReturned _) \<Rightarrow>
                      Some (TestReturned (postgresDSN, terminateContainer container), running + 1))))"

section \<open>The loop ends\<close>






text \<open>
  A test that gets a database ends with as many containers as it began with once its cleanup has
  succeeded; a container that does not become ready in time is left running.
\<close>

lemma cleanup_restores:
  "PostgresDSN env started openError clock ping running = Some (TestReturned (dsn, cleanup), running') \<Longrightarrow>
    cleanup running' = (TestReturned (), left) \<Longrightarrow> left = running"
  by (auto simp: PostgresDSN_def terminateContainer_def Let_def split: if_splits sum.splits option.splits test_end.splits prod.splits)

lemma unready_container_is_left_running:
  assumes "env ''TEST_POSTGRES_DSN'' = None" and "started = Inr container" and "ConnectionString container = Inr dsn"
    and "waitForPostgresReady openError clock ping = Some (TestFatal message)"
  shows "PostgresDSN env started openError clock ping running = Some (TestFatal message, running + 1)"
proof -
  have "TrimSpace [] = []" by code_simp
  then show ?thesis using assms by (simp add: PostgresDSN_def)
qed

end
