(* ===== verification/Spec2Isabelle.thy ===== *)
theory Spec2Isabelle
  imports Scheduler_Fairness BenchmarkQueue Runtime_Correct Counters Transport MockReceiver_Concurrent Notifier_Ingest Lifecycle
    MockReceiver_Correct MockGenerator_Correct Scheduler_Benchmark_Correct Benchmark_Command Services TestSupport
begin

text \<open>
  \<^bold>\<open>The webhook notifier.\<close> A service that receives subscriber events, queues one delivery per
  registered webhook URL in PostgreSQL, and posts each of them with retries and fair round-robin
  scheduling between customers; a mock receiver and a mock event generator exercise it, and a
  benchmark command measures its fairness. This development models the Go code under
  \<open>internal/\<close> and \<open>cmd/scheduler-benchmark\<close> and proves what makes it correct.

  \<^bold>\<open>How the parts interact.\<close> The HTTP handlers validate events, resolve the URLs of their customers in
  the registry and insert rows into the queue. In every instance of the notifier a poller claims due
  rows and hands their jobs to the scheduler; a dispatcher moves jobs from the scheduler to a channel;
  workers take them, make one HTTP attempt, and mark the row as completed, due again after a backoff
  delay, or dead-lettered. Instances share nothing but the queue.

  \<^bold>\<open>Foundations.\<close>
  \<^item> \<open>Go_Prelude\<close>: integers of 64 bits (\<open>wrap64\<close>), instants, durations, errors, shared lemmas.
  \<^item> \<open>Go_Strings\<close>, \<open>Go_Duration\<close>: the parts of \<open>strings\<close>, \<open>strconv\<close>, \<open>fmt\<close> and \<open>time\<close> the program uses
    (trimming, case, decimal numbers, printing and parsing durations), with round trips.
  \<^item> \<open>Events\<close>: the data of \<open>internal/events\<close>.

  \<^bold>\<open>Scheduler\<close> (\<open>internal/scheduler/round_robin.go\<close>). \<open>Scheduler\<close> has the record, each method, the
  index loop as a terminating function and the structural invariant; \<open>Scheduler_Spec\<close> the locales
  \<open>keyed_fifo\<close> and \<open>round_robin\<close> with the lemmas over all interleavings of enqueues and dequeues;
  \<open>Scheduler_Fairness\<close> interprets them. Shown: no customer is served twice while another waits, a
  customer gets \<open>r\<close> jobs within \<open>r\<close> rounds, per customer the order is kept and nothing is lost, the
  index arithmetic implements a search of the rotated order, \<open>QueueDepth\<close> is exact.

  \<^bold>\<open>Queues.\<close> \<open>Contracts\<close> states the interfaces of the notifier's collaborators, among them the locale
  \<open>work_queue\<close>. \<open>WorkQueue\<close> models \<open>internal/workqueue/postgres.go\<close>: the table is a list of rows, each
  SQL statement an operation on it; faults of any call, rows locked by others, the order in which
  rows are returned and the rounding of timestamps are arguments. \<open>WorkQueue_Laws\<close> discharges the
  contract, \<open>WorkQueue_Correct\<close> has the properties: claims take the earliest due rows and never one
  twice, enqueues are atomic, marks change one row, the columns stay consistent, snapshots are
  faithful. \<open>BenchmarkQueue\<close> does the same for the in-memory queue of
  \<open>internal/notifier/benchmark_support.go\<close>.

  \<^bold>\<open>Small components.\<close> \<open>Registration\<close> (\<open>internal/registration\<close>): URLs are resolved all or not at all, and
  the snapshot agrees. \<open>Delivery\<close> (\<open>internal/delivery\<close>): the request and the classification of every
  attempt. \<open>Transport\<close>: the errors of the standard library's HTTP client, and which of them are
  retried (timeouts and shortages are; a refused or reset connection and an ended context are not).
  \<open>Retry\<close> (\<open>internal/retry\<close>): the
  backoff delay with its wrap-around and the termination of its loop. \<open>Config\<close> (\<open>internal/config\<close>,
  \<open>internal/logging\<close>): defaults survive printing and parsing, loaded numbers are in range. \<open>Httpx\<close>
  (\<open>internal/httpx\<close>): replies and exact routes.

  \<^bold>\<open>Notifier\<close> (\<open>internal/notifier\<close>). \<open>Notifier\<close> has the application record, the handlers, the poller's
  round, the worker's round and the metrics; \<open>Notifier_Correct\<close> the outcome of a round and the
  agreement of the counters after it; \<open>Notifier_Ingest\<close> what a batch leaves in the queue and that a
  worker implements its outcome. \<open>Counters\<close> takes the updates of a round and of an accepted event
  apart and interleaves them: what \<open>/stats\<close> and \<open>/metrics\<close> show agrees up to the rounds under way.
  \<open>Runtime\<close> is the step relation of any number of instances on one queue, with crashes,
  cancellations and faults anywhere; \<open>Runtime_Core\<close>, \<open>Runtime_Laws\<close> (locale \<open>shared_queue\<close>) and
  \<open>Runtime_Safety\<close> (locale \<open>reliable_queue\<close>) prove the invariants for every queue that keeps the laws;
  \<open>Runtime_Postgres\<close> interprets both for the PostgreSQL queue; \<open>Runtime_Example\<close> is a concrete run;
  \<open>Runtime_Correct\<close> has the properties: no attempt is made twice, an item is in one place, finished
  items are final, attempts and scheduled jobs are bounded, nothing is lost without failures, and
  what a crash loses for ever. \<open>Lifecycle\<close> is the process of one notifier as a step relation: its
  instance, the HTTP server, the main goroutine in \<open>Run\<close> and \<open>shutdown\<close>, and the wait groups as cells of
  a store, with a copy for a group that is passed by value.

  \<^bold>\<open>Programs.\<close> \<open>Services\<close> has the three servers as functions from a request to a reply and a new state
  (with the path patterns of the mock receiver), the loops of the poller and of the metrics reporter,
  and the \<open>main\<close> functions under \<open>cmd/\<close>, from the environment to the exit code. Shown: when a
  shutdown of the notifier can end, and that it waits for ever otherwise; reading requests change
  nothing; a configured scenario stays in effect. \<open>TestSupport\<close> is the container of the integration tests
  (\<open>internal/testsupport\<close>); its waiting loop ends.

  \<^bold>\<open>Mocks.\<close> \<open>MockReceiver\<close> and \<open>MockReceiver_Correct\<close> (\<open>internal/mockreceiver\<close>; the count maps are
  references into a heap, so that sharing and cloning are visible), \<open>MockReceiver_Concurrent\<close> (its
  handlers in single steps, so that requests overlap), \<open>MockGenerator\<close> and \<open>MockGenerator_Correct\<close>
  (\<open>internal/mockgenerator\<close>). Shown: what adds up in the statistics while requests overlap and what a
  reset in between destroys, snapshots are isolated, scenarios take effect, generated events are
  unique and valid but for a blank event type. The sections below put the notifier
  and the receiver together, and the generator and the notifier.

  \<^bold>\<open>Benchmark.\<close> \<open>Benchmark_Runner\<close> and \<open>Benchmark_Correct\<close> (\<open>internal/notifier/benchmark_runner.go\<close>),
  \<open>Scheduler_Benchmark\<close> and \<open>Scheduler_Benchmark_Correct\<close> (\<open>cmd/scheduler-benchmark\<close>): the reported
  numbers are those of the completions in any order, the modes agree, and the verdict compares every
  pair of customers. \<open>Benchmark_Report\<close> has
  the throughput benchmark and the console and HTML reports, text by text; \<open>Benchmark_Report_Correct\<close>
  runs a scanner of tags over the HTML and shows that all are closed whatever is reported, and that an
  iteration of the throughput benchmark reads every job; \<open>Benchmark_Command\<close> is \<open>main\<close> with the file and
  the link it leaves.

  \<^bold>\<open>Bounds and loops.\<close> No definition uses fuel. Loops are structural, have a measure
  (\<open>dequeue_from\<close>), or are \<open>partial_function\<close> with \<open>None\<close> for a loop that never ends
  (\<open>next_delay_loop\<close>, \<open>ready_loop\<close>; \<open>NextDelay\<close> returns whenever a retry is allowed). The endless loops of
  goroutines are steps of \<open>Runtime\<close>, and in \<open>Services\<close> they are followed for any number of rounds. Numbers that can overflow are wrapped at 64 bits; counters that
  only grow by one are integers.

  \<^bold>\<open>Arguments of the model.\<close> Instants of \<open>time.Now\<close>, draws of random sources, answers of HTTP calls and
  of the registration queries, database faults, JSON encoding and decoding, the iteration order of
  maps, measurements of \<open>testing.Benchmark\<close>, faults of the file system and the container library are
  arguments. The properties hold for all of them, but for what each states as its hypotheses; those
  about a database without faults say what an ingest leaves in the queue, what the snapshots show,
  that nothing is lost while nothing fails, and that a claimed row is not handed out again by the queue's operations (which the
  properties of \<open>Runtime_Correct\<close> cover for any faults). A
  \<open>float64\<close> is the rational number before rounding.

  \<^bold>\<open>Granularity.\<close> Where a property speaks of states that other goroutines can see, the steps are single
  operations on what they share (\<open>Scheduler_Spec\<close>, \<open>Runtime\<close>, \<open>Counters\<close>, \<open>Lifecycle\<close>,
  \<open>MockReceiver_Concurrent\<close>); \<open>Runtime\<close> says why its larger steps are enough for its properties. The
  servers of \<open>Services\<close> and the requests of \<open>MockReceiver_Correct\<close> are taken one after another.

  \<^bold>\<open>Not modelled.\<close> The text of the log records beyond their level and message, the texts of the
  Prometheus registry (names, help, exposition), and the parsing of command-line flags and the
  redirections of unclean paths by the standard library. Delays a scenario asks the mock receiver for
  only pass time. A claim whose configured batch size is beyond what \<open>make\<close> can allocate panics, which is a
  crash of \<open>Runtime\<close> and not a result of \<open>ClaimAvailableDeliveries\<close>; the sequence of row ids does not end
  at 63 bits. The random sources of the mocks are read as if each draw were atomic.
\<close>

section \<open>The notifier against the mock receiver\<close>

definition mode_of :: "receiver \<Rightarrow> string \<Rightarrow> string" where
  "mode_of recv c = ToLower (TrimSpace (Mode (lookupScenario recv c)))"

text \<open>The outcome the scenario of a customer stands for.\<close>

definition scenario_outcome :: "rat \<Rightarrow> receiver \<Rightarrow> string \<Rightarrow> bool \<Rightarrow> worker_outcome" where
  "scenario_outcome drawn recv c retry_allowed =
    (if mode_of recv c \<in> {''error400'', ''unauthorized''} then Buried
     else if mode_of recv c \<in> {''timeout'', ''error500''} \<or>
         (mode_of recv c = ''random'' \<and> drawn < FailureProbability (lookupScenario recv c))
     then (if retry_allowed then Retried else Buried)
     else Delivered)"

lemma answered_outcome:
  assumes "marshal env (Event job) = Inr body" and "request_fault env (WebhookURL job) = None"
    and "http_do env timeout ctx (delivery_request job body) = Inr \<lparr>resp_StatusCode = code, resp_Body = text\<rparr>"
  shows "outcome_of app (Deliver env (NewHTTPClient timeout) ctx job) =
    (if is_2xx code then Delivered
     else if isRetryableStatusCode code \<and> CanRetry (retryPolicy app) (Attempt job) then Retried else Buried)"
    and "ResultJob (Deliver env (NewHTTPClient timeout) ctx job) = job"
  using assms by (auto simp: outcome_of_def Deliver_def NewHTTPClient_def attempt_result_def Let_def)

text \<open>
  C11. The mock receiver exercises every path of the notifier. When a worker delivers a job to the
  receiver and is answered within its timeout, the scenario configured there for the customer and the
  retry policy decide the outcome: \<open>error400\<close> and
  \<open>unauthorized\<close> bury the delivery at its first attempt; \<open>timeout\<close>, \<open>error500\<close> and a random failure
  are retried as long as the policy allows and buried then; everything else is delivered. The
  worker makes exactly the queue call of that outcome.
\<close>

theorem receiver_scenario_decides_the_outcome:
  assumes "int64 (InitialDelay (retryPolicy app))" and "int64 (MaxRetryAttempt (retryPolicy app))" and "int64 (Attempt job)"
    and "deliver app = Deliver env (NewHTTPClient timeout)"
    and "marshal env (Event job) = Inr body" and "request_fault env (WebhookURL job) = None"
    and "TrimSpace c \<noteq> []"
    and "http_do env timeout ctx (delivery_request job body) =
      Inr \<lparr>resp_StatusCode = reply_code (fst (handleWebhook float64 instants c decoded recv)), resp_Body = text\<rparr>"
  shows "outcome_of app (deliver app ctx job) =
      scenario_outcome (float64 (draws recv)) recv c (CanRetry (retryPolicy app) (Attempt job)) \<and>
    map_option snd (runWorker_job clock ctx job app q) = Some (snd (outcome_mark clock ctx app (deliver app ctx job) q))"
proof
  note result = answered_outcome [OF assms(5,6,8), folded assms(4)]
  show "outcome_of app (deliver app ctx job) =
      scenario_outcome (float64 (draws recv)) recv c (CanRetry (retryPolicy app) (Attempt job))"
    unfolding result(1) webhook_reply_code [OF assms(7)]
    by (auto simp: scenario_outcome_def mode_of_def scenario_code_def isRetryableStatusCode_def Let_def)
  have "policy_int64 app" using assms(1,2) by (simp add: policy_int64_def)
  from runWorker_job_outcome [OF this, of ctx job clock q]
  show "map_option snd (runWorker_job clock ctx job app q) = Some (snd (outcome_mark clock ctx app (deliver app ctx job) q))"
    using assms(3) result(2) by auto
qed

definition rejecting_receiver :: receiver where
  "rejecting_receiver = snd (handleScenarioConfig ''acme'' (Inr \<lparr>Mode = ''error400'', DelayMilliseconds = 0, FailureProbability = 0\<rparr>)
     recv_NewApplication)"

definition receiver_http :: http_env where
  "receiver_http = sample_http\<lparr>http_do := (\<lambda>timeout ctx req. Inr \<lparr>resp_StatusCode =
     reply_code (fst (handleWebhook (\<lambda>_. 0) (\<lambda>_. 0) ''acme'' (Inl Canceled) rejecting_receiver)), resp_Body = []\<rparr>)\<rparr>"

theorem receiver_scenario_decides_the_outcome_witness:
  "outcome_of (sample_app\<lparr>deliver := Deliver receiver_http (NewHTTPClient 5)\<rparr>)
     (Deliver receiver_http (NewHTTPClient 5) None (scan_job first_row)) = Buried"
proof -
  have "mode_of rejecting_receiver ''acme'' = ToLower (TrimSpace ''error400'')"
    by (simp add: mode_of_def rejecting_receiver_def handleScenarioConfig_def trim_acme lookupScenario_def Let_def)
  also have "\<dots> = ''error400''" by code_simp
  finally have mode: "mode_of rejecting_receiver ''acme'' = ''error400''" .
  show ?thesis
    using receiver_scenario_decides_the_outcome [of "sample_app\<lparr>deliver := Deliver receiver_http (NewHTTPClient 5)\<rparr>"
      "scan_job first_row" receiver_http 5 "''{}''" "''acme''" None "\<lambda>_. 0" "\<lambda>_. 0" "Inl Canceled" rejecting_receiver "[]"]
    by (simp add: scenario_outcome_def mode sample_app_def receiver_http_def sample_http_def trim_acme first_row_def new_row_def
        scan_job_def int64_def)
qed

section \<open>The generator against the notifier\<close>

text \<open>The status a client sees for what a server made of its request.\<close>

definition served_code :: "'p reply routed \<Rightarrow> go_int" where
  "served_code served =
    (case served of Routed answer \<Rightarrow> reply_code answer | PathNotFound \<Rightarrow> 404 | MethodNotAllowed \<Rightarrow> 405)"

lemma batch_request_served:
  "newHTTPServer env \<lparr>request_method = ''POST'', request_path = [''events'', ''batch''], request_body = body\<rparr> (app, q) =
    routed_reply (handleBatchEvents (notifier_clock env) (decode_batch env body) app q)"
proof -
  have "newRouter ''POST'' (path_text [''events'', ''batch'']) = Routed BatchRoute"
    by (simp add: newRouter_def serve_mux_def method_matches_def path_text_def)
  then show ?thesis by (simp add: newHTTPServer_def)
qed

lemma accepted_batch:
  assumes "workQueue app = PostgresRepository ts locked returning no_faults now"
    and "list_all (acceptable (registry app)) events"
    and "handleBatchEvents clock (Inr events) app db = (answer, app', db')"
  shows "reply_code answer = 202" and "\<exists>new. rows db' = rows db @ new \<and>
    map row_delivery new = deliveries_of (registry app) events \<and> list_all (\<lambda>r. status r = Pending \<and> retry_count r = 0) new"
proof -
  have all: "takeWhile (acceptable (registry app)) events = events" "dropWhile (acceptable (registry app)) events = []"
    using assms(2) by (simp_all add: list_all_iff)
  obtain m failure where run: "enqueueEvents_from clock 0 0 events app db = ((m, failure), app', db')"
    and answer: "answer = ingest_reply (int (length events)) (m, failure)"
    using assms(3) by (auto simp: handleBatchEvents_def enqueueEvents_def split: prod.splits)
  note queued = enqueueEvents_postgres [OF assms(1) run, unfolded all]
  then show "reply_code answer = 202" by (auto simp: answer ingest_reply_def WriteJSON_def)
  show "\<exists>new. rows db' = rows db @ new \<and>
    map row_delivery new = deliveries_of (registry app) events \<and> list_all (\<lambda>r. status r = Pending \<and> retry_count r = 0) new"
    using queued by auto
qed

lemma rejected_batch:
  assumes "validateEvent ev = Some (Err ''eventType is required'')"
  shows "\<exists>answer. handleBatchEvents clock (Inr (ev # events)) app db = (answer, app, db) \<and> reply_code answer = 400"
  using assms by (simp add: handleBatchEvents_def enqueueEvents_def ingest_reply_def WriteError_def WriteJSON_def)

lemma urls_per_event:
  "length (concat (map (\<lambda>ev. map (\<lambda>url. (EventID ev, c, url)) urls) events)) = length events * length urls"
  by (induction events) simp_all

text \<open>
  C12. Generated events reach the queue. The generator serves a request for at least one event of a
  registered customer, and its publication is served by a notifier on a database without faults,
  which decodes the body to the events it was made of. With an event type that is not blank (an
  empty one is replaced by the default), the notifier answers 202, the generator answers 202 with
  the number of events, and the notifier's queue has grown by exactly one pending row per event and
  registered URL, in order. With an event type of blanks, which the generator accepts, the notifier
  answers 400, the generator 502, and nothing is queued. In both cases the events have ids no earlier
  event of this generator has.
\<close>

theorem generated_events_reach_the_queue:
  assumes "generated intn cfg g earlier" and "int64 (RandomSeed cfg)"
    and "TrimSpace c \<noteq> []" and "1 \<le> n" and "n \<le> max_cap"
    and "et = (if ty = [] then SubscriberCreatedEventType else ty)"
    and "append_events intn c et 0 (nat n) g = (events, g')"
    and "marshal_events out events = Inr body" and "publish_fault out (NotifierBaseURL (gen_config g') @ ''/events/batch'') = None"
    and "decode_batch env body = Inr events"
    and "newHTTPServer env \<lparr>request_method = ''POST'', request_path = [''events'', ''batch''], request_body = body\<rparr> (app, db) =
      (served, app', db')"
    and "\<And>timeout req. req_body req = body \<Longrightarrow>
      publish_do out timeout req = Inr \<lparr>resp_StatusCode = served_code served, resp_Body = []\<rparr>"
    and "workQueue app = PostgresRepository ts locked returning no_faults now"
    and "reg_ResolveWebhookURLs (registry app) None c = Inr urls"
    and "handleGenerate intn max_cap out (Inr \<lparr>req_CustomerID = c, req_EventType = ty, req_Count = n\<rparr>) (Some EOF) g = (answer, g'')"
  shows "(TrimSpace ty \<noteq> [] \<or> ty = [] \<longrightarrow> served_code served = 202 \<and> answer = Some (WriteJSON 202 (Some (PublishResponse n))) \<and>
      (\<exists>new. rows db' = rows db @ new \<and> int (length new) = n * int (length urls) \<and>
        map row_delivery new = concat (map (\<lambda>ev. map (\<lambda>url. (EventID ev, c, url)) urls) events) \<and>
        list_all (\<lambda>r. status r = Pending \<and> retry_count r = 0) new)) \<and>
    (TrimSpace ty = [] \<and> ty \<noteq> [] \<longrightarrow> served_code served = 400 \<and> db' = db \<and>
      answer = Some (WriteError GeneratorError 502 (''notifier returned status 400''))) \<and>
    g'' = g' \<and> distinct (map EventID (earlier @ events))"
proof -
  have life: "gen_ok g" "batch (gen_NewApplication cfg) earlier g" using generated_batch [OF assms(1,2)] by auto
  note made = append_events_batch [OF assms(3) life(1) assms(7)]
  have verdict: "validateEvent ev = (if TrimSpace et = [] then Some (Err ''eventType is required'') else None)"
    if ev: "ev \<in> set events" for ev
  proof -
    have "validateEvent ev = type_verdict ev" using made(1) ev by (auto simp: batch_def in_set_conv_nth)
    then show ?thesis using made(3) ev by (simp add: type_verdict_def)
  qed
  obtain ev rest where events: "events = ev # rest" using made(2) assms(4) by (cases events) auto
  obtain reply where ingest: "handleBatchEvents (notifier_clock env) (Inr events) app db = (reply, app', db')"
    and served: "served = Routed reply"
    using assms(11) unfolding batch_request_served assms(10) routed_reply_def
    by (cases "handleBatchEvents (notifier_clock env) (Inr events) app db") auto
  have answer: "answer = Some (publish_and_answer out events g')" "g'' = g'"
    using assms(3-7,15)
    by (auto simp: handleGenerate_def decodeJSONRequest_def validateGenerateRequest_def capacity_ok_def Let_def
        simp del: append_events.simps split: if_splits)
  have published: "publishEvents out g' events = (if is_2xx (served_code served) then None
      else Some (Err (''notifier returned status '' @ Itoa (served_code served))))"
    using assms(8,9,12) by (auto simp: publishEvents_def Let_def)
  have good: "served_code served = 202 \<and> answer = Some (WriteJSON 202 (Some (PublishResponse n))) \<and>
      (\<exists>new. rows db' = rows db @ new \<and> int (length new) = n * int (length urls) \<and>
        map row_delivery new = concat (map (\<lambda>ev. map (\<lambda>url. (EventID ev, c, url)) urls) events) \<and>
        list_all (\<lambda>r. status r = Pending \<and> retry_count r = 0) new)" if "TrimSpace et \<noteq> []"
  proof -
    have ok: "list_all (acceptable (registry app)) events"
      using made(3) assms(14) verdict that by (simp add: list_all_iff acceptable_def)
    note queued = accepted_batch [OF assms(13) ok ingest]
    have deliveries: "deliveries_of (registry app) events = concat (map (\<lambda>ev. map (\<lambda>url. (EventID ev, c, url)) urls) events)"
      unfolding deliveries_of_def using made(3) assms(14)
      by (auto simp: urls_for_def intro!: arg_cong [of _ _ concat])
    from queued(2) obtain new where new: "rows db' = rows db @ new" "list_all (\<lambda>r. status r = Pending \<and> retry_count r = 0) new"
      "map row_delivery new = concat (map (\<lambda>ev. map (\<lambda>url. (EventID ev, c, url)) urls) events)"
      unfolding deliveries by blast
    from arg_cong [OF new(3), of length] have "int (length new) = n * int (length urls)"
      using made(2) assms(4) by (simp only: length_map urls_per_event) simp
    moreover have "served_code served = 202" using queued(1) by (simp add: served_code_def served)
    moreover from this have "answer = Some (WriteJSON 202 (Some (PublishResponse n)))"
      using published answer(1) made(2) assms(4) by (simp add: publish_and_answer_def)
    ultimately show ?thesis using new by blast
  qed
  have bad: "served_code served = 400 \<and> db' = db \<and>
      answer = Some (WriteError GeneratorError 502 (''notifier returned status 400''))" if "TrimSpace et = []"
  proof -
    have "reply_code reply = 400" "db' = db"
      using rejected_batch [of ev "notifier_clock env" rest app db] verdict [of ev] that ingest by (auto simp: events)
    moreover have "Itoa 400 = ''400''" by code_simp
    ultimately show ?thesis using published answer(1) by (simp add: served_code_def served publish_and_answer_def)
  qed
  have "TrimSpace et = [] \<longleftrightarrow> TrimSpace ty = [] \<and> ty \<noteq> []" using created_visible by (simp add: assms(6))
  then show ?thesis using good bad answer(2) batch_distinct [OF batch_append [OF life(2) made(1)]] by blast
qed

definition two_events :: "SubscriberEvent list \<times> generator" where
  "two_events = append_events (\<lambda>_ _. 0) ''acme'' SubscriberCreatedEventType 0 2 (gen_NewApplication sample_generator_config)"

definition sample_notifier_env :: notifier_env where
  "sample_notifier_env = \<lparr>notifier_clock = (\<lambda>_. 9), decode_one = (\<lambda>_. Inl Canceled), decode_batch = (\<lambda>_. Inr (fst two_events)),
     exposition = (\<lambda>_. handleHealth)\<rparr>"

definition sample_publication :: publish_env where
  "sample_publication = \<lparr>marshal_events = (\<lambda>_. Inr ''[]''), publish_fault = (\<lambda>_. None),
     publish_do = (\<lambda>timeout req. Inr \<lparr>resp_StatusCode = served_code (fst (newHTTPServer sample_notifier_env
       \<lparr>request_method = ''POST'', request_path = [''events'', ''batch''], request_body = req_body req\<rparr> (sample_app, empty_queue))),
       resp_Body = []\<rparr>)\<rparr>"

theorem generated_events_reach_the_queue_witness:
  "fst (handleGenerate (\<lambda>_ _. 0) 1000 sample_publication
      (Inr \<lparr>req_CustomerID = ''acme'', req_EventType = SubscriberCreatedEventType, req_Count = 2\<rparr>) (Some EOF)
      (gen_NewApplication sample_generator_config)) = Some (WriteJSON 202 (Some (PublishResponse 2)))"
proof -
  obtain served app' db' where served: "newHTTPServer sample_notifier_env
      \<lparr>request_method = ''POST'', request_path = [''events'', ''batch''], request_body = ''[]''\<rparr> (sample_app, empty_queue) =
      (served, app', db')"
    by (metis prod_cases3)
  have "generated (\<lambda>_ _. 0) sample_generator_config (gen_NewApplication sample_generator_config) []" by (rule gen_new)
  from generated_events_reach_the_queue [OF this _ _ _ _ refl surjective_pairing _ _ _ served _ _ _ surjective_pairing,
      where c = "''acme''" and n = 2 and max_cap = 1000 and ty = SubscriberCreatedEventType and out = sample_publication and
        ts = id and locked = "{2}" and returning = id and now = 5 and urls = "[''http://a'']"]
  show ?thesis
    using served trim_acme created_visible
    by (simp add: sample_generator_config_def int64_def sample_publication_def sample_notifier_env_def two_events_def
        sample_app_def sample_repo_def open_registry_def)
qed

end
